(* ===== verification/Prelude.thy ===== *)
theory Prelude
  imports Main "HOL-Library.Word"
begin

text \<open>
  Shared vocabulary of the development: Rust's \<open>Result\<close> as a sum with the combinators the
  code uses on it, \<open>&str\<close> and \<open>String\<close> as lists of UTF-8 bytes with the string operations
  of the standard library the code calls, durations, machine integers with checked
  addition, and labelled transition systems with their invariant and monotonicity rules.
\<close>

named_theorems result_simps \<open>equations that open the Result combinators\<close>
named_theorems text_simps \<open>facts on byte strings and their characters\<close>

section \<open>Results\<close>

text \<open>\<open>Inl\<close> is \<open>Err\<close>, \<open>Inr\<close> is \<open>Ok\<close>.\<close>

definition and_then :: "'e + 'a \<Rightarrow> ('a \<Rightarrow> 'e + 'b) \<Rightarrow> 'e + 'b" where
  "and_then r f = (case r of Inl e \<Rightarrow> Inl e | Inr a \<Rightarrow> f a)"

definition map_err :: "('e \<Rightarrow> 'f) \<Rightarrow> 'e + 'a \<Rightarrow> 'f + 'a" where
  "map_err g r = (case r of Inl e \<Rightarrow> Inl (g e) | Inr a \<Rightarrow> Inr a)"

definition ok_or :: "'e \<Rightarrow> 'a option \<Rightarrow> 'e + 'a" where
  "ok_or e x = (case x of None \<Rightarrow> Inl e | Some a \<Rightarrow> Inr a)"

definition is_ok :: "'e + 'a \<Rightarrow> bool" where
  "is_ok r = (case r of Inl _ \<Rightarrow> False | Inr _ \<Rightarrow> True)"

definition ok :: "'e + 'a \<Rightarrow> 'a option" where
  "ok r = (case r of Inl _ \<Rightarrow> None | Inr a \<Rightarrow> Some a)"

text \<open>\<open>iter.map(f).collect::<Result<Vec<_>, _>>()\<close>: the first error wins.\<close>

fun collect_results :: "('a \<Rightarrow> 'e + 'b) \<Rightarrow> 'a list \<Rightarrow> 'e + 'b list" where
  "collect_results f [] = Inr []"
| "collect_results f (x # xs) =
     (case f x of
        Inl e \<Rightarrow> Inl e
      | Inr y \<Rightarrow> (case collect_results f xs of Inl e \<Rightarrow> Inl e | Inr ys \<Rightarrow> Inr (y # ys)))"

text \<open>\<open>iter.try_fold(init, f)\<close>.\<close>

fun try_fold :: "('s \<Rightarrow> 'a \<Rightarrow> 'e + 's) \<Rightarrow> 's \<Rightarrow> 'a list \<Rightarrow> 'e + 's" where
  "try_fold f s [] = Inr s"
| "try_fold f s (x # xs) = (case f s x of Inl e \<Rightarrow> Inl e | Inr s' \<Rightarrow> try_fold f s' xs)"

lemma and_then_simps [simp, result_simps]:
  "and_then (Inl e) f = Inl e" "and_then (Inr a) f = f a"
  by (simp_all add: and_then_def)

lemma and_then_Inr [simp, result_simps]:
  "and_then r f = Inr b \<longleftrightarrow> (\<exists>a. r = Inr a \<and> f a = Inr b)"
  by (cases r) simp_all

lemma and_then_Inl [result_simps]:
  "and_then r f = Inl e \<longleftrightarrow> r = Inl e \<or> (\<exists>a. r = Inr a \<and> f a = Inl e)"
  by (cases r) simp_all

lemma and_then_assoc: "and_then (and_then r f) g = and_then r (\<lambda>x. and_then (f x) g)"
  by (cases r) simp_all

lemma map_err_simps [simp, result_simps]:
  "map_err g (Inl e) = Inl (g e)" "map_err g (Inr a) = Inr a"
  by (simp_all add: map_err_def)

lemma map_err_Inr [simp, result_simps]: "map_err g r = Inr a \<longleftrightarrow> r = Inr a"
  by (cases r) simp_all

lemma map_err_Inl [simp, result_simps]: "map_err g r = Inl e \<longleftrightarrow> (\<exists>e'. r = Inl e' \<and> e = g e')"
  by (cases r) auto

lemma ok_or_simps [simp, result_simps]:
  "ok_or e None = Inl e" "ok_or e (Some a) = Inr a"
  by (simp_all add: ok_or_def)

lemma ok_or_Inr [simp, result_simps]: "ok_or e x = Inr a \<longleftrightarrow> x = Some a"
  by (cases x) simp_all

lemma ok_or_Inl [simp, result_simps]: "ok_or e x = Inl e' \<longleftrightarrow> x = None \<and> e' = e"
  by (cases x) auto

lemma is_ok_simps [simp, result_simps]: "is_ok (Inl e) = False" "is_ok (Inr a) = True"
  by (simp_all add: is_ok_def)

lemma is_ok_iff: "is_ok r \<longleftrightarrow> (\<exists>a. r = Inr a)"
  by (cases r) simp_all

lemma ok_simps [simp, result_simps]: "ok (Inl e) = None" "ok (Inr a) = Some a"
  by (simp_all add: ok_def)

lemma collect_results_Inr_Cons [simp]:
  "collect_results f (x # xs) = Inr ys \<longleftrightarrow>
     (\<exists>z zs. f x = Inr z \<and> collect_results f xs = Inr zs \<and> ys = z # zs)"
  by (auto split: sum.splits)

lemma collect_results_Inr:
  "collect_results f xs = Inr ys \<longleftrightarrow> list_all2 (\<lambda>x y. f x = Inr y) xs ys"
  by (induction xs arbitrary: ys) (auto simp: list_all2_Cons1 simp del: collect_results.simps(2))

lemma collect_results_Inl_append:
  "\<forall>u \<in> set us. is_ok (f u) \<Longrightarrow> f x = Inl e \<Longrightarrow> collect_results f (us @ x # vs) = Inl e"
  by (induction us) (auto simp: is_ok_def split: sum.splits)

lemma collect_results_length: "collect_results f xs = Inr ys \<Longrightarrow> length ys = length xs"
  by (auto simp: collect_results_Inr dest: list_all2_lengthD)

lemma collect_results_member:
  "collect_results f xs = Inr ys \<Longrightarrow> y \<in> set ys \<Longrightarrow> \<exists>x \<in> set xs. f x = Inr y"
  by (induction xs arbitrary: ys) (auto simp del: collect_results.simps(2))

lemma collect_results_total:
  "\<forall>x \<in> set xs. f x = Inr (g x) \<Longrightarrow> collect_results f xs = Inr (map g xs)"
  by (induction xs) auto

lemma set_map_filter: "set (List.map_filter f xs) = {y. \<exists>x \<in> set xs. f x = Some y}"
  by (induction xs) (auto simp: List.map_filter_simps split: option.splits)

text \<open>An invariant of the accumulator survives a \<open>try_fold\<close>.\<close>

lemma try_fold_invariant:
  assumes "try_fold f s xs = Inr s'" and "P s"
    and step: "\<And>s x s'. P s \<Longrightarrow> x \<in> set xs \<Longrightarrow> f s x = Inr s' \<Longrightarrow> P s'"
  shows "P s'"
  using assms(1,2) step
proof (induction xs arbitrary: s)
  case (Cons x xs)
  from Cons.prems(1) obtain t where t: "f s x = Inr t" "try_fold f t xs = Inr s'"
    by (auto split: sum.splits)
  have "P t" using Cons.prems(3) [OF Cons.prems(2) _ t(1)] by simp
  with t(2) show ?case by (rule Cons.IH) (rule Cons.prems(3), auto)
qed simp

lemma try_fold_append:
  "try_fold f s (xs @ ys) = and_then (try_fold f s xs) (\<lambda>s'. try_fold f s' ys)"
  by (induction xs arbitrary: s) (auto split: sum.splits)

section \<open>Machine integers and durations\<close>

type_synonym u16 = "16 word"
type_synonym u32 = "32 word"
type_synonym u64 = "64 word"

text \<open>
  Byte counts (\<open>usize\<close>) are natural numbers; the additions the code makes on them are
  all \<open>checked_add\<close>, so the width shows as the bound of \<open>checked_add_usize\<close> and no value
  ever wraps. A \<open>Duration\<close> is its length in nanoseconds: the code compares durations and
  tests them for zero, nothing else.
\<close>

definition usize_limit :: nat where
  "usize_limit = 2 ^ 64"

definition checked_add_usize :: "nat \<Rightarrow> nat \<Rightarrow> nat option" where
  "checked_add_usize a b = (if a + b < usize_limit then Some (a + b) else None)"

lemma checked_add_usize_Some [simp]:
  "checked_add_usize a b = Some c \<longleftrightarrow> c = a + b \<and> a + b < usize_limit"
  by (auto simp: checked_add_usize_def)

lemma checked_add_usize_None: "checked_add_usize a b = None \<longleftrightarrow> usize_limit \<le> a + b"
  by (auto simp: checked_add_usize_def)

definition checked_add_u64 :: "u64 \<Rightarrow> u64 \<Rightarrow> u64 option" where
  "checked_add_u64 a b = (if unat a + unat b < 2 ^ 64 then Some (a + b) else None)"

lemma unat_u64_less: "unat (w :: u64) < 2 ^ 64"
  using unsigned_less [of w] by simp

lemma checked_add_u64_Some:
  "checked_add_u64 a b = Some c \<Longrightarrow> unat c = unat a + unat b"
  by (auto simp: checked_add_u64_def unat_word_ariths split: if_splits)

lemma checked_add_u64_total:
  "unat a + unat b < 2 ^ 64 \<Longrightarrow> checked_add_u64 a b = Some (a + b)"
  by (simp add: checked_add_u64_def)

lemma checked_add_u64_None: "checked_add_u64 a b = None \<longleftrightarrow> 2 ^ 64 \<le> unat a + unat b"
  by (auto simp: checked_add_u64_def)

type_synonym duration = nat

definition from_millis :: "nat \<Rightarrow> duration" where
  "from_millis m = m * 1000000"

definition from_secs :: "nat \<Rightarrow> duration" where
  "from_secs s = s * 1000000000"

lemma from_secs_simps [simp]:
  "from_secs a \<le> from_secs b \<longleftrightarrow> a \<le> b" "from_secs a = 0 \<longleftrightarrow> a = 0"
  by (simp_all add: from_secs_def)

section \<open>Machines\<close>

text \<open>
  A component that reacts to a sequence of operations is a step function folded over the
  sequence. What a client may rely on between operations is an invariant; a quantity that
  no operation decreases (a revision, the position in the lifecycle) is a rank.
\<close>

locale invariant_machine =
  fixes step :: "'s \<Rightarrow> 'l \<Rightarrow> 's"
    and inv :: "'s \<Rightarrow> bool"
  assumes inv_step: "inv s \<Longrightarrow> inv (step s l)"
begin

lemma inv_run: "inv s \<Longrightarrow> inv (foldl step s ls)"
  by (induction ls arbitrary: s) (auto intro: inv_step)

end

locale ranked_machine = invariant_machine +
  fixes rank :: "'s \<Rightarrow> nat"
  assumes rank_step: "inv s \<Longrightarrow> rank s \<le> rank (step s l)"
begin

lemma rank_run: "inv s \<Longrightarrow> rank s \<le> rank (foldl step s ls)"
proof (induction ls arbitrary: s)
  case (Cons l ls)
  have "rank s \<le> rank (step s l)" using Cons.prems by (rule rank_step)
  also have "\<dots> \<le> rank (foldl step (step s l) ls)"
    by (rule Cons.IH) (rule inv_step, rule Cons.prems)
  finally show ?case by simp
qed simp

lemma rank_run_prefix:
  assumes "inv s"
  shows "rank (foldl step s us) \<le> rank (foldl step s (us @ vs))"
  using rank_run [OF inv_run [OF assms, of us], of vs] by simp

end

end
