(* ===== verification/Texts.thy ===== *)
theory Texts
  imports Prelude
begin

text \<open>
  Rust text. A \<open>str\<close> is the list of its UTF-8 bytes, one \<open>char\<close> of HOL per byte, so
  \<open>len()\<close> is \<open>length\<close>, \<open>bytes()\<close> is the list itself and ASCII literals are written as they
  are. \<open>chars()\<close> decodes; \<open>trim\<close>, \<open>char::is_control\<close> and the whitespace test follow the
  Unicode tables that the standard library uses. The functions are total on byte lists
  that are not valid UTF-8, which no Rust \<open>str\<close> is.
\<close>

type_synonym str = string

section \<open>Characters\<close>

definition byte_of :: "char \<Rightarrow> nat" where
  "byte_of c = of_char c"

definition utf8_width :: "char \<Rightarrow> nat" where
  "utf8_width c =
     (let n = byte_of c in if n < 128 then 1 else if n < 224 then 2 else if n < 240 then 3 else 4)"

function utf8_chunks :: "str \<Rightarrow> str list" where
  "utf8_chunks [] = []"
| "utf8_chunks (c # cs) =
     (c # take (utf8_width c - 1) cs) # utf8_chunks (drop (utf8_width c - 1) cs)"
  by pat_completeness auto
termination
  by (relation "measure length") (auto simp: utf8_width_def)

fun code_point :: "str \<Rightarrow> nat" where
  "code_point [] = 0"
| "code_point [a] = byte_of a"
| "code_point [a, b] = byte_of a mod 32 * 64 + byte_of b mod 64"
| "code_point [a, b, c] = byte_of a mod 16 * 4096 + byte_of b mod 64 * 64 + byte_of c mod 64"
| "code_point (a # b # c # d # _) =
     byte_of a mod 8 * 262144 + byte_of b mod 64 * 4096 + byte_of c mod 64 * 64 + byte_of d mod 64"

definition chars :: "str \<Rightarrow> nat list" where
  "chars s = map code_point (utf8_chunks s)"

text \<open>\<open>char::is_control\<close> is the category Cc; \<open>char::is_whitespace\<close> the property White_Space.\<close>

definition is_control :: "nat \<Rightarrow> bool" where
  "is_control n \<longleftrightarrow> n < 32 \<or> (127 \<le> n \<and> n < 160)"

definition is_whitespace :: "nat \<Rightarrow> bool" where
  "is_whitespace n \<longleftrightarrow>
     (9 \<le> n \<and> n \<le> 13) \<or> n = 32 \<or> n = 133 \<or> n = 160 \<or> n = 5760 \<or>
     (8192 \<le> n \<and> n \<le> 8202) \<or> n = 8232 \<or> n = 8233 \<or> n = 8239 \<or> n = 8287 \<or> n = 12288"

definition has_control :: "str \<Rightarrow> bool" where
  "has_control s \<longleftrightarrow> list_ex is_control (chars s)"

section \<open>Trimming and splitting\<close>

definition trim :: "str \<Rightarrow> str" where
  "trim s =
     (let ws = (\<lambda>c. is_whitespace (code_point c));
          front = dropWhile ws (utf8_chunks s)
      in concat (rev (dropWhile ws (rev front))))"

fun split_on :: "char \<Rightarrow> str \<Rightarrow> str list" where
  "split_on d [] = [[]]"
| "split_on d (c # cs) =
     (if c = d then [] # split_on d cs
      else (case split_on d cs of [] \<Rightarrow> [[c]] | p # ps \<Rightarrow> (c # p) # ps))"

fun join_with :: "str \<Rightarrow> str list \<Rightarrow> str" where
  "join_with d [] = []"
| "join_with d [p] = p"
| "join_with d (p # q # ps) = p @ d @ join_with d (q # ps)"

fun starts_with :: "str \<Rightarrow> str \<Rightarrow> bool" where
  "starts_with s [] = True"
| "starts_with [] (n # ns) = False"
| "starts_with (c # cs) (n # ns) = (c = n \<and> starts_with cs ns)"

fun contains :: "str \<Rightarrow> str \<Rightarrow> bool" where
  "contains [] n = (n = [])"
| "contains (c # cs) n = (starts_with (c # cs) n \<or> contains cs n)"

section \<open>ASCII\<close>

definition to_lower_byte :: "char \<Rightarrow> char" where
  "to_lower_byte c = (if 65 \<le> byte_of c \<and> byte_of c \<le> 90 then char_of (byte_of c + 32) else c)"

definition to_ascii_lowercase :: "str \<Rightarrow> str" where
  "to_ascii_lowercase s = map to_lower_byte s"

definition is_ascii_digit :: "char \<Rightarrow> bool" where
  "is_ascii_digit c \<longleftrightarrow> 48 \<le> byte_of c \<and> byte_of c \<le> 57"

definition is_ascii_alphanumeric :: "char \<Rightarrow> bool" where
  "is_ascii_alphanumeric c \<longleftrightarrow>
     is_ascii_digit c \<or> (65 \<le> byte_of c \<and> byte_of c \<le> 90) \<or> (97 \<le> byte_of c \<and> byte_of c \<le> 122)"

text \<open>
  Integer parsing as \<open>FromStr\<close> of the unsigned types: an optional plus sign, at least one
  digit, no value above the maximum of the type.
\<close>

fun digits_value :: "nat \<Rightarrow> nat \<Rightarrow> str \<Rightarrow> nat option" where
  "digits_value limit acc [] = Some acc"
| "digits_value limit acc (c # cs) =
     (if is_ascii_digit c
      then (let v = 10 * acc + (byte_of c - 48)
            in if v < limit then digits_value limit v cs else None)
      else None)"

definition parse_unsigned :: "nat \<Rightarrow> str \<Rightarrow> nat option" where
  "parse_unsigned limit s =
     (case s of
        [] \<Rightarrow> None
      | c # cs \<Rightarrow>
          if c = CHR ''+'' then (if cs = [] then None else digits_value limit 0 cs)
          else digits_value limit 0 s)"

text \<open>\<open>Display\<close> of the unsigned types.\<close>

fun show_nat :: "nat \<Rightarrow> str" where
  "show_nat n = (if n < 10 then [char_of (48 + n)] else show_nat (n div 10) @ [char_of (48 + n mod 10)])"

declare show_nat.simps [simp del]

section \<open>Facts\<close>

lemma byte_of_less [simp, text_simps]: "byte_of c < 256"
  by (simp add: byte_of_def)

lemma byte_of_char_of [simp, text_simps]: "n < 256 \<Longrightarrow> byte_of (char_of n) = n"
  by (simp add: byte_of_def)

lemma byte_of_inject [simp, text_simps]: "byte_of a = byte_of b \<longleftrightarrow> a = b"
  by (simp add: byte_of_def)

lemma utf8_width_pos [simp]: "0 < utf8_width c"
  by (simp add: utf8_width_def Let_def)

lemma concat_utf8_chunks [simp, text_simps]: "concat (utf8_chunks s) = s"
  by (induction s rule: utf8_chunks.induct) simp_all

lemma utf8_chunks_nonempty: "c \<in> set (utf8_chunks s) \<Longrightarrow> c \<noteq> []"
  by (induction s rule: utf8_chunks.induct) auto

lemma utf8_chunks_eq_Nil [simp]: "utf8_chunks s = [] \<longleftrightarrow> s = []"
  by (cases s) simp_all

definition ascii :: "str \<Rightarrow> bool" where
  "ascii s \<longleftrightarrow> (\<forall>c \<in> set s. byte_of c < 128)"

lemma ascii_simps [simp]: "ascii []" "ascii (c # s) \<longleftrightarrow> byte_of c < 128 \<and> ascii s"
  "ascii (s @ t) \<longleftrightarrow> ascii s \<and> ascii t"
  by (auto simp: ascii_def)

lemma utf8_chunks_ascii: "ascii s \<Longrightarrow> utf8_chunks s = map (\<lambda>c. [c]) s"
  by (induction s) (simp_all add: utf8_width_def)

lemma chars_ascii: "ascii s \<Longrightarrow> chars s = map byte_of s"
  by (simp add: chars_def utf8_chunks_ascii)

lemma has_control_ascii: "ascii s \<Longrightarrow> has_control s \<longleftrightarrow> (\<exists>c \<in> set s. is_control (byte_of c))"
  by (auto simp: has_control_def chars_ascii list_ex_iff)

subsection \<open>Search\<close>

lemma starts_with_iff: "starts_with s n \<longleftrightarrow> (\<exists>v. s = n @ v)"
  by (induction s n rule: starts_with.induct) auto

lemma contains_iff: "contains h n \<longleftrightarrow> (\<exists>u v. h = u @ n @ v)"
proof (induction h n rule: contains.induct)
  case (2 c cs n)
  show ?case
  proof
    assume "contains (c # cs) n"
    then consider "starts_with (c # cs) n" | "contains cs n" by auto
    then show "\<exists>u v. c # cs = u @ n @ v"
    proof cases
      case 1
      then obtain v where "c # cs = [] @ n @ v" by (auto simp: starts_with_iff)
      then show ?thesis by blast
    next
      case 2
      then obtain u v where "cs = u @ n @ v" using "2.IH" by blast
      then have "c # cs = (c # u) @ n @ v" by simp
      then show ?thesis by blast
    qed
  next
    assume "\<exists>u v. c # cs = u @ n @ v"
    then obtain u v where uv: "c # cs = u @ n @ v" by blast
    show "contains (c # cs) n"
    proof (cases u)
      case Nil
      with uv have "starts_with (c # cs) n" by (simp add: starts_with_iff)
      then show ?thesis by (simp only: contains.simps) simp
    next
      case (Cons a u')
      with uv have "cs = u' @ n @ v" by simp
      with "2.IH" show ?thesis by auto
    qed
  qed
qed auto

lemma contains_trans_append: "contains h n \<Longrightarrow> contains (u @ h @ v) n"
  by (auto simp: contains_iff) (metis append_assoc)

subsection \<open>Splitting\<close>

lemma split_on_nonempty [simp]: "split_on d s \<noteq> []"
  by (induction s) (auto split: list.splits)

lemma split_on_no_delim: "p \<in> set (split_on d s) \<Longrightarrow> d \<notin> set p"
  by (induction s arbitrary: p) (fastforce split: list.splits if_splits)+

lemma split_on_chars: "p \<in> set (split_on d s) \<Longrightarrow> set p \<subseteq> set s"
  by (induction s arbitrary: p) (fastforce split: list.splits if_splits)+

lemma split_on_id: "d \<notin> set p \<Longrightarrow> split_on d p = [p]"
  by (induction p) auto

lemma split_on_append: "d \<notin> set p \<Longrightarrow> split_on d (p @ d # s) = p # split_on d s"
  by (induction p) auto

text \<open>Joining with a delimiter that no part holds is undone by splitting, and back.\<close>

lemma split_on_join: "ps \<noteq> [] \<Longrightarrow> \<forall>p \<in> set ps. d \<notin> set p \<Longrightarrow> split_on d (join_with [d] ps) = ps"
  by (induction ps rule: induct_list012) (auto simp: split_on_id split_on_append)

lemma join_with_Cons_nonempty: "ps \<noteq> [] \<Longrightarrow> join_with d (p # ps) = p @ d @ join_with d ps"
  by (cases ps) simp_all

lemma join_split_on: "join_with [d] (split_on d s) = s"
proof (induction s)
  case (Cons c s)
  obtain p ps where "split_on d s = p # ps" by (cases "split_on d s") auto
  with Cons show ?case by (cases ps) (auto simp: join_with_Cons_nonempty)
qed simp

subsection \<open>Trimming\<close>

lemma trim_infix: "\<exists>u v. s = u @ trim s @ v"
proof -
  let ?ws = "\<lambda>c. is_whitespace (code_point c)"
  let ?front = "dropWhile ?ws (utf8_chunks s)"
  let ?mid = "rev (dropWhile ?ws (rev ?front))"
  have f: "utf8_chunks s = takeWhile ?ws (utf8_chunks s) @ ?front" by simp
  have "rev ?front = takeWhile ?ws (rev ?front) @ dropWhile ?ws (rev ?front)" by simp
  then have m: "?front = ?mid @ rev (takeWhile ?ws (rev ?front))"
    by (metis rev_append rev_rev_ident)
  have "s = concat (utf8_chunks s)" by simp
  also have "\<dots> = concat (takeWhile ?ws (utf8_chunks s)) @ concat ?front"
    by (metis f concat_append)
  also have "concat ?front = concat ?mid @ concat (rev (takeWhile ?ws (rev ?front)))"
    by (metis m concat_append)
  finally show ?thesis by (auto simp: trim_def Let_def)
qed

lemma trim_chars: "set (trim s) \<subseteq> set s"
proof -
  obtain u v where "s = u @ trim s @ v" using trim_infix by blast
  then have "set s = set u \<union> set (trim s) \<union> set v" by (metis set_append sup_assoc)
  then show ?thesis by blast
qed

lemma trim_length: "length (trim s) \<le> length s"
proof -
  obtain u v where "s = u @ trim s @ v" using trim_infix by blast
  then have "length s = length u + (length (trim s) + length v)"
    by (metis length_append)
  then show ?thesis by simp
qed

lemma concat_eq_Nil_iff: "(\<And>c. c \<in> set xs \<Longrightarrow> c \<noteq> []) \<Longrightarrow> concat xs = [] \<longleftrightarrow> xs = []"
  by (cases xs) auto

lemma trim_eq_Nil: "trim s = [] \<longleftrightarrow> (\<forall>n \<in> set (chars s). is_whitespace n)"
proof -
  let ?ws = "\<lambda>c. is_whitespace (code_point c)"
  let ?front = "dropWhile ?ws (utf8_chunks s)"
  let ?mid = "rev (dropWhile ?ws (rev ?front))"
  have ne: "c \<in> set ?mid \<Longrightarrow> c \<noteq> []" for c
    by (metis set_dropWhileD set_rev utf8_chunks_nonempty)
  have "trim s = concat ?mid" by (simp add: trim_def Let_def)
  moreover have "concat ?mid = [] \<longleftrightarrow> ?mid = []" by (rule concat_eq_Nil_iff) (rule ne)
  ultimately have "trim s = [] \<longleftrightarrow> ?mid = []" by simp
  also have "\<dots> \<longleftrightarrow> (\<forall>c \<in> set ?front. ?ws c)" by (simp add: dropWhile_eq_Nil_conv)
  also have "\<dots> \<longleftrightarrow> ?front = []"
    by (metis (lifting) hd_dropWhile hd_in_set empty_iff list.set(1))
  also have "\<dots> \<longleftrightarrow> (\<forall>c \<in> set (utf8_chunks s). ?ws c)" by (simp add: dropWhile_eq_Nil_conv)
  finally show ?thesis by (simp add: chars_def)
qed

lemma trim_nonempty: "trim s \<noteq> [] \<Longrightarrow> s \<noteq> []"
  by (auto simp: trim_def Let_def)

subsection \<open>Case folding\<close>

lemma to_lower_byte_idem [simp]: "to_lower_byte (to_lower_byte c) = to_lower_byte c"
  by (auto simp: to_lower_byte_def)

lemma to_ascii_lowercase_idem [simp]:
  "to_ascii_lowercase (to_ascii_lowercase s) = to_ascii_lowercase s"
  by (simp add: to_ascii_lowercase_def comp_def)

lemma to_ascii_lowercase_append [simp]:
  "to_ascii_lowercase (s @ t) = to_ascii_lowercase s @ to_ascii_lowercase t"
  by (simp add: to_ascii_lowercase_def)

lemma length_to_ascii_lowercase [simp]: "length (to_ascii_lowercase s) = length s"
  by (simp add: to_ascii_lowercase_def)

subsection \<open>Numbers\<close>

lemma digits_value_bound:
  "digits_value limit acc s = Some n \<Longrightarrow> s \<noteq> [] \<or> acc < limit \<Longrightarrow> n < limit"
  by (induction limit acc s rule: digits_value.induct) (auto simp: Let_def split: if_splits)

lemma parse_unsigned_bound: "parse_unsigned limit s = Some n \<Longrightarrow> n < limit"
  by (cases s)
    (auto simp: parse_unsigned_def Let_def dest: digits_value_bound split: if_splits)

lemma digits_value_append:
  "digits_value limit acc (s @ t) = Option.bind (digits_value limit acc s) (\<lambda>v. digits_value limit v t)"
  by (induction limit acc s rule: digits_value.induct) (auto simp: Let_def)

lemma digits_value_show: "n < limit \<Longrightarrow> digits_value limit 0 (show_nat n) = Some n"
proof (induction n rule: show_nat.induct)
  case (1 n)
  show ?case
  proof (cases "n < 10")
    case True
    with "1.prems" show ?thesis
      by (subst show_nat.simps) (simp add: is_ascii_digit_def)
  next
    case False
    with 1 have "digits_value limit 0 (show_nat (n div 10)) = Some (n div 10)" by simp
    with False "1.prems" show ?thesis
      by (subst show_nat.simps) (simp add: digits_value_append is_ascii_digit_def)
  qed
qed

lemma show_nat_digits: "c \<in> set (show_nat n) \<Longrightarrow> is_ascii_digit c"
proof (induction n arbitrary: c rule: show_nat.induct)
  case (1 n)
  then show ?case
    by (subst (asm) show_nat.simps) (auto simp: is_ascii_digit_def split: if_splits)
qed

lemma show_nat_nonempty [simp]: "show_nat n \<noteq> []"
  by (subst show_nat.simps) simp

theorem parse_show_nat: "n < limit \<Longrightarrow> parse_unsigned limit (show_nat n) = Some n"
proof -
  assume n: "n < limit"
  obtain c cs where c: "show_nat n = c # cs" by (cases "show_nat n") auto
  then have "is_ascii_digit c" using show_nat_digits [of c n] by simp
  then have "c \<noteq> CHR ''+''" by (auto simp: is_ascii_digit_def byte_of_def)
  with c digits_value_show [OF n] show ?thesis
    by (simp add: parse_unsigned_def del: digits_value.simps)
qed

end
