(* ===== verification/Lifecycle.thy ===== *)
theory Lifecycle
  imports Texts
begin

text \<open>
  The lifecycle state machine of \<open>src/state_machine.rs\<close>: the pure transition relation, the
  controller with its revisioned snapshot, its bounded audit ring and the values it hands
  to the watch channel, the exhaustive self-check of the finite graph, and the loop of
  \<open>wait_for\<close>.

  A controller is one value: every operation of the code takes the mutex, so a run of any
  number of threads is some sequence of whole operations (\<open>Lifecycle_Concurrency\<close> proves
  it), and a theorem about all sequences is a theorem about all interleavings. The watch channel belongs to tokio; the model keeps
  the list of values given to it (\<open>ctl_published\<close>), not what the channel does with them.
\<close>

section \<open>States, events, the transition relation\<close>

datatype lifecycle_state = Created | Starting | Ready | Degraded | Draining | Stopped

datatype lifecycle_event = Start | Started | Degrade | Recover | Drain | Stop

definition ALL_STATES :: "lifecycle_state list" where
  "ALL_STATES = [Created, Starting, Ready, Degraded, Draining, Stopped]"

definition ALL_EVENTS :: "lifecycle_event list" where
  "ALL_EVENTS = [Start, Started, Degrade, Recover, Drain, Stop]"

fun state_as_str :: "lifecycle_state \<Rightarrow> str" where
  "state_as_str Created = ''created''"
| "state_as_str Starting = ''starting''"
| "state_as_str Ready = ''ready''"
| "state_as_str Degraded = ''degraded''"
| "state_as_str Draining = ''draining''"
| "state_as_str Stopped = ''stopped''"

fun event_as_str :: "lifecycle_event \<Rightarrow> str" where
  "event_as_str Start = ''start''"
| "event_as_str Started = ''started''"
| "event_as_str Degrade = ''degrade''"
| "event_as_str Recover = ''recover''"
| "event_as_str Drain = ''drain''"
| "event_as_str Stop = ''stop''"

fun is_terminal :: "lifecycle_state \<Rightarrow> bool" where
  "is_terminal Stopped = True"
| "is_terminal _ = False"

fun transition_target :: "lifecycle_state \<Rightarrow> lifecycle_event \<Rightarrow> lifecycle_state option" where
  "transition_target Created Start = Some Starting"
| "transition_target Created Stop = Some Stopped"
| "transition_target Starting Stop = Some Stopped"
| "transition_target Draining Stop = Some Stopped"
| "transition_target Starting Started = Some Ready"
| "transition_target Degraded Recover = Some Ready"
| "transition_target Starting Drain = Some Draining"
| "transition_target Ready Drain = Some Draining"
| "transition_target Degraded Drain = Some Draining"
| "transition_target Ready Degrade = Some Degraded"
| "transition_target _ _ = None"

text \<open>The derived \<open>Ord\<close> of the state enum is the declaration order.\<close>

fun state_index :: "lifecycle_state \<Rightarrow> nat" where
  "state_index Created = 0"
| "state_index Starting = 1"
| "state_index Ready = 2"
| "state_index Degraded = 3"
| "state_index Draining = 4"
| "state_index Stopped = 5"

lemma state_index_inject [simp]: "state_index s = state_index t \<longleftrightarrow> s = t"
  by (cases s; cases t) simp_all

instantiation lifecycle_state :: linorder
begin

definition less_eq_lifecycle_state :: "lifecycle_state \<Rightarrow> lifecycle_state \<Rightarrow> bool" where
  "less_eq_lifecycle_state s t \<longleftrightarrow> state_index s \<le> state_index t"

definition less_lifecycle_state :: "lifecycle_state \<Rightarrow> lifecycle_state \<Rightarrow> bool" where
  "less_lifecycle_state s t \<longleftrightarrow> state_index s < state_index t"

instance
  by standard (auto simp: less_eq_lifecycle_state_def less_lifecycle_state_def)

end

lemma UNIV_lifecycle_state: "(UNIV :: lifecycle_state set) = set ALL_STATES"
proof
  show "(UNIV :: lifecycle_state set) \<subseteq> set ALL_STATES"
  proof
    fix s :: lifecycle_state
    show "s \<in> set ALL_STATES" by (cases s) (simp_all add: ALL_STATES_def)
  qed
qed simp

instance lifecycle_state :: finite
  by standard (simp add: UNIV_lifecycle_state)

lemma all_events_complete [simp]: "e \<in> set ALL_EVENTS"
  by (cases e) (simp_all add: ALL_EVENTS_def)

lemma all_states_complete [simp]: "s \<in> set ALL_STATES"
  by (simp flip: UNIV_lifecycle_state)

lemma transition_target_terminal [simp]: "is_terminal s \<Longrightarrow> transition_target s e = None"
  by (cases s; cases e) simp_all

lemma transition_target_not_refl: "transition_target s e \<noteq> Some s"
  by (cases s; cases e) simp_all

fun_cases transition_target_SomeE: "transition_target s e = Some t"

section \<open>The controller\<close>

definition MAX_AUDIT_CAPACITY :: nat where
  "MAX_AUDIT_CAPACITY = 4096"

record lifecycle_snapshot =
  snap_state :: lifecycle_state
  snap_revision :: u64

definition INITIAL :: lifecycle_snapshot where
  "INITIAL = \<lparr>snap_state = Created, snap_revision = 0\<rparr>"

record transition_record =
  rec_revision :: u64
  rec_from :: lifecycle_state
  rec_event :: lifecycle_event
  rec_to :: lifecycle_state

record controller =
  ctl_snapshot :: lifecycle_snapshot
  ctl_audit :: "transition_record list"
  ctl_published :: "lifecycle_snapshot list"
  ctl_audit_capacity :: nat
  ctl_poisoned :: bool

datatype transition_error =
    InvalidAuditCapacity
  | InvalidTransition lifecycle_state lifecycle_event
  | RevisionExhausted
  | Poisoned

definition controller_new :: "nat \<Rightarrow> transition_error + controller" where
  "controller_new audit_capacity =
     (if audit_capacity = 0 \<or> audit_capacity > MAX_AUDIT_CAPACITY then Inl InvalidAuditCapacity
      else Inr \<lparr>ctl_snapshot = INITIAL, ctl_audit = [], ctl_published = [INITIAL],
                ctl_audit_capacity = audit_capacity, ctl_poisoned = False\<rparr>)"

definition lock_data :: "controller \<Rightarrow> transition_error + controller" where
  "lock_data c = (if ctl_poisoned c then Inl Poisoned else Inr c)"

definition controller_snapshot :: "controller \<Rightarrow> transition_error + lifecycle_snapshot" where
  "controller_snapshot c = and_then (lock_data c) (\<lambda>d. Inr (ctl_snapshot d))"

definition controller_audit :: "controller \<Rightarrow> transition_error + transition_record list" where
  "controller_audit c = and_then (lock_data c) (\<lambda>d. Inr (ctl_audit d))"

definition controller_snapshot_and_audit ::
  "controller \<Rightarrow> transition_error + lifecycle_snapshot \<times> transition_record list" where
  "controller_snapshot_and_audit c = and_then (lock_data c) (\<lambda>d. Inr (ctl_snapshot d, ctl_audit d))"

text \<open>\<open>if audit.len() == capacity { pop_front } push_back(record)\<close>\<close>

definition push_audit :: "nat \<Rightarrow> 'r list \<Rightarrow> 'r \<Rightarrow> 'r list" where
  "push_audit capacity ring r = (if length ring = capacity then tl ring else ring) @ [r]"

definition controller_transition ::
  "lifecycle_event \<Rightarrow> controller \<Rightarrow> controller \<times> (transition_error + lifecycle_snapshot)" where
  "controller_transition ev c =
     (case lock_data c of
        Inl e \<Rightarrow> (c, Inl e)
      | Inr d \<Rightarrow>
          let frm = snap_state (ctl_snapshot d)
          in case transition_target frm ev of
               None \<Rightarrow> (c, Inl (InvalidTransition frm ev))
             | Some target \<Rightarrow>
                 (case checked_add_u64 (snap_revision (ctl_snapshot d)) 1 of
                    None \<Rightarrow> (c, Inl RevisionExhausted)
                  | Some revision \<Rightarrow>
                      let snap = \<lparr>snap_state = target, snap_revision = revision\<rparr>
                      in (d\<lparr>ctl_snapshot := snap,
                            ctl_audit := push_audit (ctl_audit_capacity d) (ctl_audit d)
                              \<lparr>rec_revision = revision, rec_from = frm, rec_event = ev, rec_to = target\<rparr>,
                            ctl_published := ctl_published d @ [snap]\<rparr>,
                          Inr snap)))"

text \<open>A run is a sequence of \<open>transition\<close> calls, by whatever clones of the controller.\<close>

definition controller_step :: "controller \<Rightarrow> lifecycle_event \<Rightarrow> controller" where
  "controller_step c ev = fst (controller_transition ev c)"

definition controller_run :: "controller \<Rightarrow> lifecycle_event list \<Rightarrow> controller" where
  "controller_run c evs = foldl controller_step c evs"

abbreviation state_of :: "controller \<Rightarrow> lifecycle_state" where
  "state_of c \<equiv> snap_state (ctl_snapshot c)"

abbreviation revision_of :: "controller \<Rightarrow> nat" where
  "revision_of c \<equiv> unat (snap_revision (ctl_snapshot c))"

section \<open>The finite graph and its self-check\<close>

datatype model_violation =
    UndeclaredTarget
  | TerminalHasOutgoingTransition
  | UnreachableState
  | NonTerminalDeadlock

record model_validation_report =
  report_reachable_states :: "lifecycle_state set"
  report_transition_count :: nat

definition successors :: "lifecycle_state \<Rightarrow> lifecycle_state list" where
  "successors s = List.map_filter (\<lambda>ev. transition_target s ev) ALL_EVENTS"

function reachable_closure :: "lifecycle_state set \<Rightarrow> lifecycle_state set" where
  "reachable_closure R =
     (let expanded = R \<union> (\<Union>s \<in> R. set (successors s))
      in if card expanded = card R then expanded else reachable_closure expanded)"
  by pat_completeness auto
termination
proof (relation "measure (\<lambda>R. card (UNIV :: lifecycle_state set) - card R)")
  fix R x :: "lifecycle_state set"
  assume x: "x = R \<union> (\<Union>s \<in> R. set (successors s))" and ne: "card x \<noteq> card R"
  have "card R \<le> card x" by (rule card_mono) (auto simp: x)
  with ne have "card R < card x" by simp
  moreover have "card x \<le> card (UNIV :: lifecycle_state set)" by (rule card_mono) auto
  ultimately show "(x, R) \<in> measure (\<lambda>R. card (UNIV :: lifecycle_state set) - card R)" by simp
qed simp

declare reachable_closure.simps [simp del]

definition check_edge ::
  "lifecycle_state set \<Rightarrow> unit \<Rightarrow> lifecycle_state \<times> lifecycle_state \<Rightarrow> model_violation + unit" where
  "check_edge declared u edge =
     (if snd edge \<notin> declared then Inl UndeclaredTarget
      else if is_terminal (fst edge) then Inl TerminalHasOutgoingTransition
      else Inr ())"

definition check_live :: "unit \<Rightarrow> lifecycle_state \<Rightarrow> model_violation + unit" where
  "check_live u s =
     (if list_all (\<lambda>ev. transition_target s ev = None) ALL_EVENTS then Inl NonTerminalDeadlock
      else Inr ())"

definition validate_model :: "model_violation + model_validation_report" where
  "validate_model =
     (let declared = set ALL_STATES;
          transitions = concat (map (\<lambda>s. map (Pair s) (successors s)) ALL_STATES)
      in and_then (try_fold (check_edge declared) () transitions) (\<lambda>_.
           let transition_count = length transitions;
               reachable = reachable_closure {Created}
           in if reachable \<noteq> declared then Inl UnreachableState
              else and_then
                     (try_fold check_live ()
                        (filter (\<lambda>s. \<not> is_terminal s) (filter (\<lambda>s. s \<in> reachable) ALL_STATES)))
                     (\<lambda>_. Inr \<lparr>report_reachable_states = reachable,
                               report_transition_count = transition_count\<rparr>)))"

section \<open>Waiting for a state\<close>

datatype wait_error = WaitTimeout | WaitCancelled | WaitClosed

text \<open>
  What the runtime shows the loop of \<open>wait_for\<close>: the value \<open>borrow_and_update\<close> returns,
  then what ends the biased \<open>select!\<close> below it: one of its two arms, or the timer of the
  enclosing \<open>timeout\<close>. Where the list ends the loop is still waiting (\<open>None\<close>).
\<close>

datatype wait_select = CancelFired | Changed | ChannelClosed | TimerFired

fun wait_for :: "lifecycle_state \<Rightarrow> (lifecycle_snapshot \<times> wait_select) list \<Rightarrow>
    (wait_error + lifecycle_snapshot) option" where
  "wait_for target [] = None"
| "wait_for target ((current, sel) # rest) =
     (if snap_state current = target then Some (Inr current)
      else (case sel of
              CancelFired \<Rightarrow> Some (Inl WaitCancelled)
            | ChannelClosed \<Rightarrow> Some (Inl WaitClosed)
            | TimerFired \<Rightarrow> Some (Inl WaitTimeout)
            | Changed \<Rightarrow> wait_for target rest))"

end
