(* ===== verification/Lifecycle_Laws.thy ===== *)
theory Lifecycle_Laws
  imports Lifecycle
begin

text \<open>
  What the lifecycle controller guarantees. The accepted transitions of a run form a log;
  \<open>traced\<close> relates a controller to its log: the audit ring is the log's most recent part,
  the published snapshots are the log's snapshots in order, and the log is a path of the
  transition relation whose revisions count up from one. Every property of the controller
  is read off that relation.
\<close>

section \<open>One transition\<close>

lemma lock_data_simps [simp]:
  "lock_data c = Inr d \<longleftrightarrow> \<not> ctl_poisoned c \<and> d = c"
  "lock_data c = Inl e \<longleftrightarrow> ctl_poisoned c \<and> e = Poisoned"
  by (auto simp: lock_data_def)

definition accepts :: "controller \<Rightarrow> lifecycle_event \<Rightarrow> bool" where
  "accepts c ev \<longleftrightarrow>
     \<not> ctl_poisoned c \<and> transition_target (state_of c) ev \<noteq> None \<and> revision_of c + 1 < 2 ^ 64"

definition record_for :: "controller \<Rightarrow> lifecycle_event \<Rightarrow> transition_record" where
  "record_for c ev =
     \<lparr>rec_revision = snap_revision (ctl_snapshot c) + 1, rec_from = state_of c, rec_event = ev,
      rec_to = the (transition_target (state_of c) ev)\<rparr>"

definition snapshot_after :: "transition_record \<Rightarrow> lifecycle_snapshot" where
  "snapshot_after r = \<lparr>snap_state = rec_to r, snap_revision = rec_revision r\<rparr>"

lemma snapshot_after_simps [simp]:
  "snap_state (snapshot_after r) = rec_to r" "snap_revision (snapshot_after r) = rec_revision r"
  by (simp_all add: snapshot_after_def)

lemma unat_one_u64 [simp]: "unat (1 :: u64) = 1"
  by simp

lemma controller_transition_accepted:
  assumes "accepts c ev"
  shows "controller_transition ev c =
     (c\<lparr>ctl_snapshot := snapshot_after (record_for c ev),
        ctl_audit := push_audit (ctl_audit_capacity c) (ctl_audit c) (record_for c ev),
        ctl_published := ctl_published c @ [snapshot_after (record_for c ev)]\<rparr>,
      Inr (snapshot_after (record_for c ev)))"
proof -
  obtain t where "transition_target (state_of c) ev = Some t"
    using assms by (auto simp: accepts_def)
  moreover have "checked_add_u64 (snap_revision (ctl_snapshot c)) 1 = Some (snap_revision (ctl_snapshot c) + 1)"
    using assms by (simp add: accepts_def checked_add_u64_total)
  ultimately show ?thesis
    using assms
    by (simp add: controller_transition_def lock_data_def accepts_def record_for_def
        snapshot_after_def Let_def)
qed

definition rejection :: "controller \<Rightarrow> lifecycle_event \<Rightarrow> transition_error" where
  "rejection c ev =
     (if ctl_poisoned c then Poisoned
      else if transition_target (state_of c) ev = None then InvalidTransition (state_of c) ev
      else RevisionExhausted)"

lemma controller_transition_rejected:
  "\<not> accepts c ev \<Longrightarrow> controller_transition ev c = (c, Inl (rejection c ev))"
  by (auto simp: controller_transition_def lock_data_def accepts_def rejection_def Let_def
      checked_add_u64_def split: option.splits)

lemmas controller_transition_cases = controller_transition_accepted controller_transition_rejected

lemma controller_step_accepted:
  "accepts c ev \<Longrightarrow> controller_step c ev =
     c\<lparr>ctl_snapshot := snapshot_after (record_for c ev),
       ctl_audit := push_audit (ctl_audit_capacity c) (ctl_audit c) (record_for c ev),
       ctl_published := ctl_published c @ [snapshot_after (record_for c ev)]\<rparr>"
  by (simp add: controller_step_def controller_transition_accepted)

lemma controller_step_rejected [simp]: "\<not> accepts c ev \<Longrightarrow> controller_step c ev = c"
  by (simp add: controller_step_def controller_transition_rejected)

lemma transition_ok_iff: "is_ok (snd (controller_transition ev c)) \<longleftrightarrow> accepts c ev"
  by (cases "accepts c ev") (simp_all add: controller_transition_cases)

lemma controller_step_capacity [simp]:
  "ctl_audit_capacity (controller_step c ev) = ctl_audit_capacity c"
  "ctl_poisoned (controller_step c ev) = ctl_poisoned c"
  by (cases "accepts c ev"; simp add: controller_step_accepted)+

lemma revision_step:
  "revision_of (controller_step c ev) = (if accepts c ev then Suc (revision_of c) else revision_of c)"
proof (cases "accepts c ev")
  case True
  then have "unat (snap_revision (ctl_snapshot c) + 1) = revision_of c + 1"
    using checked_add_u64_Some [OF checked_add_u64_total, of "snap_revision (ctl_snapshot c)" 1]
    by (simp add: accepts_def)
  with True show ?thesis by (simp add: controller_step_accepted record_for_def)
qed simp

lemma state_step:
  "state_of (controller_step c ev) =
     (if accepts c ev then the (transition_target (state_of c) ev) else state_of c)"
  by (cases "accepts c ev") (simp_all add: controller_step_accepted record_for_def)

section \<open>Runs\<close>

lemma controller_run_simps [simp]:
  "controller_run c [] = c"
  "controller_run c (ev # evs) = controller_run (controller_step c ev) evs"
  by (simp_all add: controller_run_def)

lemma controller_run_append [simp]:
  "controller_run c (us @ vs) = controller_run (controller_run c us) vs"
  by (simp add: controller_run_def)

text \<open>
  The record of the accepted transitions, kept beside the controller: it follows the transition
  relation and counts the revisions by itself, and sees nothing of the controller's fields.
\<close>

fun event_log :: "lifecycle_state \<Rightarrow> nat \<Rightarrow> lifecycle_event list \<Rightarrow> transition_record list" where
  "event_log st n [] = []"
| "event_log st n (ev # evs) =
     (case transition_target st ev of
        Some target \<Rightarrow>
          if n + 1 < 2 ^ 64
          then \<lparr>rec_revision = of_nat (n + 1), rec_from = st, rec_event = ev, rec_to = target\<rparr>
               # event_log target (n + 1) evs
          else event_log st n evs
      | None \<Rightarrow> event_log st n evs)"

definition controller_log :: "controller \<Rightarrow> lifecycle_event list \<Rightarrow> transition_record list" where
  "controller_log c evs = (if ctl_poisoned c then [] else event_log (state_of c) (revision_of c) evs)"

lemma record_for_fields:
  assumes "accepts c ev"
  shows "record_for c ev =
      \<lparr>rec_revision = of_nat (revision_of c + 1), rec_from = state_of c, rec_event = ev,
       rec_to = the (transition_target (state_of c) ev)\<rparr>"
  by (simp add: record_for_def)

text \<open>The controller's own account of a transition is that record, and it goes on from there.\<close>

lemma controller_log_simps [simp]:
  "controller_log c [] = []"
  "controller_log c (ev # evs) =
     (if accepts c ev then record_for c ev # controller_log (controller_step c ev) evs
      else controller_log c evs)"
proof -
  show "controller_log c (ev # evs) =
     (if accepts c ev then record_for c ev # controller_log (controller_step c ev) evs
      else controller_log c evs)"
  proof (cases "accepts c ev")
    case True
    moreover from True obtain t where "transition_target (state_of c) ev = Some t"
      by (auto simp: accepts_def)
    ultimately show ?thesis
      by (simp add: controller_log_def record_for_fields state_step revision_step)
        (simp add: accepts_def)
  qed (auto simp: controller_log_def accepts_def split: option.splits)
qed (simp add: controller_log_def)

fun linked :: "lifecycle_snapshot \<Rightarrow> transition_record list \<Rightarrow> lifecycle_snapshot \<Rightarrow> bool" where
  "linked s [] t = (s = t)"
| "linked s (r # rs) t =
     (rec_from r = snap_state s \<and>
      transition_target (rec_from r) (rec_event r) = Some (rec_to r) \<and>
      unat (rec_revision r) = Suc (unat (snap_revision s)) \<and>
      linked (snapshot_after r) rs t)"

lemma linked_append: "linked s (us @ vs) t \<longleftrightarrow> (\<exists>m. linked s us m \<and> linked m vs t)"
  by (induction us arbitrary: s) auto

lemma linked_drop: "linked s rs t \<Longrightarrow> \<exists>m. linked m (drop n rs) t"
  by (metis append_take_drop_id linked_append)

lemma linked_revision: "linked s rs t \<Longrightarrow> unat (snap_revision t) = unat (snap_revision s) + length rs"
  by (induction rs arbitrary: s) auto

lemma linked_revisions:
  "linked s rs t \<Longrightarrow>
     map (unat \<circ> rec_revision) rs = [Suc (unat (snap_revision s)) ..< Suc (unat (snap_revision t))]"
proof (induction rs arbitrary: s)
  case (Cons r rs)
  from Cons.prems have l: "linked (snapshot_after r) rs t"
    and r: "unat (rec_revision r) = Suc (unat (snap_revision s))" by simp_all
  from linked_revision [OF Cons.prems]
  have "Suc (unat (snap_revision s)) < Suc (unat (snap_revision t))" by simp
  then have "[Suc (unat (snap_revision s)) ..< Suc (unat (snap_revision t))] =
      Suc (unat (snap_revision s)) # [Suc (Suc (unat (snap_revision s))) ..< Suc (unat (snap_revision t))]"
    by (rule upt_conv_Cons)
  with Cons.IH [OF l] r show ?case by simp
qed simp

lemma linked_last: "linked s rs t \<Longrightarrow> rs \<noteq> [] \<Longrightarrow> t = snapshot_after (last rs)"
  by (induction rs arbitrary: s) auto

lemma linked_snapshot: "linked s rs t \<Longrightarrow> t = last (s # map snapshot_after rs)"
  by (induction rs arbitrary: s) auto

lemma linked_successively:
  "linked s rs t \<Longrightarrow> successively (\<lambda>r q. rec_to r = rec_from q) rs \<and>
     list_all (\<lambda>r. transition_target (rec_from r) (rec_event r) = Some (rec_to r)) rs"
proof (induction rs arbitrary: s)
  case (Cons r rs)
  then have "linked (snapshot_after r) rs t" by simp
  with Cons show ?case by (cases rs) fastforce+
qed simp

definition traced :: "controller \<Rightarrow> transition_record list \<Rightarrow> bool" where
  "traced c L \<longleftrightarrow>
     0 < ctl_audit_capacity c \<and> ctl_audit_capacity c \<le> MAX_AUDIT_CAPACITY \<and>
     \<not> ctl_poisoned c \<and>
     ctl_audit c = drop (length L - ctl_audit_capacity c) L \<and>
     ctl_published c = INITIAL # map snapshot_after L \<and>
     linked INITIAL L (ctl_snapshot c)"

definition wf_controller :: "controller \<Rightarrow> bool" where
  "wf_controller c \<longleftrightarrow> (\<exists>L. traced c L)"

lemma push_audit_drop:
  "0 < cap \<Longrightarrow> push_audit cap (drop (length L - cap) L) r = drop (length (L @ [r]) - cap) (L @ [r])"
  by (auto simp: push_audit_def tl_drop drop_Suc Suc_diff_le)

lemma traced_step:
  assumes "traced c L"
  shows "traced (controller_step c ev) (if accepts c ev then L @ [record_for c ev] else L)"
proof (cases "accepts c ev")
  case True
  have "unat (snap_revision (ctl_snapshot c) + 1) = Suc (revision_of c)"
    using revision_step [of c ev] True by (simp add: controller_step_accepted record_for_def)
  with True have "linked (ctl_snapshot c) [record_for c ev] (snapshot_after (record_for c ev))"
    by (auto simp: record_for_def accepts_def)
  with True assms show ?thesis
    by (auto simp: traced_def controller_step_accepted linked_append push_audit_drop simp del: linked.simps)
qed (use assms in simp)

lemma traced_run: "traced c L \<Longrightarrow> traced (controller_run c evs) (L @ controller_log c evs)"
proof (induction evs arbitrary: c L)
  case (Cons ev evs)
  from traced_step [OF Cons.prems, of ev] show ?case
    by (cases "accepts c ev") (auto dest: Cons.IH)
qed simp

lemma traced_new: "controller_new cap = Inr c \<Longrightarrow> traced c [] \<and> ctl_audit_capacity c = cap"
  by (auto simp: controller_new_def traced_def split: if_splits)

lemma traced_new_run:
  "controller_new cap = Inr c \<Longrightarrow> traced (controller_run c evs) (controller_log c evs)"
  using traced_run [of c "[]" evs] traced_new by auto

lemma wf_new: "controller_new cap = Inr c \<Longrightarrow> wf_controller c"
  using traced_new by (auto simp: wf_controller_def)

lemma controller_run_capacity [simp]:
  "ctl_audit_capacity (controller_run c evs) = ctl_audit_capacity c"
  "ctl_poisoned (controller_run c evs) = ctl_poisoned c"
  by (induction evs arbitrary: c) simp_all

interpretation lifecycle: ranked_machine controller_step wf_controller revision_of
proof unfold_locales
  show "wf_controller (controller_step c ev)" if "wf_controller c" for c ev
    using that traced_step by (fastforce simp: wf_controller_def)
  show "revision_of c \<le> revision_of (controller_step c ev)" if "wf_controller c" for c ev
    by (simp add: revision_step)
qed

lemma revision_run_less: "wf_controller c \<Longrightarrow> revision_of c \<le> revision_of (controller_run c evs)"
  unfolding controller_run_def by (rule lifecycle.rank_run)

section \<open>The audit ring and the published snapshots\<close>

definition fresh_controller :: "nat \<Rightarrow> controller" where
  "fresh_controller cap =
     \<lparr>ctl_snapshot = INITIAL, ctl_audit = [], ctl_published = [INITIAL],
      ctl_audit_capacity = cap, ctl_poisoned = False\<rparr>"

lemma controller_new_eq:
  "controller_new cap =
     (if 0 < cap \<and> cap \<le> 4096 then Inr (fresh_controller cap) else Inl InvalidAuditCapacity)"
  by (auto simp: controller_new_def fresh_controller_def MAX_AUDIT_CAPACITY_def)

lemma fresh_controller_simps [simp]:
  "ctl_snapshot (fresh_controller cap) = INITIAL" "\<not> ctl_poisoned (fresh_controller cap)"
  "ctl_audit_capacity (fresh_controller cap) = cap"
  by (simp_all add: fresh_controller_def)

lemma INITIAL_simps [simp]: "snap_state INITIAL = Created" "snap_revision INITIAL = 0"
  by (simp_all add: INITIAL_def)

lemma new_not_poisoned: "controller_new cap = Inr c \<Longrightarrow> \<not> ctl_poisoned c \<and> ctl_audit_capacity c = cap"
  using traced_new by (fastforce simp: traced_def)

lemma traced_linked: "traced c L \<Longrightarrow> linked INITIAL L (ctl_snapshot c)"
  by (simp add: traced_def)

text \<open>
  Audit and snapshot agree: the ring holds every accepted transition until it is full, the
  retained records are linked, and their revisions are consecutive and end at the snapshot's.
\<close>

lemma traced_audit:
  assumes "traced c L"
  shows "length (ctl_audit c) = min (ctl_audit_capacity c) (revision_of c) \<and>
    map (unat \<circ> rec_revision) (ctl_audit c) =
      [Suc (revision_of c - length (ctl_audit c)) ..< Suc (revision_of c)] \<and>
    successively (\<lambda>r q. rec_to r = rec_from q) (ctl_audit c) \<and>
    list_all (\<lambda>r. transition_target (rec_from r) (rec_event r) = Some (rec_to r)) (ctl_audit c)"
proof -
  have a: "ctl_audit c = drop (length L - ctl_audit_capacity c) L" and l: "linked INITIAL L (ctl_snapshot c)"
    using assms by (simp_all add: traced_def)
  have n: "revision_of c = length L" using linked_revision [OF l] by simp
  obtain m where m: "linked m (ctl_audit c) (ctl_snapshot c)"
    using linked_drop [OF l] unfolding a by blast
  have "unat (snap_revision m) = revision_of c - length (ctl_audit c)"
    using linked_revision [OF m] by simp
  moreover have "length (ctl_audit c) = min (ctl_audit_capacity c) (revision_of c)" by (auto simp: a n)
  ultimately show ?thesis using linked_revisions [OF m] linked_successively [OF m] by simp
qed

text \<open>
  C1. The bounded audit is exact. Whatever events are applied to a new controller, a log kept
  beside it by the transition table and a counter alone says what the controller holds: the
  snapshot and the published values are those of that log, and the audit is its most recent
  part, all of it until the ring is full. Retained records are declared transitions, each
  leads from where its predecessor led, and their revisions are consecutive and end at the
  snapshot's.
\<close>

theorem audit_is_recent_history:
  assumes "controller_new cap = Inr c"
  shows "let d = controller_run c evs; log = event_log Created 0 evs in
         ctl_audit d = drop (length log - cap) log \<and>
         ctl_published d = INITIAL # map snapshot_after log \<and>
         ctl_snapshot d = last (INITIAL # map snapshot_after log) \<and>
         length (ctl_audit d) = min cap (revision_of d) \<and>
         map (unat \<circ> rec_revision) (ctl_audit d) =
           [Suc (revision_of d - length (ctl_audit d)) ..< Suc (revision_of d)] \<and>
         successively (\<lambda>r q. rec_to r = rec_from q) (ctl_audit d) \<and>
         list_all (\<lambda>r. transition_target (rec_from r) (rec_event r) = Some (rec_to r)) (ctl_audit d)"
proof -
  define d where "d = controller_run c evs"
  have log: "controller_log c evs = event_log Created 0 evs"
    using assms by (auto simp: controller_log_def controller_new_eq split: if_splits)
  note t = traced_new_run [OF assms, of evs, folded d_def, unfolded log]
  have cap: "ctl_audit_capacity d = cap"
    unfolding d_def using new_not_poisoned [OF assms] by simp
  note audit = traced_audit [OF t, unfolded cap] and snap = linked_snapshot [OF traced_linked [OF t]]
  have "ctl_audit d = drop (length (event_log Created 0 evs) - cap) (event_log Created 0 evs) \<and>
      ctl_published d = INITIAL # map snapshot_after (event_log Created 0 evs)"
    using t cap by (simp add: traced_def)
  with audit snap show ?thesis unfolding Let_def d_def [symmetric] by blast
qed

theorem audit_is_recent_history_witness:
  "let d = controller_run (fresh_controller 1) [Start, Start, Started]; log = event_log Created 0 [Start, Start, Started] in
   length log = 2 \<and> ctl_audit d = [last log] \<and> ctl_snapshot d = snapshot_after (last log)"
proof -
  have "controller_new 1 = Inr (fresh_controller 1)" by (simp add: controller_new_eq)
  from audit_is_recent_history [OF this, of "[Start, Start, Started]"]
  show ?thesis by (simp add: Let_def)
qed

definition follows :: "lifecycle_snapshot \<Rightarrow> lifecycle_snapshot \<Rightarrow> bool" where
  "follows s t \<longleftrightarrow> list_ex (\<lambda>ev. transition_target (snap_state s) ev = Some (snap_state t)) ALL_EVENTS"

lemma linked_successive:
  "linked s rs t \<Longrightarrow> successively follows (s # map snapshot_after rs)"
proof (induction rs arbitrary: s)
  case (Cons r rs)
  then have "transition_target (snap_state s) (rec_event r) = Some (rec_to r)"
    by (metis linked.simps(2))
  then have "follows s (snapshot_after r)"
    by (auto simp: follows_def list_ex_iff intro!: bexI [of _ "rec_event r"])
  with Cons show ?case by simp
qed simp

text \<open>
  Publication is linearised: the values given to the watch channel carry the revisions
  0, 1, 2, ... without gap or repetition, each following its predecessor by a declared
  transition, and the last one given is the current snapshot.
\<close>

theorem published_in_revision_order:
  assumes "controller_new cap = Inr c"
  shows "let d = controller_run c evs in
         map (unat \<circ> snap_revision) (ctl_published d) = [0 ..< Suc (revision_of d)] \<and>
         successively follows (ctl_published d) \<and>
         last (ctl_published d) = ctl_snapshot d"
proof -
  define d where "d = controller_run c evs"
  let ?L = "controller_log c evs"
  have t: "traced d ?L" unfolding d_def using assms(1) by (rule traced_new_run)
  then have p: "ctl_published d = INITIAL # map snapshot_after ?L"
    and l: "linked INITIAL ?L (ctl_snapshot d)"
    by (auto simp: traced_def)
  have "map (unat \<circ> snap_revision) (map snapshot_after ?L) = [Suc 0 ..< Suc (revision_of d)]"
    using linked_revisions [OF l] by (simp add: comp_def INITIAL_def)
  with p have r: "map (unat \<circ> snap_revision) (ctl_published d) = [0 ..< Suc (revision_of d)]"
    by (simp add: INITIAL_def upt_conv_Cons del: upt_Suc)
  have "last (ctl_published d) = ctl_snapshot d"
    using linked_last [OF l] l p by (cases "?L = []") (auto simp: last_map)
  with r linked_successive [OF l] p show ?thesis
    unfolding Let_def d_def [symmetric] by simp
qed

theorem published_in_revision_order_witness:
  "let d = controller_run (fresh_controller 8) [Start, Stop, Drain] in
   map (unat \<circ> snap_revision) (ctl_published d) = [0 ..< Suc (revision_of d)] \<and>
   successively follows (ctl_published d) \<and>
   last (ctl_published d) = ctl_snapshot d"
  by (rule published_in_revision_order [where cap = 8]) (simp add: controller_new_eq)

section \<open>Rejection, termination, shutdown\<close>

text \<open>
  A transition is fail-closed: it succeeds exactly when the lock is healthy, the pair of
  state and event is declared and the revision can advance; otherwise snapshot, revision,
  audit and published values are all unchanged and the error names the first reason.
\<close>

theorem transition_fail_closed:
  "(case controller_transition ev c of
      (c', Inr snap) \<Rightarrow>
        \<not> ctl_poisoned c \<and> transition_target (state_of c) ev = Some (snap_state snap) \<and>
        unat (snap_revision snap) = revision_of c + 1 \<and> ctl_snapshot c' = snap
    | (c', Inl Poisoned) \<Rightarrow> c' = c \<and> ctl_poisoned c
    | (c', Inl (InvalidTransition s e)) \<Rightarrow>
        c' = c \<and> \<not> ctl_poisoned c \<and> s = state_of c \<and> e = ev \<and> transition_target s e = None
    | (c', Inl RevisionExhausted) \<Rightarrow>
        c' = c \<and> \<not> ctl_poisoned c \<and> transition_target (state_of c) ev \<noteq> None \<and>
        revision_of c = 2 ^ 64 - 1
    | (c', Inl InvalidAuditCapacity) \<Rightarrow> False)"
proof (cases "accepts c ev")
  case True
  then show ?thesis
    using revision_step [of c ev]
    by (auto simp: controller_transition_accepted controller_step_accepted accepts_def record_for_def)
next
  case False
  have "revision_of c < 2 ^ 64" by (rule unat_u64_less)
  with False show ?thesis
    by (auto simp: controller_transition_rejected rejection_def accepts_def)
qed

text \<open>
  \<open>Stopped\<close> is terminal: no sequence of events, from however many clones, changes
  anything about a stopped controller.
\<close>

theorem stopped_is_absorbing: "state_of c = Stopped \<Longrightarrow> controller_run c evs = c"
  by (induction evs) (simp_all add: accepts_def)

theorem stopped_is_absorbing_witness:
  "let c = controller_run (fresh_controller 3) [Stop] in
   ctl_audit c \<noteq> [] \<and> controller_run c [Start, Recover] = c"
proof -
  let ?c = "controller_run (fresh_controller 3) [Stop]"
  have "accepts (fresh_controller 3) Stop" by (simp add: accepts_def)
  then have "state_of ?c = Stopped" and "ctl_audit ?c \<noteq> []"
    by (simp_all add: state_step controller_step_accepted push_audit_def record_for_def)
  with stopped_is_absorbing [of ?c "[Start, Recover]"] show ?thesis by (simp only: Let_def) simp
qed

lemma linked_never_created:
  "linked s rs t \<Longrightarrow> snap_state s \<noteq> Created \<Longrightarrow> r \<in> set rs \<Longrightarrow> rec_from r \<noteq> Created"
proof (induction rs arbitrary: s)
  case (Cons q rs)
  then have "rec_to q \<noteq> Created"
    by (auto elim!: transition_target_SomeE)
  with Cons.IH [of "snapshot_after q"] Cons.prems show ?case by auto
qed simp

lemma linked_after_stop: "linked s rs t \<Longrightarrow> snap_state s = Stopped \<Longrightarrow> rs = []"
  by (cases rs) auto

lemma start_from_created: "transition_target s Start = Some t \<longleftrightarrow> s = Created \<and> t = Starting"
  by (cases s) auto

lemma stop_target: "transition_target s Stop = Some t \<Longrightarrow> t = Stopped"
  by (cases s) auto

lemma linked_start_once:
  "linked s rs t \<Longrightarrow> length (filter (\<lambda>r. rec_event r = Start) rs) \<le> 1"
proof (induction rs arbitrary: s)
  case (Cons r rs)
  show ?case
  proof (cases "rec_event r = Start")
    case True
    with Cons.prems have "snap_state (snapshot_after r) \<noteq> Created"
      by (auto simp: start_from_created)
    moreover have l: "linked (snapshot_after r) rs t" using Cons.prems by simp
    ultimately have "\<forall>q \<in> set rs. rec_from q \<noteq> Created" using linked_never_created by blast
    moreover have "\<forall>q \<in> set rs. transition_target (rec_from q) (rec_event q) = Some (rec_to q)"
      using l by (induction rs arbitrary: r) auto
    ultimately have "\<forall>q \<in> set rs. rec_event q \<noteq> Start"
      by (metis start_from_created)
    with True show ?thesis by (simp add: filter_False)
  next
    case False
    with Cons show ?thesis by auto
  qed
qed simp

lemma linked_stop_once:
  "linked s rs t \<Longrightarrow> length (filter (\<lambda>r. rec_event r = Stop) rs) \<le> 1"
proof (induction rs arbitrary: s)
  case (Cons r rs)
  show ?case
  proof (cases "rec_event r = Stop")
    case True
    with Cons.prems have "snap_state (snapshot_after r) = Stopped" by (auto dest: stop_target)
    then have "rs = []" using linked_after_stop [of "snapshot_after r" rs t] Cons.prems by simp
    then show ?thesis by simp
  next
    case False
    with Cons show ?thesis by auto
  qed
qed simp

text \<open>
  Concurrent duplicates are linearised once: in any interleaving of any number of
  clones, at most one \<open>start\<close> and at most one \<open>stop\<close> of a controller succeeds.
\<close>

theorem start_and_stop_happen_once:
  assumes "controller_new cap = Inr c"
  shows "length (filter (\<lambda>r. rec_event r = Start) (controller_log c evs)) \<le> 1 \<and>
         length (filter (\<lambda>r. rec_event r = Stop) (controller_log c evs)) \<le> 1"
proof -
  have "linked INITIAL (controller_log c evs) (ctl_snapshot (controller_run c evs))"
    using traced_new_run [OF assms, of evs] by (simp add: traced_def)
  then show ?thesis using linked_start_once linked_stop_once by blast
qed

theorem start_and_stop_happen_once_witness:
  "length (filter (\<lambda>r. rec_event r = Start) (controller_log (fresh_controller 8) [Start, Start])) \<le> 1 \<and>
   length (filter (\<lambda>r. rec_event r = Stop) (controller_log (fresh_controller 8) [Start, Start])) \<le> 1"
  by (rule start_and_stop_happen_once [where cap = 8]) (simp add: controller_new_eq)

text \<open>
  Shutdown is always possible: from every state of a healthy controller with two
  revisions left, \<open>drain\<close> followed by \<open>stop\<close> ends in \<open>Stopped\<close>.
\<close>

theorem drain_then_stop_terminates:
  assumes "\<not> ctl_poisoned c" and "revision_of c + 2 < 2 ^ 64"
  shows "state_of (controller_run c [Drain, Stop]) = Stopped"
proof -
  have acc: "accepts d ev \<longleftrightarrow> transition_target (state_of d) ev \<noteq> None"
    if "\<not> ctl_poisoned d" "revision_of d + 1 < 2 ^ 64" for d ev
    using that by (simp add: accepts_def)
  let ?d = "controller_step c Drain"
  have d: "\<not> ctl_poisoned ?d" "revision_of ?d + 1 < 2 ^ 64"
    using assms by (auto simp: revision_step)
  have s: "state_of ?d = (case transition_target (state_of c) Drain of None \<Rightarrow> state_of c | Some t \<Rightarrow> t)"
    using assms by (auto simp: state_step acc [of c] split: option.splits)
  show ?thesis
    using acc [OF assms(1)] assms(2)
    by (cases "state_of c") (simp_all add: state_step acc [OF d] s)
qed

theorem drain_then_stop_terminates_witness:
  "state_of (controller_run (fresh_controller 4) [Drain, Stop]) = Stopped"
  by (rule drain_then_stop_terminates) simp_all

end
