(* ===== verification/Lifecycle_Graph.thy ===== *)
theory Lifecycle_Graph
  imports Lifecycle_Laws
begin

text \<open>
  Correctness of the exhaustive self-check of \<open>src/state_machine.rs\<close> (\<open>reachable_closure\<close>,
  \<open>validate_model\<close>) against reachability in the transition relation, and what a caller of
  \<open>wait_for\<close> learns from its result.
\<close>

section \<open>Reachability\<close>

definition lifecycle_edges :: "(lifecycle_state \<times> lifecycle_state) set" where
  "lifecycle_edges = {(s, t). \<exists>ev. transition_target s ev = Some t}"

lemma edges_code: "(s, t) \<in> lifecycle_edges \<longleftrightarrow> list_ex (\<lambda>ev. transition_target s ev = Some t) ALL_EVENTS"
  by (auto simp: lifecycle_edges_def list_ex_iff)

lemma set_successors [simp]: "set (successors s) = {t. (s, t) \<in> lifecycle_edges}"
  by (simp add: successors_def edges_code set_map_filter list_ex_iff)

lemma expand_eq_closed:
  fixes R :: "lifecycle_state set"
  assumes "card (R \<union> (\<Union>s \<in> R. set (successors s))) = card R"
  shows "R \<union> (\<Union>s \<in> R. set (successors s)) = R"
  by (rule card_subset_eq [symmetric]) (use assms in auto)

text \<open>
  The recursion of \<open>reachable_closure\<close> computes reachability: from any set of states it
  returns exactly the states reachable from it by declared transitions.
\<close>

theorem reachable_closure_correct: "reachable_closure R = lifecycle_edges\<^sup>* `` R"
proof (induction R rule: reachable_closure.induct)
  case (1 R)
  let ?E = "R \<union> (\<Union>s \<in> R. set (successors s))"
  show ?case
  proof (cases "card ?E = card R")
    case True
    then have closed: "?E = R" by (rule expand_eq_closed)
    have "t \<in> R" if "(s, t) \<in> lifecycle_edges\<^sup>*" "s \<in> R" for s t
      using that
    proof (induction rule: rtrancl_induct)
      case (step y z)
      then have "z \<in> ?E" by auto
      with closed show ?case by simp
    qed
    then have "lifecycle_edges\<^sup>* `` R = R" by auto
    with True closed show ?thesis by (subst reachable_closure.simps) (simp only: Let_def if_True)
  next
    case False
    have "lifecycle_edges\<^sup>* `` ?E = lifecycle_edges\<^sup>* `` R"
    proof
      show "lifecycle_edges\<^sup>* `` ?E \<subseteq> lifecycle_edges\<^sup>* `` R"
        by (auto intro: converse_rtrancl_into_rtrancl)
    qed auto
    with "1.IH" [OF refl False] False show ?thesis
      by (subst reachable_closure.simps) (simp only: Let_def if_False)
  qed
qed

lemma edges_from_created:
  "(Created, Starting) \<in> lifecycle_edges" "(Starting, Ready) \<in> lifecycle_edges"
  "(Ready, Degraded) \<in> lifecycle_edges" "(Starting, Draining) \<in> lifecycle_edges"
  "(Draining, Stopped) \<in> lifecycle_edges"
  by (simp_all add: edges_code ALL_EVENTS_def)

lemma all_reachable_from_created: "(Created, s) \<in> lifecycle_edges\<^sup>*"
  using edges_from_created
  by (cases s) (meson converse_rtrancl_into_rtrancl rtrancl.rtrancl_refl)+

lemma reachable_closure_created [simp]: "reachable_closure {Created} = UNIV"
  by (auto simp: reachable_closure_correct all_reachable_from_created)

text \<open>
  The exhaustive self-check of the shipped transition relation passes: every target is
  declared, the terminal state has no edge, every declared state is reachable, no other
  state is a dead end, and there are exactly ten edges.
\<close>

theorem validate_model_succeeds:
  "validate_model = Inr \<lparr>report_reachable_states = set ALL_STATES, report_transition_count = 10\<rparr>"
proof -
  have "concat (map (\<lambda>s. map (Pair s) (successors s)) ALL_STATES) =
    [(Created, Starting), (Created, Stopped), (Starting, Ready), (Starting, Draining),
     (Starting, Stopped), (Ready, Degraded), (Ready, Draining), (Degraded, Ready),
     (Degraded, Draining), (Draining, Stopped)]" (is "_ = ?T")
    by (simp add: ALL_STATES_def ALL_EVENTS_def successors_def map_filter_def)
  moreover have "try_fold (check_edge (set ALL_STATES)) () ?T = Inr ()"
    by (simp add: check_edge_def)
  moreover have "try_fold check_live ()
      (filter (\<lambda>s. \<not> is_terminal s) (filter (\<lambda>s. s \<in> UNIV) ALL_STATES)) = Inr ()"
    by (simp add: check_live_def ALL_STATES_def ALL_EVENTS_def)
  ultimately show ?thesis
    by (simp add: validate_model_def Let_def flip: UNIV_lifecycle_state)
qed

section \<open>Waiting\<close>

text \<open>
  What the documentation of the watch channel promises about a receiver: each value it
  borrows is one of the values sent, and it never goes back to an earlier one. Values may be
  skipped.
\<close>

fun observes_from :: "nat \<Rightarrow> 'a list \<Rightarrow> 'a list \<Rightarrow> bool" where
  "observes_from i sent [] = True"
| "observes_from i sent (x # xs) =
     list_ex (\<lambda>j. sent ! j = x \<and> observes_from j sent xs) [i ..< length sent]"

lemma observes_from_member: "observes_from i sent xs \<Longrightarrow> x \<in> set xs \<Longrightarrow> x \<in> set sent"
  by (induction xs arbitrary: i) (auto simp: list_ex_iff)

lemma wait_for_Ok:
  "wait_for target obs = Some (Inr snap) \<Longrightarrow>
     snap_state snap = target \<and> snap \<in> set (map fst obs) \<and>
     (\<exists>us sel vs. obs = us @ (snap, sel) # vs \<and>
        (\<forall>(s, q) \<in> set us. snap_state s \<noteq> target \<and> q = Changed))"
proof (induction target obs rule: wait_for.induct)
  case (2 target current sel rest)
  show ?case
  proof (cases "snap_state current = target")
    case True
    with "2.prems" have s: "snap = current" by simp
    have "\<exists>us q vs. (current, sel) # rest = us @ (snap, q) # vs \<and>
        (\<forall>(s, q) \<in> set us. snap_state s \<noteq> target \<and> q = Changed)"
      using s by (intro exI [of _ "[]"]) simp
    with True s show ?thesis by simp
  next
    case False
    with "2.prems" have c: "sel = Changed" "wait_for target rest = Some (Inr snap)"
      by (auto split: wait_select.splits)
    from "2.IH" [OF False c] obtain us q vs where
      u: "snap_state snap = target" "snap \<in> set (map fst rest)" "rest = us @ (snap, q) # vs"
        "\<forall>(s, q) \<in> set us. snap_state s \<noteq> target \<and> q = Changed"
      by blast
    then have "(current, sel) # rest = ((current, sel) # us) @ (snap, q) # vs"
      "\<forall>(s, q) \<in> set ((current, sel) # us). snap_state s \<noteq> target \<and> q = Changed"
      using False c by auto
    then have "\<exists>us q vs. (current, sel) # rest = us @ (snap, q) # vs \<and>
        (\<forall>(s, q) \<in> set us. snap_state s \<noteq> target \<and> q = Changed)"
      by blast
    with u show ?thesis by simp
  qed
qed simp

lemma published_prefix:
  assumes "traced c L" and "snap \<in> set (ctl_published (controller_run c evs))"
    and "snap \<notin> set (ctl_published c)"
  shows "\<exists>us vs. evs = us @ vs \<and> ctl_snapshot (controller_run c us) = snap"
  using assms
proof (induction evs arbitrary: c L)
  case (Cons ev evs)
  let ?d = "controller_step c ev"
  show ?case
  proof (cases "snap \<in> set (ctl_published ?d)")
    case True
    with Cons.prems(3) have "ctl_snapshot ?d = snap"
      by (cases "accepts c ev") (auto simp: controller_step_accepted)
    then have "ev # evs = [ev] @ evs \<and> ctl_snapshot (controller_run c [ev]) = snap" by simp
    then show ?thesis by blast
  next
    case False
    from traced_step [OF Cons.prems(1)] Cons.prems(2) False obtain us vs where
      "evs = us @ vs \<and> ctl_snapshot (controller_run ?d us) = snap"
      using Cons.IH [of ?d] by fastforce
    then have "ev # evs = (ev # us) @ vs \<and> ctl_snapshot (controller_run c (ev # us)) = snap" by simp
    then show ?thesis by blast
  qed
qed simp

text \<open>
  A successful wait is truthful: if what the waiter saw is a faithful, possibly
  coalesced reading of the published snapshots and \<open>wait_for\<close> returns a snapshot, then its
  state is the requested one, it is the first such snapshot the waiter saw, and the
  controller really was in that snapshot after some prefix of the events.
\<close>

theorem wait_for_reports_a_real_snapshot:
  assumes "controller_new cap = Inr c"
    and "observes_from 0 (ctl_published (controller_run c evs)) (map fst obs)"
    and "wait_for target obs = Some (Inr snap)"
  shows "snap_state snap = target \<and>
     (\<exists>seen sel rest. obs = seen @ (snap, sel) # rest \<and> (\<forall>(s, q) \<in> set seen. snap_state s \<noteq> target)) \<and>
     (\<exists>us vs. evs = us @ vs \<and> ctl_snapshot (controller_run c us) = snap)"
proof -
  note w = wait_for_Ok [OF assms(3)]
  then have "snap \<in> set (ctl_published (controller_run c evs))"
    using observes_from_member [OF assms(2)] by blast
  moreover have t: "traced c []" using traced_new [OF assms(1)] by simp
  ultimately have "\<exists>us vs. evs = us @ vs \<and> ctl_snapshot (controller_run c us) = snap"
  proof (cases "snap \<in> set (ctl_published c)")
    case True
    then have "evs = [] @ evs \<and> ctl_snapshot (controller_run c []) = snap"
      using t by (simp add: traced_def)
    then show ?thesis by blast
  next
    case False
    show ?thesis
      using t \<open>snap \<in> set (ctl_published (controller_run c evs))\<close> False by (rule published_prefix)
  qed
  moreover have "\<exists>seen sel rest. obs = seen @ (snap, sel) # rest \<and>
      (\<forall>(s, q) \<in> set seen. snap_state s \<noteq> target)"
    using w by (fast dest: bspec)
  ultimately show ?thesis using w by blast
qed

theorem wait_for_reports_a_real_snapshot_witness:
  "let snap = \<lparr>snap_state = Starting, snap_revision = 1\<rparr> in
     snap_state snap = Starting \<and>
     (\<exists>seen sel rest. [(INITIAL, Changed), (snap, CancelFired)] = seen @ (snap, sel) # rest \<and>
        (\<forall>(s, q) \<in> set seen. snap_state s \<noteq> Starting)) \<and>
     (\<exists>us vs. [Start] = us @ vs \<and> ctl_snapshot (controller_run (fresh_controller 8) us) = snap)"
proof -
  let ?snap = "\<lparr>snap_state = Starting, snap_revision = 1\<rparr>"
  have a: "accepts (fresh_controller 8) Start" by (simp add: accepts_def)
  then have p: "ctl_published (controller_run (fresh_controller 8) [Start]) = [INITIAL, ?snap]"
    by (simp add: controller_step_accepted record_for_def snapshot_after_def fresh_controller_def)
  show ?thesis unfolding Let_def
  proof (rule wait_for_reports_a_real_snapshot [where cap = 8 and evs = "[Start]"])
    show "controller_new 8 = Inr (fresh_controller 8)" by (simp add: controller_new_eq)
    show "observes_from 0 (ctl_published (controller_run (fresh_controller 8) [Start]))
        (map fst [(INITIAL, Changed), (?snap, CancelFired)])"
      unfolding p by (simp add: upt_rec numeral_2_eq_2)
    show "wait_for Starting [(INITIAL, Changed), (?snap, CancelFired)] = Some (Inr ?snap)"
      by simp
  qed
qed

end
