(* ===== verification/Automata.thy ===== *)
theory Automata
  imports Main
begin

text \<open>
  Labelled automata: executions with their observable traces, and forward simulation. A step
  carries \<open>Some l\<close> when the label is observable and \<open>None\<close> when it is internal. A simulation
  relates each concrete state to an abstract one so that each concrete step is answered by at
  most one abstract step with the same label, an internal one possibly by none; then each
  concrete trace is an abstract trace.
\<close>

inductive executes :: "('s \<Rightarrow> 'l option \<Rightarrow> 's \<Rightarrow> bool) \<Rightarrow> 's \<Rightarrow> 'l list \<Rightarrow> 's \<Rightarrow> bool" for step where
  refl: "executes step s [] s"
| silent: "executes step s ls t \<Longrightarrow> step t None u \<Longrightarrow> executes step s ls u"
| visible: "executes step s ls t \<Longrightarrow> step t (Some l) u \<Longrightarrow> executes step s (ls @ [l]) u"

lemma executes_trans: "executes step t ms u \<Longrightarrow> executes step s ls t \<Longrightarrow> executes step s (ls @ ms) u"
proof (induction rule: executes.induct)
  case (visible s' ls' t' l u')
  then show ?case by (metis append_assoc executes.visible)
qed (auto intro: executes.silent)

lemma executes_invariant:
  assumes "executes step s ls t" and "P s" and "list_all L ls"
    and "\<And>u l v. P u \<Longrightarrow> step u l v \<Longrightarrow> pred_option L l \<Longrightarrow> P v"
  shows "P t"
  using assms(1-3)
proof (induction rule: executes.induct)
  case (silent s ls t u)
  then show ?case using assms(4) [of t None u] by simp
next
  case (visible s ls t l u)
  then show ?case using assms(4) [of t "Some l" u] by simp
qed

lemma executes_split:
  "executes step s (ls @ ms) u \<Longrightarrow> \<exists>t. executes step s ls t \<and> executes step t ms u"
proof (induction s "ls @ ms" u arbitrary: ms rule: executes.induct)
  case (refl s)
  then show ?case by (auto intro: executes.refl)
next
  case (silent s t u)
  then show ?case by (meson executes.silent)
next
  case (visible s ls' t l u)
  show ?case
  proof (cases ms rule: rev_cases)
    case Nil
    with visible have "executes step s ls u" by (metis append_Nil2 executes.visible)
    with Nil show ?thesis by (auto intro: executes.refl)
  next
    case (snoc ms' m)
    with visible.hyps have "ls' = ls @ ms'" "l = m" by auto
    with visible snoc show ?thesis by (metis executes.visible)
  qed
qed

lemma executes_single:
  "executes step s [l] u \<Longrightarrow> \<exists>t t'. executes step s [] t \<and> step t (Some l) t' \<and> executes step t' [] u"
proof (induction s "[l]" u rule: executes.induct)
  case (silent s t u)
  then show ?case by (meson executes.silent)
next
  case (visible s ls t l' u)
  then show ?case by (auto intro: executes.refl)
qed

lemma executes_at:
  assumes "executes step s (ls @ l # ms) u"
  shows "\<exists>t t'. executes step s ls t \<and> step t (Some l) t' \<and> executes step t' ms u"
proof -
  obtain a where a: "executes step s ls a" "executes step a (l # ms) u"
    using executes_split [OF assms] by blast
  obtain b where b: "executes step a [l] b" "executes step b ms u"
    using executes_split [of step a "[l]" ms u] a(2) by auto
  obtain t t' where t: "executes step a [] t" "step t (Some l) t'" "executes step t' [] b"
    using executes_single [OF b(1)] by blast
  have "executes step s ls t" using executes_trans [OF t(1) a(1)] by simp
  moreover have "executes step t' ms u" using executes_trans [OF b(2) t(3)] by simp
  ultimately show ?thesis using t(2) by blast
qed

text \<open>An execution with all of its steps, of which \<open>observed\<close> keeps the observable ones.\<close>

primrec trail :: "('s \<Rightarrow> 'l option \<Rightarrow> 's \<Rightarrow> bool) \<Rightarrow> 's \<Rightarrow> 'l option list \<Rightarrow> 's \<Rightarrow> bool" where
  "trail step s [] t = (t = s)"
| "trail step s (l # ls) t = (\<exists>u. step s l u \<and> trail step u ls t)"

definition observed :: "'l option list \<Rightarrow> 'l list" where
  "observed ls = List.map_filter (\<lambda>l. l) ls"

lemma observed_Nil [simp]: "observed [] = []"
  by (simp add: observed_def map_filter_simps)

lemma observed_Cons: "observed (l # ls) = (case l of None \<Rightarrow> observed ls | Some x \<Rightarrow> x # observed ls)"
  by (simp add: observed_def map_filter_simps split: option.splits)

lemma observed_append: "observed (ls @ ms) = observed ls @ observed ms"
  by (induction ls) (auto simp: observed_Cons split: option.splits)

lemma observed_set: "x \<in> set (observed ls) \<longleftrightarrow> Some x \<in> set ls"
  by (induction ls) (auto simp: observed_Cons split: option.splits)

lemma observed_silent: "observed (replicate n None) = []"
  by (induction n) (simp_all add: observed_Cons)

lemma trail_append: "trail step s (ls @ ms) u \<longleftrightarrow> (\<exists>t. trail step s ls t \<and> trail step t ms u)"
  by (induction ls arbitrary: s) auto

locale forward_simulation =
  fixes conc :: "'c \<Rightarrow> 'l option \<Rightarrow> 'c \<Rightarrow> bool"
    and abst :: "'a \<Rightarrow> 'l option \<Rightarrow> 'a \<Rightarrow> bool"
    and related :: "'c \<Rightarrow> 'a \<Rightarrow> bool"
  assumes simulates: "related s a \<Longrightarrow> conc s l s' \<Longrightarrow>
      (l = None \<and> related s' a) \<or> (\<exists>a'. abst a l a' \<and> related s' a')"
begin

lemma traces_included:
  "executes conc s ls s' \<Longrightarrow> related s a \<Longrightarrow> \<exists>a'. executes abst a ls a' \<and> related s' a'"
proof (induction rule: executes.induct)
  case (silent s ls t u)
  then show ?case by (meson executes.silent simulates)
next
  case (visible s ls t l u)
  then show ?case by (metis executes.visible option.distinct(1) simulates)
qed (auto intro: executes.refl)

end

end
