(* ===== verification/Lifecycle_Threads.thy ===== *)
theory Lifecycle_Threads
  imports Lifecycle_Laws Automata
begin

text \<open>
  The controller as threads run it. In \<open>Lifecycle\<close> each operation is one step; in the code it is
  a sequence of reads and writes inside a critical section of a \<open>std::sync::Mutex\<close>, and the
  watch channel is read without that lock. Here every access is a step of its own, threads
  interleave freely, and a thread that holds the lock may panic, which poisons it. The atomic
  operations of \<open>Lifecycle\<close> are the specification: every trace of calls and answers that the
  threads can produce is one that atomic operations produce.
\<close>

section \<open>Calls\<close>

text \<open>\<open>CallBorrow\<close> is a read of a receiver that \<open>subscribe\<close> gave.\<close>

datatype call = CallTransition lifecycle_event | CallSnapshot | CallAudit | CallBoth | CallBorrow

datatype answer =
    AnsTransition "transition_error + lifecycle_snapshot"
  | AnsSnapshot "transition_error + lifecycle_snapshot"
  | AnsAudit "transition_error + transition_record list"
  | AnsBoth "transition_error + lifecycle_snapshot \<times> transition_record list"
  | AnsBorrow lifecycle_snapshot

text \<open>
  What a receiver shows is a function of the values sent so far, a parameter; tokio documents
  that it is the last one.
\<close>

type_synonym watch_view = "lifecycle_snapshot list \<Rightarrow> lifecycle_snapshot"

fun atomic_call :: "watch_view \<Rightarrow> call \<Rightarrow> controller \<Rightarrow> controller \<times> answer" where
  "atomic_call view (CallTransition ev) c =
     (case controller_transition ev c of (c', r) \<Rightarrow> (c', AnsTransition r))"
| "atomic_call view CallSnapshot c = (c, AnsSnapshot (controller_snapshot c))"
| "atomic_call view CallAudit c = (c, AnsAudit (controller_audit c))"
| "atomic_call view CallBoth c = (c, AnsBoth (controller_snapshot_and_audit c))"
| "atomic_call view CallBorrow c = (c, AnsBorrow (view (ctl_published c)))"

fun poisoned_answer :: "call \<Rightarrow> watch_view \<Rightarrow> controller \<Rightarrow> answer" where
  "poisoned_answer (CallTransition ev) view c = AnsTransition (Inl Poisoned)"
| "poisoned_answer CallSnapshot view c = AnsSnapshot (Inl Poisoned)"
| "poisoned_answer CallAudit view c = AnsAudit (Inl Poisoned)"
| "poisoned_answer CallBoth view c = AnsBoth (Inl Poisoned)"
| "poisoned_answer CallBorrow view c = AnsBorrow (view (ctl_published c))"

datatype label = Invoke nat call | Reply nat answer | Panics nat

section \<open>Threads\<close>

text \<open>Where a thread stands. The long row is \<open>transition\<close>, statement by statement.\<close>

datatype thread_pc =
    Idle
  | Called call
  | Holding call
  | ReadOne lifecycle_snapshot
  | Checked lifecycle_event lifecycle_state lifecycle_state u64
  | Stored lifecycle_event lifecycle_state lifecycle_state u64
  | Evicted lifecycle_event lifecycle_state lifecycle_state u64
  | Recorded lifecycle_event lifecycle_state lifecycle_state u64
  | Sent lifecycle_snapshot
  | Answered answer
  | Dead

record threads =
  th_ctl :: controller
  th_owner :: "nat option"
  th_pc :: "nat \<Rightarrow> thread_pc"

definition at_pc :: "threads \<Rightarrow> nat \<Rightarrow> thread_pc \<Rightarrow> threads" where
  "at_pc s t pc = s\<lparr>th_pc := (th_pc s)(t := pc)\<rparr>"

text \<open>Dropping the guard and returning.\<close>

definition unlock_with :: "threads \<Rightarrow> nat \<Rightarrow> answer \<Rightarrow> threads" where
  "unlock_with s t a = s\<lparr>th_owner := None, th_pc := (th_pc s)(t := Answered a)\<rparr>"

abbreviation snap_of :: "lifecycle_state \<Rightarrow> u64 \<Rightarrow> lifecycle_snapshot" where
  "snap_of st n \<equiv> \<lparr>snap_state = st, snap_revision = n\<rparr>"

inductive thread_step :: "watch_view \<Rightarrow> threads \<Rightarrow> label option \<Rightarrow> threads \<Rightarrow> bool" for view where
  invoke: "th_pc s t = Idle \<Longrightarrow> thread_step view s (Some (Invoke t c)) (at_pc s t (Called c))"
| borrow: "th_pc s t = Called CallBorrow \<Longrightarrow>
    thread_step view s None (at_pc s t (Answered (AnsBorrow (view (ctl_published (th_ctl s))))))"
| lock: "th_pc s t = Called c \<Longrightarrow> c \<noteq> CallBorrow \<Longrightarrow> th_owner s = None \<Longrightarrow>
    \<not> ctl_poisoned (th_ctl s) \<Longrightarrow>
    thread_step view s None (at_pc (s\<lparr>th_owner := Some t\<rparr>) t (Holding c))"
| lock_poisoned: "th_pc s t = Called c \<Longrightarrow> c \<noteq> CallBorrow \<Longrightarrow> th_owner s = None \<Longrightarrow>
    ctl_poisoned (th_ctl s) \<Longrightarrow>
    thread_step view s None (at_pc s t (Answered (poisoned_answer c view (th_ctl s))))"
| snapshot: "th_pc s t = Holding CallSnapshot \<Longrightarrow>
    thread_step view s None (unlock_with s t (AnsSnapshot (Inr (ctl_snapshot (th_ctl s)))))"
| audit: "th_pc s t = Holding CallAudit \<Longrightarrow>
    thread_step view s None (unlock_with s t (AnsAudit (Inr (ctl_audit (th_ctl s)))))"
| both_snapshot: "th_pc s t = Holding CallBoth \<Longrightarrow>
    thread_step view s None (at_pc s t (ReadOne (ctl_snapshot (th_ctl s))))"
| both_audit: "th_pc s t = ReadOne snap \<Longrightarrow>
    thread_step view s None (unlock_with s t (AnsBoth (Inr (snap, ctl_audit (th_ctl s)))))"
| invalid: "th_pc s t = Holding (CallTransition ev) \<Longrightarrow> frm = state_of (th_ctl s) \<Longrightarrow>
    transition_target frm ev = None \<Longrightarrow>
    thread_step view s None (unlock_with s t (AnsTransition (Inl (InvalidTransition frm ev))))"
| exhausted: "th_pc s t = Holding (CallTransition ev) \<Longrightarrow>
    transition_target (state_of (th_ctl s)) ev = Some target \<Longrightarrow>
    checked_add_u64 (snap_revision (ctl_snapshot (th_ctl s))) 1 = None \<Longrightarrow>
    thread_step view s None (unlock_with s t (AnsTransition (Inl RevisionExhausted)))"
| check: "th_pc s t = Holding (CallTransition ev) \<Longrightarrow> frm = state_of (th_ctl s) \<Longrightarrow>
    transition_target frm ev = Some target \<Longrightarrow>
    checked_add_u64 (snap_revision (ctl_snapshot (th_ctl s))) 1 = Some revision \<Longrightarrow>
    thread_step view s None (at_pc s t (Checked ev frm target revision))"
| store: "th_pc s t = Checked ev frm target revision \<Longrightarrow>
    thread_step view s None
      (at_pc (s\<lparr>th_ctl := th_ctl s\<lparr>ctl_snapshot := snap_of target revision\<rparr>\<rparr>) t
        (Stored ev frm target revision))"
| evict: "th_pc s t = Stored ev frm target revision \<Longrightarrow>
    thread_step view s None
      (at_pc (s\<lparr>th_ctl := th_ctl s\<lparr>ctl_audit :=
          (if length (ctl_audit (th_ctl s)) = ctl_audit_capacity (th_ctl s)
           then tl (ctl_audit (th_ctl s)) else ctl_audit (th_ctl s))\<rparr>\<rparr>) t
        (Evicted ev frm target revision))"
| record_it: "th_pc s t = Evicted ev frm target revision \<Longrightarrow>
    thread_step view s None
      (at_pc (s\<lparr>th_ctl := th_ctl s\<lparr>ctl_audit := ctl_audit (th_ctl s) @
          [\<lparr>rec_revision = revision, rec_from = frm, rec_event = ev, rec_to = target\<rparr>]\<rparr>\<rparr>) t
        (Recorded ev frm target revision))"
| send: "th_pc s t = Recorded ev frm target revision \<Longrightarrow>
    thread_step view s None
      (at_pc (s\<lparr>th_ctl := th_ctl s\<lparr>ctl_published :=
          ctl_published (th_ctl s) @ [snap_of target revision]\<rparr>\<rparr>) t
        (Sent (snap_of target revision)))"
| release: "th_pc s t = Sent snap \<Longrightarrow>
    thread_step view s None (unlock_with s t (AnsTransition (Inr snap)))"
| reply: "th_pc s t = Answered a \<Longrightarrow> thread_step view s (Some (Reply t a)) (at_pc s t Idle)"
| panics: "th_owner s = Some t \<Longrightarrow>
    thread_step view s (Some (Panics t))
      (at_pc (s\<lparr>th_ctl := th_ctl s\<lparr>ctl_poisoned := True\<rparr>, th_owner := None\<rparr>) t Dead)"

definition threads_new :: "controller \<Rightarrow> threads" where
  "threads_new c = \<lparr>th_ctl = c, th_owner = None, th_pc = (\<lambda>_. Idle)\<rparr>"

section \<open>The atomic specification\<close>

datatype atomic_pc = AIdle | ACalled call | AAnswered answer | ADead

record atomic =
  am_ctl :: controller
  am_pc :: "nat \<Rightarrow> atomic_pc"

inductive atomic_step :: "watch_view \<Rightarrow> atomic \<Rightarrow> label option \<Rightarrow> atomic \<Rightarrow> bool" for view where
  a_invoke: "am_pc a t = AIdle \<Longrightarrow>
    atomic_step view a (Some (Invoke t c)) (a\<lparr>am_pc := (am_pc a)(t := ACalled c)\<rparr>)"
| a_commit: "am_pc a t = ACalled c \<Longrightarrow> atomic_call view c (am_ctl a) = (d, r) \<Longrightarrow>
    atomic_step view a None \<lparr>am_ctl = d, am_pc = (am_pc a)(t := AAnswered r)\<rparr>"
| a_reply: "am_pc a t = AAnswered r \<Longrightarrow>
    atomic_step view a (Some (Reply t r)) (a\<lparr>am_pc := (am_pc a)(t := AIdle)\<rparr>)"
| a_panics: "am_pc a t \<in> {ACalled c, AAnswered r} \<Longrightarrow>
    atomic_step view a (Some (Panics t))
      \<lparr>am_ctl = (am_ctl a)\<lparr>ctl_poisoned := True\<rparr>, am_pc = (am_pc a)(t := ADead)\<rparr>"

definition atomic_new :: "controller \<Rightarrow> atomic" where
  "atomic_new c = \<lparr>am_ctl = c, am_pc = (\<lambda>_. AIdle)\<rparr>"

section \<open>The simulation\<close>

fun abs_pc :: "thread_pc \<Rightarrow> atomic_pc" where
  "abs_pc Idle = AIdle"
| "abs_pc (Called c) = ACalled c"
| "abs_pc (Holding c) = ACalled c"
| "abs_pc (ReadOne _) = ACalled CallBoth"
| "abs_pc (Checked ev _ _ _) = ACalled (CallTransition ev)"
| "abs_pc (Stored ev _ _ _) = ACalled (CallTransition ev)"
| "abs_pc (Evicted ev _ _ _) = ACalled (CallTransition ev)"
| "abs_pc (Recorded ev _ _ _) = ACalled (CallTransition ev)"
| "abs_pc (Sent snap) = AAnswered (AnsTransition (Inr snap))"
| "abs_pc (Answered a) = AAnswered a"
| "abs_pc Dead = ADead"

definition in_section :: "thread_pc \<Rightarrow> bool" where
  "in_section pc \<longleftrightarrow>
     (case pc of Idle \<Rightarrow> False | Called _ \<Rightarrow> False | Answered _ \<Rightarrow> False | Dead \<Rightarrow> False | _ \<Rightarrow> True)"

text \<open>The decision a thread took stands: nobody else touches the data.\<close>

definition decided :: "controller \<Rightarrow> lifecycle_event \<Rightarrow> lifecycle_state \<Rightarrow> lifecycle_state \<Rightarrow> u64 \<Rightarrow> bool" where
  "decided d ev frm target revision \<longleftrightarrow>
     frm = state_of d \<and> transition_target frm ev = Some target \<and>
     checked_add_u64 (snap_revision (ctl_snapshot d)) 1 = Some revision"

text \<open>The data under the lock, from the last committed controller and the owner's position.\<close>

fun in_flight :: "controller \<Rightarrow> thread_pc \<Rightarrow> controller \<Rightarrow> bool" where
  "in_flight d (ReadOne snap) c \<longleftrightarrow> c = d \<and> snap = ctl_snapshot d"
| "in_flight d (Checked ev frm target revision) c \<longleftrightarrow> decided d ev frm target revision \<and> c = d"
| "in_flight d (Stored ev frm target revision) c \<longleftrightarrow>
     decided d ev frm target revision \<and> c = d\<lparr>ctl_snapshot := snap_of target revision\<rparr>"
| "in_flight d (Evicted ev frm target revision) c \<longleftrightarrow>
     decided d ev frm target revision \<and>
     c = d\<lparr>ctl_snapshot := snap_of target revision,
          ctl_audit := (if length (ctl_audit d) = ctl_audit_capacity d then tl (ctl_audit d)
            else ctl_audit d)\<rparr>"
| "in_flight d (Recorded ev frm target revision) c \<longleftrightarrow>
     decided d ev frm target revision \<and>
     c = d\<lparr>ctl_snapshot := snap_of target revision,
          ctl_audit := push_audit (ctl_audit_capacity d) (ctl_audit d)
            \<lparr>rec_revision = revision, rec_from = frm, rec_event = ev, rec_to = target\<rparr>\<rparr>"
| "in_flight d _ c \<longleftrightarrow> c = d"

definition data_agrees :: "threads \<Rightarrow> controller \<Rightarrow> bool" where
  "data_agrees s d \<longleftrightarrow>
     ctl_published (th_ctl s) = ctl_published d \<and> ctl_poisoned (th_ctl s) = ctl_poisoned d \<and>
     (case th_owner s of
        None \<Rightarrow> ctl_poisoned d \<or> th_ctl s = d
      | Some t \<Rightarrow> \<not> ctl_poisoned d \<and> in_flight d (th_pc s t) (th_ctl s))"

definition linearized :: "threads \<Rightarrow> atomic \<Rightarrow> bool" where
  "linearized s a \<longleftrightarrow>
     (\<forall>t. am_pc a t = abs_pc (th_pc s t)) \<and>
     (\<forall>t. in_section (th_pc s t) \<longleftrightarrow> th_owner s = Some t) \<and> data_agrees s (am_ctl a)"

lemma in_section_simps [simp]:
  "\<not> in_section Idle" "\<not> in_section (Called c)" "in_section (Holding c)" "in_section (ReadOne x)"
  "in_section (Checked ev frm target n)" "in_section (Stored ev frm target n)"
  "in_section (Evicted ev frm target n)" "in_section (Recorded ev frm target n)"
  "in_section (Sent x)" "\<not> in_section (Answered r)" "\<not> in_section Dead"
  by (simp_all add: in_section_def)

lemma at_pc_simps [simp]:
  "th_ctl (at_pc s t pc) = th_ctl s" "th_owner (at_pc s t pc) = th_owner s"
  "th_pc (at_pc s t pc) = (th_pc s)(t := pc)"
  "th_ctl (unlock_with s t r) = th_ctl s" "th_owner (unlock_with s t r) = None"
  "th_pc (unlock_with s t r) = (th_pc s)(t := Answered r)"
  by (simp_all add: at_pc_def unlock_with_def)

lemma linearizedD:
  assumes "linearized s a"
  shows "am_pc a t = abs_pc (th_pc s t)"
    and "in_section (th_pc s t) \<longleftrightarrow> th_owner s = Some t"
    and "ctl_published (th_ctl s) = ctl_published (am_ctl a)"
    and "ctl_poisoned (th_ctl s) = ctl_poisoned (am_ctl a)"
    and "th_owner s = Some t \<Longrightarrow> \<not> ctl_poisoned (am_ctl a) \<and> in_flight (am_ctl a) (th_pc s t) (th_ctl s)"
    and "th_owner s = None \<Longrightarrow> ctl_poisoned (am_ctl a) \<or> th_ctl s = am_ctl a"
  using assms by (auto simp: linearized_def data_agrees_def split: option.splits)

text \<open>The three ways a simulation step is answered.\<close>

lemma stays:
  assumes "linearized s a" "abs_pc pc = abs_pc (th_pc s t)" "in_section pc" "th_owner s' = Some t"
    "th_owner s \<in> {None, Some t}" "th_pc s' = (th_pc s)(t := pc)" "\<not> ctl_poisoned (am_ctl a)"
    "in_flight (am_ctl a) pc (th_ctl s')" "ctl_published (th_ctl s') = ctl_published (am_ctl a)"
    "ctl_poisoned (th_ctl s') = ctl_poisoned (am_ctl a)"
  shows "linearized s' a"
  using assms linearizedD(1,2) [OF assms(1)]
  by (auto simp: linearized_def data_agrees_def)

lemma commits:
  assumes "linearized s a" "abs_pc (th_pc s t) = ACalled c" "atomic_call view c (am_ctl a) = (d, r)"
    "th_pc s' = (th_pc s)(t := pc)" "abs_pc pc = AAnswered r"
    "\<And>u. in_section (((th_pc s)(t := pc)) u) \<longleftrightarrow> th_owner s' = Some u" "data_agrees s' d"
  shows "\<exists>a'. atomic_step view a None a' \<and> linearized s' a'"
proof -
  have "atomic_step view a None \<lparr>am_ctl = d, am_pc = (am_pc a)(t := AAnswered r)\<rparr>"
    using assms(2,3) linearizedD(1) [OF assms(1), of t] by (intro a_commit) simp_all
  moreover have "linearized s' \<lparr>am_ctl = d, am_pc = (am_pc a)(t := AAnswered r)\<rparr>"
    using assms(4-7) linearizedD(1) [OF assms(1)] by (simp add: linearized_def)
  ultimately show ?thesis by blast
qed

lemma owned:
  assumes "linearized s a" "in_section (th_pc s t)"
  shows "th_owner s = Some t" "\<not> ctl_poisoned (am_ctl a)" "in_flight (am_ctl a) (th_pc s t) (th_ctl s)"
    "\<not> ctl_poisoned (th_ctl s)" "ctl_published (th_ctl s) = ctl_published (am_ctl a)"
  using linearizedD(2,5) [OF assms(1), of t] linearizedD(3,4) [OF assms(1)] assms(2) by auto

lemma returns:
  assumes "linearized s a" "in_section (th_pc s t)" "abs_pc (th_pc s t) = ACalled c"
    "atomic_call view c (am_ctl a) = (th_ctl s, r)"
  shows "\<exists>a'. atomic_step view a None a' \<and> linearized (unlock_with s t r) a'"
proof (rule commits [OF assms(1,3,4)])
  show "in_section (((th_pc s)(t := Answered r)) u) \<longleftrightarrow> th_owner (unlock_with s t r) = Some u" for u
    using linearizedD(2) [OF assms(1), of u] owned(1) [OF assms(1,2)] by auto
qed (simp_all add: data_agrees_def)

lemmas atomic_defs = controller_transition_def lock_data_def controller_snapshot_def
  controller_audit_def controller_snapshot_and_audit_def

subsection \<open>Calls and answers\<close>

lemma simulate_invoke:
  assumes "linearized s a" "th_pc s t = Idle"
  shows "\<exists>a'. atomic_step view a (Some (Invoke t c)) a' \<and> linearized (at_pc s t (Called c)) a'"
proof (intro exI conjI)
  show "atomic_step view a (Some (Invoke t c)) (a\<lparr>am_pc := (am_pc a)(t := ACalled c)\<rparr>)"
    using assms linearizedD(1) [OF assms(1), of t] by (intro a_invoke) simp
  show "linearized (at_pc s t (Called c)) (a\<lparr>am_pc := (am_pc a)(t := ACalled c)\<rparr>)"
    using assms linearizedD(2) [OF assms(1), of t]
    by (auto simp: linearized_def data_agrees_def split: option.splits)
qed

lemma simulate_reply:
  assumes "linearized s a" "th_pc s t = Answered r"
  shows "\<exists>a'. atomic_step view a (Some (Reply t r)) a' \<and> linearized (at_pc s t Idle) a'"
proof (intro exI conjI)
  show "atomic_step view a (Some (Reply t r)) (a\<lparr>am_pc := (am_pc a)(t := AIdle)\<rparr>)"
    using assms linearizedD(1) [OF assms(1), of t] by (intro a_reply) simp
  show "linearized (at_pc s t Idle) (a\<lparr>am_pc := (am_pc a)(t := AIdle)\<rparr>)"
    using assms linearizedD(2) [OF assms(1), of t]
    by (auto simp: linearized_def data_agrees_def split: option.splits)
qed

lemma simulate_panic:
  assumes "linearized s a" "th_owner s = Some t"
  shows "\<exists>a'. atomic_step view a (Some (Panics t)) a' \<and>
    linearized (at_pc (s\<lparr>th_ctl := th_ctl s\<lparr>ctl_poisoned := True\<rparr>, th_owner := None\<rparr>) t Dead) a'"
proof (intro exI conjI)
  have "in_section (th_pc s t)" using assms linearizedD(2) by simp
  then have "\<exists>c r. am_pc a t \<in> {ACalled c, AAnswered r}"
    using linearizedD(1) [OF assms(1), of t] by (cases "th_pc s t") auto
  then show "atomic_step view a (Some (Panics t))
      \<lparr>am_ctl = (am_ctl a)\<lparr>ctl_poisoned := True\<rparr>, am_pc = (am_pc a)(t := ADead)\<rparr>"
    by (auto intro: a_panics)
  show "linearized (at_pc (s\<lparr>th_ctl := th_ctl s\<lparr>ctl_poisoned := True\<rparr>, th_owner := None\<rparr>) t Dead)
      \<lparr>am_ctl = (am_ctl a)\<lparr>ctl_poisoned := True\<rparr>, am_pc = (am_pc a)(t := ADead)\<rparr>"
    using assms linearizedD(2) [OF assms(1)] by (auto simp: linearized_def data_agrees_def)
qed

lemma simulate_borrow:
  assumes "linearized s a" "th_pc s t = Called CallBorrow"
  shows "\<exists>a'. atomic_step view a None a' \<and>
    linearized (at_pc s t (Answered (AnsBorrow (view (ctl_published (th_ctl s)))))) a'"
  by (rule commits [OF assms(1), where t = t and c = CallBorrow])
    (use assms linearizedD(2) [OF assms(1), of t] in
      \<open>auto simp: linearized_def data_agrees_def split: option.splits\<close>)

lemma simulate_poisoned:
  assumes "linearized s a" "th_pc s t = Called c" "th_owner s = None" "ctl_poisoned (th_ctl s)"
  shows "\<exists>a'. atomic_step view a None a' \<and>
    linearized (at_pc s t (Answered (poisoned_answer c view (th_ctl s)))) a'"
proof (rule commits [OF assms(1), where t = t and c = c])
  show "atomic_call view c (am_ctl a) = (am_ctl a, poisoned_answer c view (th_ctl s))"
    using assms(4) linearizedD(3,4) [OF assms(1)] by (cases c) (simp_all add: atomic_defs)
qed (use assms linearizedD(2,4) [OF assms(1)] in \<open>auto simp: linearized_def data_agrees_def\<close>)

lemma simulate_send:
  assumes "linearized s a" "th_pc s t = Recorded ev frm target revision"
  shows "\<exists>a'. atomic_step view a None a' \<and>
    linearized (at_pc (s\<lparr>th_ctl := th_ctl s\<lparr>ctl_published :=
      ctl_published (th_ctl s) @ [snap_of target revision]\<rparr>\<rparr>) t (Sent (snap_of target revision))) a'"
proof (rule commits [OF assms(1), where t = t and c = "CallTransition ev"])
  let ?d = "am_ctl a"
  have "in_section (th_pc s t)" by (simp add: assms(2))
  note o = owned [OF assms(1) this]
  from o(3) have dec: "frm = state_of ?d" "transition_target (state_of ?d) ev = Some target"
      "checked_add_u64 (snap_revision (ctl_snapshot ?d)) 1 = Some revision"
    and c: "th_ctl s = ?d\<lparr>ctl_snapshot := snap_of target revision,
      ctl_audit := push_audit (ctl_audit_capacity ?d) (ctl_audit ?d)
        \<lparr>rec_revision = revision, rec_from = frm, rec_event = ev, rec_to = target\<rparr>\<rparr>"
    by (auto simp: assms(2) decided_def)
  show "atomic_call view (CallTransition ev) ?d =
      (th_ctl s\<lparr>ctl_published := ctl_published (th_ctl s) @ [snap_of target revision]\<rparr>,
       AnsTransition (Inr (snap_of target revision)))"
    using dec o(2) by (simp add: controller_transition_def lock_data_def c Let_def)
qed (use assms linearizedD(2,4) [OF assms(1)] owned [OF assms(1), of t] in \<open>auto simp: data_agrees_def\<close>)

subsection \<open>The simulation\<close>

lemma simulate_step:
  assumes R: "linearized s a" and st: "thread_step view s l s'"
  shows "(l = None \<and> linearized s' a) \<or> (\<exists>a'. atomic_step view a l a' \<and> linearized s' a')"
  using st
proof cases
  case (lock t c)
  then show ?thesis
    using stays [OF R, of "Holding c" t s'] linearizedD(3,4,6) [OF R] by auto
next
  case (snapshot t)
  then show ?thesis
    using returns [OF R, of t CallSnapshot view] owned [OF R, of t] by (simp add: atomic_defs)
next
  case (audit t)
  then show ?thesis
    using returns [OF R, of t CallAudit view] owned [OF R, of t] by (simp add: atomic_defs)
next
  case (both_snapshot t)
  then show ?thesis
    using stays [OF R, of "ReadOne (ctl_snapshot (th_ctl s))" t s'] owned [OF R, of t] by simp
next
  case (both_audit t snap)
  then show ?thesis
    using returns [OF R, of t CallBoth view] owned [OF R, of t] by (simp add: atomic_defs)
next
  case (invalid t ev frm)
  then show ?thesis
    using returns [OF R, of t "CallTransition ev" view] owned [OF R, of t] by (simp add: atomic_defs)
next
  case (exhausted t ev target)
  then show ?thesis
    using returns [OF R, of t "CallTransition ev" view] owned [OF R, of t] by (simp add: atomic_defs)
next
  case (check t ev frm target revision)
  then show ?thesis
    using stays [OF R, of "Checked ev frm target revision" t s'] owned [OF R, of t]
    by (simp add: decided_def)
next
  case (store t ev frm target revision)
  have "linearized s' a"
    by (rule stays [OF R, where pc = "Stored ev frm target revision" and t = t])
      (use store owned [OF R, of t] in \<open>auto\<close>)
  with store show ?thesis by blast
next
  case (evict t ev frm target revision)
  have "linearized s' a"
    by (rule stays [OF R, where pc = "Evicted ev frm target revision" and t = t])
      (use evict owned [OF R, of t] in \<open>auto\<close>)
  with evict show ?thesis by blast
next
  case (record_it t ev frm target revision)
  have "linearized s' a"
    by (rule stays [OF R, where pc = "Recorded ev frm target revision" and t = t])
      (use record_it owned [OF R, of t] in \<open>auto simp: push_audit_def\<close>)
  with record_it show ?thesis by blast
next
  case (release t snap)
  then show ?thesis
    using R linearizedD(2) [OF R] owned [OF R, of t] by (auto simp: linearized_def data_agrees_def)
qed (simp_all add: simulate_invoke [OF R] simulate_reply [OF R] simulate_panic [OF R]
    simulate_borrow [OF R] simulate_poisoned [OF R] simulate_send [OF R])

lemma linearized_new: "linearized (threads_new c) (atomic_new c)"
  by (simp add: linearized_def data_agrees_def threads_new_def atomic_new_def)

interpretation threads: forward_simulation "thread_step view" "atomic_step view" linearized
  for view
  by unfold_locales (rule simulate_step)

end
