(* ===== verification/Lifecycle_Concurrency.thy ===== *)
theory Lifecycle_Concurrency
  imports Lifecycle_Threads
begin

text \<open>
  What the simulation of \<open>Lifecycle_Threads\<close> gives to users of a shared controller: every
  concurrent execution is a sequence of atomic calls, and answers respect real time.
\<close>

section \<open>What the threads are guaranteed\<close>

text \<open>The atomic controller is always the outcome of some calls, perhaps poisoned since.\<close>

definition outcome_of :: "controller \<Rightarrow> controller \<Rightarrow> bool" where
  "outcome_of c d \<longleftrightarrow>
     (\<exists>evs. d = controller_run c evs \<or> d = (controller_run c evs)\<lparr>ctl_poisoned := True\<rparr>)"

lemma outcome_of_refl: "outcome_of c c"
  unfolding outcome_of_def by (intro exI [of _ "[]"]) simp

lemma outcome_of_poisoned: "outcome_of c d \<Longrightarrow> outcome_of c (d\<lparr>ctl_poisoned := True\<rparr>)"
  by (auto simp: outcome_of_def)

lemma outcome_of_step: "outcome_of c d \<Longrightarrow> outcome_of c (controller_step d ev)"
proof -
  assume "outcome_of c d"
  then obtain evs where "d = controller_run c evs \<or> d = (controller_run c evs)\<lparr>ctl_poisoned := True\<rparr>"
    by (auto simp: outcome_of_def)
  then show "outcome_of c (controller_step d ev)"
  proof
    assume "d = controller_run c evs"
    then have "controller_step d ev = controller_run c (evs @ [ev])" by simp
    then show ?thesis unfolding outcome_of_def by blast
  next
    assume d: "d = (controller_run c evs)\<lparr>ctl_poisoned := True\<rparr>"
    then have "\<not> accepts d ev" by (simp add: accepts_def)
    with d show ?thesis by (auto simp: outcome_of_def)
  qed
qed

lemma atomic_call_outcome: "atomic_call view k d = (e, r) \<Longrightarrow> e = d \<or> (\<exists>ev. e = controller_step d ev)"
proof (cases k)
  case (CallTransition ev)
  moreover assume "atomic_call view k d = (e, r)"
  ultimately have "e = controller_step d ev" by (simp add: controller_step_def split_beta)
  then show ?thesis by blast
qed simp_all

lemma outcome_of_commit: "outcome_of c d \<Longrightarrow> atomic_call view k d = (e, r) \<Longrightarrow> outcome_of c e"
  using atomic_call_outcome outcome_of_step by metis

lemma outcome_of_threads:
  assumes "executes (atomic_step view) (atomic_new c) trace a"
  shows "outcome_of c (am_ctl a)"
proof (rule executes_invariant [OF assms, where L = "\<lambda>_. True" and P = "\<lambda>a. outcome_of c (am_ctl a)"])
  show "outcome_of c (am_ctl v)" if "outcome_of c (am_ctl u)" "atomic_step view u l v" for u l v
    using that(2) by cases (use that(1) outcome_of_commit outcome_of_poisoned in auto)
qed (simp_all add: atomic_new_def outcome_of_refl list_all_iff)

text \<open>
  C2. The lock makes the controller's operations atomic. Whatever threads call and however
  their reads and writes interleave, panics inside the critical section included, the trace of
  calls and answers is a trace of atomic operations; and whenever no thread holds the lock and
  none has poisoned it, the controller is exactly the outcome of a sequence of \<open>transition\<close>
  calls. So all that is shown of such sequences holds of concurrent threads.
\<close>

theorem threads_linearize:
  assumes "executes (thread_step view) (threads_new c) trace s"
  shows "(\<exists>a. executes (atomic_step view) (atomic_new c) trace a \<and>
            (\<forall>t. am_pc a t = abs_pc (th_pc s t))) \<and>
         (th_owner s = None \<and> \<not> ctl_poisoned (th_ctl s) \<longrightarrow> (\<exists>evs. th_ctl s = controller_run c evs))"
proof -
  obtain a where a: "executes (atomic_step view) (atomic_new c) trace a" "linearized s a"
    using threads.traces_included [OF assms linearized_new] by blast
  have "th_ctl s = am_ctl a" if "th_owner s = None" "\<not> ctl_poisoned (th_ctl s)"
    using that linearizedD(4,6) [OF a(2)] by simp
  moreover have "\<exists>evs. am_ctl a = controller_run c evs" if "\<not> ctl_poisoned (am_ctl a)"
    using outcome_of_threads [OF a(1)] that by (auto simp: outcome_of_def)
  ultimately show ?thesis using a linearizedD(1) [OF a(2)] by metis
qed

section \<open>Answers respect real time\<close>

fun seen :: "answer \<Rightarrow> lifecycle_snapshot option" where
  "seen (AnsTransition (Inr x)) = Some x"
| "seen (AnsSnapshot (Inr x)) = Some x"
| "seen (AnsBoth (Inr (x, _))) = Some x"
| "seen (AnsBorrow x) = Some x"
| "seen _ = None"

fun label_thread :: "label \<Rightarrow> nat" where
  "label_thread (Invoke t _) = t"
| "label_thread (Reply t _) = t"
| "label_thread (Panics t) = t"

definition seen_revision :: "answer \<Rightarrow> nat option" where
  "seen_revision r = map_option (\<lambda>x. unat (snap_revision x)) (seen r)"

lemma traced_published_last:
  assumes "traced c L"
  shows "last (ctl_published c) = ctl_snapshot c"
proof -
  have "linked INITIAL L (ctl_snapshot c)" "ctl_published c = INITIAL # map snapshot_after L"
    using assms by (simp_all add: traced_def)
  then show ?thesis using linked_last by (cases "L = []") (fastforce simp: last_map)+
qed

lemma outcome_published_last:
  assumes "controller_new cap = Inr c" "outcome_of c d"
  shows "last (ctl_published d) = ctl_snapshot d"
  using assms(2) traced_published_last [OF traced_new_run [OF assms(1)]] by (auto simp: outcome_of_def)

text \<open>A committed call answers with a revision between the one before and the one after it.\<close>

lemma commit_between:
  assumes "atomic_call last k d = (e, r)" "last (ctl_published d) = ctl_snapshot d"
  shows "revision_of d \<le> revision_of e \<and>
    pred_option (\<lambda>n. revision_of d \<le> n \<and> n \<le> revision_of e) (seen_revision r)"
proof (cases k)
  case (CallTransition ev)
  then have e: "e = controller_step d ev" "r = AnsTransition (snd (controller_transition ev d))"
    using assms(1) by (simp_all add: controller_step_def split_beta)
  show ?thesis
    using revision_step [of d ev]
    by (cases "accepts d ev")
      (auto simp: e seen_revision_def controller_transition_cases controller_step_accepted)
qed (use assms in \<open>auto simp: seen_revision_def controller_snapshot_def controller_audit_def
      controller_snapshot_and_audit_def lock_data_def\<close>)

definition answers_bounded :: "controller \<Rightarrow> atomic \<Rightarrow> bool" where
  "answers_bounded c a \<longleftrightarrow> outcome_of c (am_ctl a) \<and>
     (\<forall>t r. am_pc a t = AAnswered r \<longrightarrow> pred_option (\<lambda>n. n \<le> revision_of (am_ctl a)) (seen_revision r))"

text \<open>From a revision \<open>n\<close> on, whatever thread \<open>u\<close> is then answered is no older.\<close>

definition no_older :: "controller \<Rightarrow> nat \<Rightarrow> nat \<Rightarrow> atomic \<Rightarrow> bool" where
  "no_older c n u a \<longleftrightarrow> outcome_of c (am_ctl a) \<and> n \<le> revision_of (am_ctl a) \<and>
     (\<forall>r. am_pc a u = AAnswered r \<longrightarrow> pred_option (\<lambda>m. n \<le> m) (seen_revision r))"

lemma answers_boundedD:
  assumes "answers_bounded c a" "am_pc a t = AAnswered r" "seen_revision r = Some m"
  shows "m \<le> revision_of (am_ctl a)"
proof -
  have "pred_option (\<lambda>n. n \<le> revision_of (am_ctl a)) (seen_revision r)"
    using assms(1,2) unfolding answers_bounded_def by blast
  with assms(3) show ?thesis by simp
qed

lemma no_olderD:
  assumes "no_older c n u a" "am_pc a u = AAnswered r" "seen_revision r = Some m"
  shows "n \<le> m"
proof -
  have "pred_option (\<lambda>m. n \<le> m) (seen_revision r)"
    using assms(1,2) unfolding no_older_def by blast
  with assms(3) show ?thesis by simp
qed

lemma answers_bounded_step:
  assumes "controller_new cap = Inr c" "answers_bounded c a" "atomic_step last a l b"
  shows "answers_bounded c b \<and> revision_of (am_ctl a) \<le> revision_of (am_ctl b)"
  using assms(3)
proof cases
  case (a_commit t k d r)
  have "outcome_of c (am_ctl a)" using assms(2) by (simp add: answers_bounded_def)
  note commit_between [OF a_commit(4) outcome_published_last [OF assms(1) this]]
  with assms(2) a_commit outcome_of_commit show ?thesis
    by (fastforce simp: answers_bounded_def pred_option_def)
qed (use assms(2) outcome_of_poisoned in \<open>auto simp: answers_bounded_def\<close>)

lemma no_older_step:
  assumes "controller_new cap = Inr c" "no_older c n u a" "atomic_step last a l b"
  shows "no_older c n u b"
  using assms(3)
proof cases
  case (a_commit t k d r)
  have "outcome_of c (am_ctl a)" using assms(2) by (simp add: no_older_def)
  note commit_between [OF a_commit(4) outcome_published_last [OF assms(1) this]]
  with assms(2) a_commit outcome_of_commit show ?thesis
    by (fastforce simp: no_older_def pred_option_def)
qed (use assms(2) outcome_of_poisoned in \<open>auto simp: no_older_def\<close>)

lemma answers_bounded_run:
  assumes "controller_new cap = Inr c" "executes (atomic_step last) a ls b" "answers_bounded c a"
  shows "answers_bounded c b \<and> revision_of (am_ctl a) \<le> revision_of (am_ctl b)"
proof (rule executes_invariant [OF assms(2), where L = "\<lambda>_. True"
      and P = "\<lambda>d. answers_bounded c d \<and> revision_of (am_ctl a) \<le> revision_of (am_ctl d)"])
  show "answers_bounded c v \<and> revision_of (am_ctl a) \<le> revision_of (am_ctl v)"
    if "answers_bounded c u \<and> revision_of (am_ctl a) \<le> revision_of (am_ctl u)" "atomic_step last u l v" for u l v
    using answers_bounded_step [OF assms(1) _ that(2)] that(1) order_trans by blast
qed (simp_all add: assms(3) list_all_iff)

lemma no_older_run:
  assumes "controller_new cap = Inr c" "executes (atomic_step last) a ls b" "no_older c n u a"
  shows "no_older c n u b"
  using executes_invariant [OF assms(2), of "no_older c n u" "\<lambda>_. True"] no_older_step [OF assms(1)] assms(3)
  by (simp add: list_all_iff)

inductive_cases atomic_replyE: "atomic_step view a (Some (Reply t r)) b"
inductive_cases atomic_invokeE: "atomic_step view a (Some (Invoke t k)) b"

text \<open>
  C21. No thread ever sees the lifecycle go back. When a call has answered with a revision, by
  \<open>transition\<close>, \<open>snapshot\<close>, \<open>snapshot_and_audit\<close> or a watch receiver, every call that any thread
  makes after that, by whichever of these, answers with the same revision or a later one, even
  while another thread is between storing, recording and publishing a transition.
\<close>

theorem answers_respect_real_time:
  assumes "controller_new cap = Inr c"
    and "executes (thread_step last) (threads_new c)
           (us @ Reply t r # vs @ Invoke u k # ws @ [Reply u r']) s"
    and "seen_revision r = Some m" "seen_revision r' = Some n"
  shows "m \<le> n"
proof -
  obtain z where z: "executes (atomic_step last) (atomic_new c)
      (us @ Reply t r # vs @ Invoke u k # ws @ [Reply u r']) z"
    using threads.traces_included [OF assms(2) linearized_new] by blast
  obtain a a' where a: "executes (atomic_step last) (atomic_new c) us a"
      "atomic_step last a (Some (Reply t r)) a'"
      "executes (atomic_step last) a' (vs @ Invoke u k # ws @ [Reply u r']) z"
    using executes_at [OF z] by blast
  obtain b b' where b: "executes (atomic_step last) a' vs b" "atomic_step last b (Some (Invoke u k)) b'"
      "executes (atomic_step last) b' (ws @ [Reply u r']) z"
    using executes_at [OF a(3)] by blast
  obtain d d' where d: "executes (atomic_step last) b' ws d" "atomic_step last d (Some (Reply u r')) d'"
    using executes_at [OF b(3)] by blast
  have "answers_bounded c (atomic_new c)"
    by (simp add: answers_bounded_def atomic_new_def outcome_of_refl)
  with a(1) have ba: "answers_bounded c a" using answers_bounded_run [OF assms(1)] by blast
  then have "m \<le> revision_of (am_ctl a)"
    using a(2) assms(3) by (auto elim!: atomic_replyE intro: answers_boundedD)
  also have a': "answers_bounded c a'" "revision_of (am_ctl a) \<le> revision_of (am_ctl a')"
    using answers_bounded_step [OF assms(1) ba a(2)] by simp_all
  note a'(2)
  also have b': "answers_bounded c b" "revision_of (am_ctl a') \<le> revision_of (am_ctl b)"
    using answers_bounded_run [OF assms(1) b(1) a'(1)] by simp_all
  note b'(2)
  finally have "no_older c m u b'"
    using b(2) b'(1) by (auto simp: no_older_def answers_bounded_def elim!: atomic_invokeE)
  then have "no_older c m u d" using no_older_run [OF assms(1) d(1)] by blast
  then show "m \<le> n" using d(2) assms(4) by (auto elim!: atomic_replyE intro: no_olderD)
qed

section \<open>An execution\<close>

text \<open>Thread 0 starts the lifecycle; thread 1 borrows from the watch channel after it returned.\<close>

lemma checked_one [simp]: "checked_add_u64 0 1 = Some 1"
  by (simp add: checked_add_u64_def)

definition example_trace :: "watch_view \<Rightarrow> label list" where
  "example_trace view =
     [Invoke 0 (CallTransition Start), Reply 0 (AnsTransition (Inr (snap_of Starting 1))),
      Invoke 1 CallBorrow, Reply 1 (AnsBorrow (view [INITIAL, snap_of Starting 1]))]"

lemma example_execution:
  "\<exists>s. executes (thread_step view) (threads_new (fresh_controller 2)) (example_trace view) s \<and>
     th_owner s = None \<and> \<not> ctl_poisoned (th_ctl s)"
proof -
  define s0 where "s0 = threads_new (fresh_controller 2)"
  define s1 where "s1 = at_pc s0 0 (Called (CallTransition Start))"
  define s2 where "s2 = at_pc (s1\<lparr>th_owner := Some 0\<rparr>) 0 (Holding (CallTransition Start))"
  define s3 where "s3 = at_pc s2 0 (Checked Start Created Starting 1)"
  define s4 where "s4 = at_pc (s3\<lparr>th_ctl := th_ctl s3\<lparr>ctl_snapshot := snap_of Starting 1\<rparr>\<rparr>) 0
    (Stored Start Created Starting 1)"
  define s5 where "s5 = at_pc (s4\<lparr>th_ctl := th_ctl s4\<lparr>ctl_audit :=
      (if length (ctl_audit (th_ctl s4)) = ctl_audit_capacity (th_ctl s4)
       then tl (ctl_audit (th_ctl s4)) else ctl_audit (th_ctl s4))\<rparr>\<rparr>) 0 (Evicted Start Created Starting 1)"
  define s6 where "s6 = at_pc (s5\<lparr>th_ctl := th_ctl s5\<lparr>ctl_audit := ctl_audit (th_ctl s5) @
      [\<lparr>rec_revision = 1, rec_from = Created, rec_event = Start, rec_to = Starting\<rparr>]\<rparr>\<rparr>) 0
    (Recorded Start Created Starting 1)"
  define s7 where "s7 = at_pc (s6\<lparr>th_ctl := th_ctl s6\<lparr>ctl_published :=
      ctl_published (th_ctl s6) @ [snap_of Starting 1]\<rparr>\<rparr>) 0 (Sent (snap_of Starting 1))"
  define s8 where "s8 = unlock_with s7 0 (AnsTransition (Inr (snap_of Starting 1)))"
  define s9 where "s9 = at_pc s8 0 Idle"
  define s10 where "s10 = at_pc s9 1 (Called CallBorrow)"
  define s11 where "s11 = at_pc s10 1 (Answered (AnsBorrow (view (ctl_published (th_ctl s10)))))"
  define s12 where "s12 = at_pc s11 1 Idle"
  note defs = s1_def s2_def s3_def s4_def s5_def s6_def s7_def s8_def s9_def s10_def s11_def
  have c0: "th_ctl s0 = fresh_controller 2" "th_owner s0 = None" "th_pc s0 t = Idle" for t
    by (simp_all add: s0_def threads_new_def)
  note silent = executes.silent [where step = "thread_step view"]
    and visible = executes.visible [where step = "thread_step view"]
  let ?E = "executes (thread_step view) s0"
  have "?E [] s0" by (rule executes.refl)
  then have "?E ([] @ [Invoke 0 (CallTransition Start)]) s1"
    by (rule visible) (simp add: s1_def c0 invoke)
  then have "?E [Invoke 0 (CallTransition Start)] s1" by simp
  then have "?E [Invoke 0 (CallTransition Start)] s2"
    unfolding s2_def by (rule silent [OF _ lock]) (simp_all add: s1_def c0)
  then have "?E [Invoke 0 (CallTransition Start)] s3"
    unfolding s3_def by (rule silent [OF _ check]) (simp_all add: defs c0)
  then have "?E [Invoke 0 (CallTransition Start)] s4"
    unfolding s4_def by (rule silent [OF _ store]) (simp add: s3_def)
  then have "?E [Invoke 0 (CallTransition Start)] s5"
    unfolding s5_def by (rule silent [OF _ evict]) (simp add: s4_def)
  then have "?E [Invoke 0 (CallTransition Start)] s6"
    unfolding s6_def by (rule silent [OF _ record_it]) (simp add: s5_def)
  then have "?E [Invoke 0 (CallTransition Start)] s7"
    unfolding s7_def by (rule silent [OF _ send]) (simp add: s6_def)
  then have "?E [Invoke 0 (CallTransition Start)] s8"
    unfolding s8_def by (rule silent [OF _ release]) (simp add: s7_def)
  then have "?E ([Invoke 0 (CallTransition Start)] @ [Reply 0 (AnsTransition (Inr (snap_of Starting 1)))]) s9"
    unfolding s9_def by (rule visible [OF _ reply]) (simp add: s8_def)
  then have "?E (([Invoke 0 (CallTransition Start)] @ [Reply 0 (AnsTransition (Inr (snap_of Starting 1)))]) @
      [Invoke 1 CallBorrow]) s10"
    unfolding s10_def by (rule visible [OF _ invoke]) (simp add: defs c0)
  then have "?E (([Invoke 0 (CallTransition Start)] @ [Reply 0 (AnsTransition (Inr (snap_of Starting 1)))]) @
      [Invoke 1 CallBorrow]) s11"
    unfolding s11_def by (rule silent [OF _ borrow]) (simp add: s10_def)
  then have "?E ((([Invoke 0 (CallTransition Start)] @ [Reply 0 (AnsTransition (Inr (snap_of Starting 1)))]) @
      [Invoke 1 CallBorrow]) @ [Reply 1 (AnsBorrow (view (ctl_published (th_ctl s10))))]) s12"
    unfolding s12_def by (rule visible [OF _ reply]) (simp add: s11_def)
  moreover have "ctl_published (th_ctl s10) = [INITIAL, snap_of Starting 1]"
    "th_owner s12 = None" "\<not> ctl_poisoned (th_ctl s12)"
    by (simp_all add: defs s12_def c0) (simp_all add: fresh_controller_def)
  ultimately show ?thesis unfolding s0_def by (auto simp: example_trace_def)
qed

theorem threads_linearize_witness:
  "\<exists>a. executes (atomic_step last) (atomic_new (fresh_controller 2)) (example_trace last) a"
  using example_execution [of last] threads_linearize by blast

theorem answers_respect_real_time_witness:
  "\<exists>s. executes (thread_step last) (threads_new (fresh_controller 2)) (example_trace last) s \<and>
     1 \<le> unat (snap_revision (last [INITIAL, snap_of Starting 1]))"
proof -
  obtain s where s: "executes (thread_step last) (threads_new (fresh_controller 2)) (example_trace last) s"
    using example_execution by blast
  have "1 \<le> unat (snap_revision (last [INITIAL, snap_of Starting 1]))"
  proof (rule answers_respect_real_time [where cap = 2 and us = "[Invoke 0 (CallTransition Start)]"
        and vs = "[]" and ws = "[]"])
    show "executes (thread_step last) (threads_new (fresh_controller 2))
      ([Invoke 0 (CallTransition Start)] @ Reply 0 (AnsTransition (Inr (snap_of Starting 1))) # [] @
       Invoke 1 CallBorrow # [] @ [Reply 1 (AnsBorrow (snap_of Starting 1))]) s"
      using s by (simp add: example_trace_def)
  qed (simp_all add: controller_new_eq seen_revision_def)
  with s show ?thesis by blast
qed

end
