(* ===== verification/Lifecycle_Wait.thy ===== *)
theory Lifecycle_Wait
  imports Lifecycle_Graph Lifecycle_Concurrency
begin

text \<open>
  \<open>wait_for\<close> of \<open>src/state_machine.rs\<close> running beside the rest of the process. In \<open>Lifecycle\<close> it
  is a loop over given observations; here the observations come from the controller that
  other clones keep changing, through the watch channel. What the waiter does is shown to be
  that loop, a waiter never sleeps through the state it waits for, and a wait for the terminal
  state returns.
\<close>

section \<open>The waiter and its surroundings\<close>

text \<open>
  A receiver of the watch channel, by what it shows and whether \<open>changed\<close> is ready when the
  first \<open>n\<close> of the values sent are marked as seen. Both belong to tokio, whose documentation
  says: the last value, and exactly when an unseen value exists.
\<close>

record watch_lib =
  wl_view :: "lifecycle_snapshot list \<Rightarrow> lifecycle_snapshot"
  wl_changed :: "lifecycle_snapshot list \<Rightarrow> nat \<Rightarrow> bool"

definition documented_watch :: "watch_lib \<Rightarrow> bool" where
  "documented_watch lib \<longleftrightarrow>
     (\<forall>sent. sent \<noteq> [] \<longrightarrow> wl_view lib sent = last sent) \<and>
     (\<forall>sent n. wl_changed lib sent n \<longleftrightarrow> n < length sent)"

text \<open>\<open>Polling\<close> is before \<open>borrow_and_update\<close>, \<open>Sleeping\<close> inside the \<open>select!\<close>.\<close>

datatype wait_pc = Polling | Sleeping | Returned "wait_error + lifecycle_snapshot"

record waiter =
  wt_ctl :: controller
  wt_handles :: nat
  wt_cancelled :: bool
  wt_seen :: nat
  wt_pc :: wait_pc

definition wait_turn :: "watch_lib \<Rightarrow> lifecycle_state \<Rightarrow> waiter \<Rightarrow> waiter" where
  "wait_turn lib target w =
     (case wt_pc w of
        Polling \<Rightarrow>
          let sent = ctl_published (wt_ctl w); current = wl_view lib sent
          in w\<lparr>wt_seen := length sent,
               wt_pc := (if snap_state current = target then Returned (Inr current) else Sleeping)\<rparr>
      | Sleeping \<Rightarrow>
          if wt_cancelled w then w\<lparr>wt_pc := Returned (Inl WaitCancelled)\<rparr>
          else if wl_changed lib (ctl_published (wt_ctl w)) (wt_seen w) then w\<lparr>wt_pc := Polling\<rparr>
          else if wt_handles w = 0 then w\<lparr>wt_pc := Returned (Inl WaitClosed)\<rparr>
          else w
      | Returned _ \<Rightarrow> w)"

text \<open>
  What happens next: a turn of the waiter, a call of another clone, the cancellation, the timer of
  the enclosing \<open>timeout\<close>, which is only looked at when the loop pends, and clones of the controller
  made and dropped; the one that the wait borrows cannot be dropped.
\<close>

datatype wait_item = Turn | Elsewhere lifecycle_event | CancelIt | TimerUp | CloneIt | DropIt

fun wait_step :: "watch_lib \<Rightarrow> lifecycle_state \<Rightarrow> waiter \<Rightarrow> wait_item \<Rightarrow> waiter" where
  "wait_step lib target w Turn = wait_turn lib target w"
| "wait_step lib target w (Elsewhere ev) = w\<lparr>wt_ctl := controller_step (wt_ctl w) ev\<rparr>"
| "wait_step lib target w CancelIt = w\<lparr>wt_cancelled := True\<rparr>"
| "wait_step lib target w TimerUp =
     (case wt_pc w of Sleeping \<Rightarrow> w\<lparr>wt_pc := Returned (Inl WaitTimeout)\<rparr> | _ \<Rightarrow> w)"
| "wait_step lib target w CloneIt = w\<lparr>wt_handles := Suc (wt_handles w)\<rparr>"
| "wait_step lib target w DropIt =
     (if 1 < wt_handles w then w\<lparr>wt_handles := wt_handles w - 1\<rparr> else w)"

definition wait_run :: "watch_lib \<Rightarrow> lifecycle_state \<Rightarrow> waiter \<Rightarrow> wait_item list \<Rightarrow> waiter" where
  "wait_run lib target w items = foldl (wait_step lib target) w items"

text \<open>\<open>subscribe\<close> marks the current value as seen.\<close>

definition waiter_new :: "controller \<Rightarrow> nat \<Rightarrow> waiter" where
  "waiter_new c others =
     \<lparr>wt_ctl = c, wt_handles = Suc others, wt_cancelled = False, wt_seen = length (ctl_published c),
      wt_pc = Polling\<rparr>"

section \<open>What the waiter has read\<close>

text \<open>Values read at growing positions are a faithful, possibly coalesced reading.\<close>

lemma observes_from_positions:
  "sorted is \<Longrightarrow> set is \<subseteq> {i ..< length sent} \<Longrightarrow> observes_from i sent (map ((!) sent) is)"
proof (induction "is" arbitrary: i)
  case (Cons j js)
  then have "observes_from j sent (map ((!) sent) js)" by (intro Cons.IH) auto
  with Cons.prems show ?case by (auto simp: list_ex_iff)
qed simp

lemma wait_for_skip:
  "\<forall>x \<in> set xs. snap_state x \<noteq> target \<Longrightarrow>
     wait_for target (map (\<lambda>x. (x, Changed)) xs @ rest) = wait_for target rest"
  by (induction xs) simp_all

text \<open>The values that the waiter borrows in a run, in order.\<close>

fun wait_obs :: "watch_lib \<Rightarrow> lifecycle_state \<Rightarrow> waiter \<Rightarrow> wait_item list \<Rightarrow> lifecycle_snapshot list" where
  "wait_obs lib target w [] = []"
| "wait_obs lib target w (item # items) =
     (if item = Turn \<and> wt_pc w = Polling then [wl_view lib (ctl_published (wt_ctl w))] else []) @
     wait_obs lib target (wait_step lib target w item) items"

lemma wait_run_simps [simp]:
  "wait_run lib target w [] = w"
  "wait_run lib target w (item # items) = wait_run lib target (wait_step lib target w item) items"
  "wait_run lib target w (items @ items') = wait_run lib target (wait_run lib target w items) items'"
  by (simp_all add: wait_run_def)

lemma wait_obs_append:
  "wait_obs lib target w (items @ items') =
     wait_obs lib target w items @ wait_obs lib target (wait_run lib target w items) items'"
  by (induction items arbitrary: w) simp_all

definition reads :: "'a list \<Rightarrow> nat \<Rightarrow> 'a list \<Rightarrow> bool" where
  "reads sent n xs \<longleftrightarrow> (\<exists>is. sorted is \<and> (\<forall>i \<in> set is. i < n) \<and> xs = map ((!) sent) is)"

lemma reads_nothing: "reads sent n []"
  unfolding reads_def by (rule exI [of _ "[]"]) simp

lemma reads_append: "reads sent n xs \<Longrightarrow> n \<le> length sent \<Longrightarrow> reads (sent @ ys) n xs"
  unfolding reads_def by (elim ex_forward) (auto simp: nth_append)

lemma reads_last:
  assumes "reads sent n xs" "n \<le> length sent" "sent \<noteq> []"
  shows "reads sent (length sent) (xs @ [last sent])"
proof -
  obtain "is" where i: "sorted is" "\<forall>i \<in> set is. i < n" "xs = map ((!) sent) is"
    using assms(1) unfolding reads_def by blast
  then have "sorted (is @ [length sent - 1])" using assms(2) by (fastforce simp: sorted_append)
  with i assms(2,3) show ?thesis
    unfolding reads_def by (intro exI [of _ "is @ [length sent - 1]"]) (auto simp: last_conv_nth)
qed

lemma reads_observes: "reads sent n xs \<Longrightarrow> n \<le> length sent \<Longrightarrow> observes_from 0 sent xs"
  unfolding reads_def by (auto intro!: observes_from_positions)

text \<open>The loop, given these readings and how its last \<open>select!\<close> ended.\<close>

definition looped :: "lifecycle_state \<Rightarrow> lifecycle_snapshot list \<Rightarrow> wait_error + lifecycle_snapshot \<Rightarrow> bool" where
  "looped target xs r \<longleftrightarrow> xs \<noteq> [] \<and>
     (\<exists>sel. wait_for target (map (\<lambda>x. (x, Changed)) (butlast xs) @ [(last xs, sel)]) = Some r)"

lemma loopedI:
  assumes "\<forall>x \<in> set xs. snap_state x \<noteq> target" "wait_for target [(x, sel)] = Some r"
  shows "looped target (xs @ [x]) r"
  unfolding looped_def using wait_for_skip [OF assms(1), of "[(x, sel)]"] assms(2) by auto

lemma looped_last:
  assumes "xs \<noteq> []" "\<forall>x \<in> set xs. snap_state x \<noteq> target"
  shows "looped target xs (Inl WaitCancelled)" "looped target xs (Inl WaitTimeout)"
proof -
  have "\<forall>x \<in> set (butlast xs). snap_state x \<noteq> target" "snap_state (last xs) \<noteq> target"
    using assms by (auto dest: in_set_butlastD)
  then have "looped target (butlast xs @ [last xs]) (Inl WaitCancelled)"
      "looped target (butlast xs @ [last xs]) (Inl WaitTimeout)"
    using loopedI [of "butlast xs" target "last xs" CancelFired]
      loopedI [of "butlast xs" target "last xs" TimerFired] by simp_all
  then show "looped target xs (Inl WaitCancelled)" "looped target xs (Inl WaitTimeout)"
    using assms(1) by simp_all
qed

text \<open>
  The invariant: the handle is held; what was read was read at growing positions and was never
  in the target state; while the waiter sleeps, the last value it has seen is the last it read.
\<close>

definition waiting_on :: "lifecycle_state \<Rightarrow> lifecycle_snapshot list \<Rightarrow> waiter \<Rightarrow> bool" where
  "waiting_on target xs w \<longleftrightarrow>
     (\<exists>L. traced (wt_ctl w) L) \<and> 0 < wt_handles w \<and>
     wt_seen w \<le> length (ctl_published (wt_ctl w)) \<and> reads (ctl_published (wt_ctl w)) (wt_seen w) xs \<and>
     (case wt_pc w of
        Polling \<Rightarrow> \<forall>x \<in> set xs. snap_state x \<noteq> target
      | Sleeping \<Rightarrow> xs \<noteq> [] \<and> (\<forall>x \<in> set xs. snap_state x \<noteq> target) \<and> 0 < wt_seen w \<and>
          last xs = ctl_published (wt_ctl w) ! (wt_seen w - 1)
      | Returned r \<Rightarrow> looped target xs r \<and> r \<noteq> Inl WaitClosed \<and> (r = Inl WaitCancelled \<longrightarrow> wt_cancelled w) \<and>
          (\<forall>snap. r = Inr snap \<longrightarrow> snap_state snap = target \<and> snap \<in> set xs))"

lemma traced_published: "traced c L \<Longrightarrow> ctl_published c \<noteq> []"
  by (simp add: traced_def)

lemma waiting_new: "traced c L \<Longrightarrow> waiting_on target [] (waiter_new c others)"
  by (auto simp: waiting_on_def waiter_new_def reads_nothing)

lemma waiting_turn:
  assumes "documented_watch lib" "waiting_on target xs w"
  shows "waiting_on target
    (xs @ (if wt_pc w = Polling then [wl_view lib (ctl_published (wt_ctl w))] else [])) (wait_turn lib target w)"
proof (cases "wt_pc w")
  case Polling
  let ?sent = "ctl_published (wt_ctl w)"
  have ne: "?sent \<noteq> []" using assms(2) traced_published by (auto simp: waiting_on_def)
  then have v: "wl_view lib ?sent = last ?sent" using assms(1) by (simp add: documented_watch_def)
  have r: "reads ?sent (length ?sent) (xs @ [last ?sent])"
    using assms(2) ne by (auto simp: waiting_on_def intro: reads_last)
  have "wait_for target [(last ?sent, Changed)] = Some (Inr (last ?sent))" if "snap_state (last ?sent) = target"
    using that by simp
  then have "looped target (xs @ [last ?sent]) (Inr (last ?sent))" if "snap_state (last ?sent) = target"
    using that assms(2) Polling by (intro loopedI) (auto simp: waiting_on_def)
  with r ne assms(2) Polling show ?thesis
    by (auto simp: waiting_on_def wait_turn_def v Let_def last_conv_nth)
next
  case Sleeping
  have "looped target xs (Inl WaitCancelled)"
    using assms(2) Sleeping looped_last(1) by (simp add: waiting_on_def)
  with Sleeping assms(2) show ?thesis by (auto simp: waiting_on_def wait_turn_def)
next
  case (Returned r)
  with assms(2) show ?thesis by (simp add: wait_turn_def)
qed

lemma waiting_elsewhere:
  assumes "waiting_on target xs w"
  shows "waiting_on target xs (w\<lparr>wt_ctl := controller_step (wt_ctl w) ev\<rparr>)"
proof -
  let ?sent = "ctl_published (wt_ctl w)"
  obtain L where "traced (wt_ctl w) L" using assms by (auto simp: waiting_on_def)
  then have t: "\<exists>L. traced (controller_step (wt_ctl w) ev) L" using traced_step by blast
  obtain ys where p: "ctl_published (controller_step (wt_ctl w) ev) = ?sent @ ys"
    by (cases "accepts (wt_ctl w) ev") (auto simp: controller_step_accepted)
  from assms have "reads (?sent @ ys) (wt_seen w) xs" by (auto simp: waiting_on_def intro: reads_append)
  moreover have "(?sent @ ys) ! (wt_seen w - 1) = ?sent ! (wt_seen w - 1)" if "0 < wt_seen w"
    using assms that by (auto simp: waiting_on_def nth_append)
  ultimately show ?thesis
    using assms t by (auto simp: waiting_on_def p split: wait_pc.splits)
qed

lemma waiting_timer:
  assumes "waiting_on target xs w"
  shows "waiting_on target xs (wait_step lib target w TimerUp)"
proof (cases "wt_pc w")
  case Sleeping
  have "looped target xs (Inl WaitTimeout)"
    using assms Sleeping looped_last(2) by (simp add: waiting_on_def)
  with Sleeping assms show ?thesis by (auto simp: waiting_on_def)
qed (use assms in simp_all)

lemma waiting_step:
  assumes "documented_watch lib" "waiting_on target xs w"
  shows "waiting_on target (xs @ wait_obs lib target w [item]) (wait_step lib target w item)"
proof (cases item)
  case Turn
  then show ?thesis using waiting_turn [OF assms] by simp
next
  case (Elsewhere ev)
  then show ?thesis using waiting_elsewhere [OF assms(2)] by simp
next
  case TimerUp
  then show ?thesis using waiting_timer [OF assms(2)] by simp
qed (use assms(2) in \<open>auto simp: waiting_on_def split: wait_pc.splits\<close>)

lemma waiting_run:
  assumes "documented_watch lib" "waiting_on target xs w"
  shows "waiting_on target (xs @ wait_obs lib target w items) (wait_run lib target w items)"
proof (induction items rule: rev_induct)
  case (snoc item items)
  then show ?case
    using waiting_step [OF assms(1), of target "xs @ wait_obs lib target w items"]
    by (simp add: wait_obs_append del: wait_obs.simps)
qed (use assms(2) in simp)

text \<open>No wake-up is lost.\<close>

lemma sleeping_changed:
  assumes "documented_watch lib" "waiting_on target xs w" "wt_pc w = Sleeping" "state_of (wt_ctl w) = target"
  shows "wl_changed lib (ctl_published (wt_ctl w)) (wt_seen w)"
proof (rule ccontr)
  assume "\<not> ?thesis"
  then have "wt_seen w = length (ctl_published (wt_ctl w))"
    using assms(1,2) by (simp add: waiting_on_def documented_watch_def)
  moreover obtain L where "traced (wt_ctl w) L" using assms(2) by (auto simp: waiting_on_def)
  ultimately have "last xs = ctl_snapshot (wt_ctl w)"
    using assms(2,3) traced_published_last traced_published by (simp add: waiting_on_def last_conv_nth)
  moreover have "xs \<noteq> []" "\<forall>x \<in> set xs. snap_state x \<noteq> target"
    using assms(2,3) by (simp_all add: waiting_on_def)
  then have "snap_state (last xs) \<noteq> target" by simp
  ultimately show False using assms(4) by simp
qed

text \<open>How many turns the waiter still needs while the lifecycle stays in the target state.\<close>

fun turns_needed :: "wait_pc \<Rightarrow> nat" where
  "turns_needed Sleeping = 2"
| "turns_needed Polling = 1"
| "turns_needed (Returned _) = 0"

definition undisturbed :: "wait_item \<Rightarrow> bool" where
  "undisturbed item \<longleftrightarrow> item \<noteq> CancelIt \<and> item \<noteq> TimerUp"

definition succeeding :: "watch_lib \<Rightarrow> lifecycle_state \<Rightarrow> waiter \<Rightarrow> bool" where
  "succeeding lib target w \<longleftrightarrow> (\<exists>xs. waiting_on target xs w) \<and> \<not> wt_cancelled w \<and>
     (\<forall>r. wt_pc w = Returned r \<longrightarrow> (\<exists>snap. r = Inr snap))"

lemma succeeding_turn:
  assumes "documented_watch lib" "succeeding lib target w" "state_of (wt_ctl w) = target"
  shows "succeeding lib target (wait_turn lib target w) \<and>
    turns_needed (wt_pc (wait_turn lib target w)) \<le> turns_needed (wt_pc w) - 1"
proof -
  obtain xs where w: "waiting_on target xs w" using assms(2) by (auto simp: succeeding_def)
  then obtain L where "traced (wt_ctl w) L" by (auto simp: waiting_on_def)
  then have v: "wl_view lib (ctl_published (wt_ctl w)) = ctl_snapshot (wt_ctl w)"
    using assms(1) traced_published traced_published_last by (simp add: documented_watch_def)
  show ?thesis
    using waiting_turn [OF assms(1) w] sleeping_changed [OF assms(1) w] assms(2,3)
    by (cases "wt_pc w") (auto simp: succeeding_def wait_turn_def v Let_def)
qed

lemma succeeding_other:
  assumes "documented_watch lib" "succeeding lib target w" "undisturbed item" "item \<noteq> Turn"
  shows "succeeding lib target (wait_step lib target w item) \<and> wt_pc (wait_step lib target w item) = wt_pc w"
proof -
  obtain xs where "waiting_on target xs w" using assms(2) by (auto simp: succeeding_def)
  from waiting_step [OF assms(1) this, of item] assms(2-) show ?thesis
    by (cases item) (auto simp: succeeding_def undisturbed_def)
qed

lemma wait_succeeds:
  assumes "documented_watch lib" "succeeding lib target w" "list_all undisturbed items"
    and "turns_needed (wt_pc w) \<le> count_list items Turn"
    and "\<And>us vs. items = us @ vs \<Longrightarrow> state_of (wt_ctl (wait_run lib target w us)) = target"
  shows "\<exists>snap. wt_pc (wait_run lib target w items) = Returned (Inr snap)"
  using assms(2-)
proof (induction items arbitrary: w)
  case Nil
  then show ?case by (cases "wt_pc w") (auto simp: succeeding_def)
next
  case (Cons item items)
  let ?v = "wait_step lib target w item"
  have stays: "state_of (wt_ctl (wait_run lib target ?v us)) = target" if "items = us @ vs" for us vs
    using Cons.prems(4) [of "item # us" vs] that by simp
  have "state_of (wt_ctl w) = target" using Cons.prems(4) [of "[]"] by simp
  then have "succeeding lib target ?v \<and> turns_needed (wt_pc ?v) \<le> count_list items Turn"
    using succeeding_turn [OF assms(1) Cons.prems(1)] succeeding_other [OF assms(1) Cons.prems(1), of item]
      Cons.prems(2,3) by (cases "item = Turn") auto
  then show ?case using Cons.IH [of ?v] Cons.prems(2) stays by simp
qed

section \<open>Properties\<close>

text \<open>
  C22. Beside any clones \<open>wait_for\<close> is its loop over a faithful, possibly coalesced reading of the
  published snapshots. What it returns is what the loop returns on exactly the values it
  read; a snapshot it returns was published and is in the target state, \<open>Cancelled\<close> means that
  the token was cancelled, and \<open>Closed\<close> never happens while the controller is borrowed. While
  it sleeps with the lifecycle in the target state its wake-up is pending: it never sleeps
  through the state it waits for.
\<close>

theorem waits_are_faithful_and_wake:
  assumes "documented_watch lib" "controller_new cap = Inr c"
  shows "let start = waiter_new (controller_run c evs) others; w = wait_run lib target start items;
      xs = wait_obs lib target start items; sent = ctl_published (wt_ctl w)
    in observes_from 0 sent xs \<and>
       (\<forall>r. wt_pc w = Returned r \<longrightarrow> looped target xs r \<and> r \<noteq> Inl WaitClosed \<and>
          (r = Inl WaitCancelled \<longrightarrow> wt_cancelled w) \<and>
          (\<forall>snap. r = Inr snap \<longrightarrow> snap_state snap = target \<and> snap \<in> set sent)) \<and>
       (wt_pc w = Sleeping \<and> state_of (wt_ctl w) = target \<longrightarrow> wl_changed lib sent (wt_seen w))"
proof -
  let ?start = "waiter_new (controller_run c evs) others"
  let ?w = "wait_run lib target ?start items" and ?xs = "wait_obs lib target ?start items"
  have inv: "waiting_on target ?xs ?w"
    using waiting_run [OF assms(1) waiting_new [OF traced_new_run [OF assms(2)]]] by simp
  have reading: "observes_from 0 (ctl_published (wt_ctl ?w)) ?xs"
    using inv by (auto simp: waiting_on_def intro: reads_observes)
  note wakes = sleeping_changed [OF assms(1) inv]
  with inv reading wakes observes_from_member [OF reading] show ?thesis
    unfolding Let_def waiting_on_def by auto
qed

text \<open>
  C23. A wait ends when the state it waits for lasts. If the waiter has not returned, the token is
  not cancelled and the timer does not fire, then two turns of the waiter after the lifecycle
  has come to stay in the target state are enough for it to return a snapshot of that state,
  whatever clones are made and dropped and whatever transitions are refused meanwhile; so a
  wait for \<open>Stopped\<close>, which no event leaves, cannot miss it.
\<close>

theorem waits_for_lasting_states_return:
  assumes "documented_watch lib" "controller_new cap = Inr c"
    and "w = wait_run lib target (waiter_new (controller_run c evs) others) items"
    and "wt_pc w \<in> {Polling, Sleeping}" "\<not> wt_cancelled w" "state_of (wt_ctl w) = target"
    and "list_all undisturbed later" "2 \<le> count_list later Turn"
    and "target = Stopped \<or> (\<forall>ev. Elsewhere ev \<in> set later \<longrightarrow> transition_target target ev = None)"
  shows "\<exists>snap. wt_pc (wait_run lib target w later) = Returned (Inr snap) \<and> snap_state snap = target"
proof -
  have inv: "waiting_on target (wait_obs lib target (waiter_new (controller_run c evs) others) items) w"
    using waiting_run [OF assms(1) waiting_new [OF traced_new_run [OF assms(2)]]] assms(3) by simp
  have refused: "transition_target target ev = None" if "Elsewhere ev \<in> set later" for ev
    using assms(9) that by (cases ev) auto
  have stays: "state_of (wt_ctl (wait_run lib target v us)) = target"
    if "set us \<subseteq> set later" "state_of (wt_ctl v) = target" for v us
    using that
  proof (induction us arbitrary: v)
    case (Cons item us)
    have "state_of (wt_ctl (wait_step lib target v item)) = target"
      using Cons.prems refused
      by (cases item) (auto simp: wait_turn_def Let_def accepts_def split: wait_pc.splits)
    then show ?case using Cons by simp
  qed simp
  have "\<exists>snap. wt_pc (wait_run lib target w later) = Returned (Inr snap)"
  proof (rule wait_succeeds [OF assms(1)])
    show "succeeding lib target w" using inv assms(4,5) by (auto simp: succeeding_def)
    show "turns_needed (wt_pc w) \<le> count_list later Turn" using assms(4,8) by auto
    show "state_of (wt_ctl (wait_run lib target w us)) = target" if "later = us @ vs" for us vs
      using that assms(6) by (intro stays) auto
  qed (rule assms(7))
  then show ?thesis using waiting_run [OF assms(1) inv, of later] by (auto simp: waiting_on_def)
qed

section \<open>Two waits\<close>

definition tokio_watch :: watch_lib where
  "tokio_watch = \<lparr>wl_view = last, wl_changed = (\<lambda>sent n. n < length sent)\<rparr>"

lemma tokio_watch_documented: "documented_watch tokio_watch"
  by (simp add: documented_watch_def tokio_watch_def)

text \<open>A waiter goes to sleep and is woken by another clone's call.\<close>

theorem waits_are_faithful_and_wake_witness:
  "let start = waiter_new (fresh_controller 2) 0; items = [Turn, Elsewhere Start, Turn, Turn] in
     wt_pc (wait_run tokio_watch Starting start items) = Returned (Inr (snap_of Starting 1)) \<and>
     looped Starting [INITIAL, snap_of Starting 1] (Inr (snap_of Starting 1))"
proof -
  let ?start = "waiter_new (fresh_controller 2) 0" and ?items = "[Turn, Elsewhere Start, Turn, Turn]"
  have a: "accepts (fresh_controller 2) Start" by (simp add: accepts_def)
  then have c: "controller_step (fresh_controller 2) Start =
      (fresh_controller 2)\<lparr>ctl_snapshot := snap_of Starting 1,
        ctl_audit := [\<lparr>rec_revision = 1, rec_from = Created, rec_event = Start, rec_to = Starting\<rparr>],
        ctl_published := [INITIAL, snap_of Starting 1]\<rparr>"
    by (simp add: controller_step_accepted record_for_def snapshot_after_def fresh_controller_def push_audit_def)
  have w: "wt_pc (wait_run tokio_watch Starting ?start ?items) = Returned (Inr (snap_of Starting 1))"
    "wait_obs tokio_watch Starting ?start ?items = [INITIAL, snap_of Starting 1]"
    by (simp_all add: waiter_new_def wait_turn_def tokio_watch_def Let_def c) (simp_all add: fresh_controller_def)
  have new: "controller_new 2 = Inr (fresh_controller 2)" by (simp add: controller_new_eq)
  show ?thesis
    using waits_are_faithful_and_wake [OF tokio_watch_documented new, of "[]" 0 Starting ?items] w
    by (simp add: Let_def del: wait_run_simps)
qed

text \<open>A wait for the terminal state that begins when the lifecycle is already stopped.\<close>

theorem waits_for_lasting_states_return_witness:
  "let w = waiter_new (controller_run (fresh_controller 2) [Stop]) 3 in
     \<exists>snap. wt_pc (wait_run tokio_watch Stopped w [DropIt, Turn, Elsewhere Start, Turn]) =
       Returned (Inr snap) \<and> snap_state snap = Stopped"
proof -
  let ?w = "waiter_new (controller_run (fresh_controller 2) [Stop]) 3"
  have "accepts (fresh_controller 2) Stop" by (simp add: accepts_def)
  then have "state_of (wt_ctl ?w) = Stopped" by (simp add: waiter_new_def state_step)
  moreover have "wt_pc ?w = Polling" "\<not> wt_cancelled ?w" by (simp_all add: waiter_new_def)
  moreover have "controller_new 2 = Inr (fresh_controller 2)" by (simp add: controller_new_eq)
  ultimately show ?thesis
    using waits_for_lasting_states_return [OF tokio_watch_documented, of 2 "fresh_controller 2" ?w Stopped "[Stop]" 3
        "[]" "[DropIt, Turn, Elsewhere Start, Turn]"]
    by (simp add: undisturbed_def Let_def del: wait_run_simps controller_run_simps) simp
qed

end
