(* ===== verification/Lifecycle_Races.thy ===== *)
theory Lifecycle_Races
  imports Lifecycle_Concurrency
begin

text \<open>
  Threads that race to change the lifecycle: each revision is won by exactly one successful
  call of \<open>transition\<close>.
\<close>

section \<open>Wins\<close>

fun won :: "answer \<Rightarrow> nat option" where
  "won (AnsTransition (Inr x)) = Some (unat (snap_revision x))"
| "won _ = None"

fun win_of :: "label \<Rightarrow> nat option" where
  "win_of (Reply t r) = won r"
| "win_of _ = None"

definition wins :: "label list \<Rightarrow> nat list" where
  "wins ls = List.map_filter win_of ls"

definition unpanicked :: "label list \<Rightarrow> bool" where
  "unpanicked ls \<longleftrightarrow> (\<forall>t. Panics t \<notin> set ls)"

lemma wins_simps [simp]:
  "wins [] = []" "wins (ls @ ms) = wins ls @ wins ms"
  "wins (l # ls) = (case win_of l of None \<Rightarrow> wins ls | Some r \<Rightarrow> r # wins ls)"
  by (simp_all add: wins_def map_filter_def split: option.split)

lemma unpanicked_simps [simp]:
  "unpanicked []" "unpanicked (ls @ [l]) \<longleftrightarrow> unpanicked ls \<and> (\<forall>t. l \<noteq> Panics t)"
  by (auto simp: unpanicked_def)

text \<open>A win that a thread has been answered and not yet returned.\<close>

fun pending_at :: "atomic_pc \<Rightarrow> nat option" where
  "pending_at (AAnswered r) = won r"
| "pending_at _ = None"

definition pending :: "atomic \<Rightarrow> nat set" where
  "pending a = {r. \<exists>t. pending_at (am_pc a t) = Some r}"

definition sole :: "atomic \<Rightarrow> bool" where
  "sole a \<longleftrightarrow>
     (\<forall>t u r. pending_at (am_pc a t) = Some r \<longrightarrow> pending_at (am_pc a u) = Some r \<longrightarrow> t = u)"

definition accounted :: "controller \<Rightarrow> label list \<Rightarrow> atomic \<Rightarrow> bool" where
  "accounted c ls a \<longleftrightarrow>
     revision_of c \<le> revision_of (am_ctl a) \<and> distinct (wins ls) \<and> set (wins ls) \<inter> pending a = {} \<and>
     sole a \<and> set (wins ls) \<union> pending a \<subseteq> {revision_of c <.. revision_of (am_ctl a)} \<and>
     (unpanicked ls \<longrightarrow> \<not> ctl_poisoned (am_ctl a) \<and>
        set (wins ls) \<union> pending a = {revision_of c <.. revision_of (am_ctl a)})"

lemma pending_update:
  assumes "pending_at (am_pc a t) = None"
  shows "pending (b\<lparr>am_pc := (am_pc a)(t := pc)\<rparr>) = set_option (pending_at pc) \<union> pending a"
proof (intro set_eqI iffI)
  fix r
  assume "r \<in> pending (b\<lparr>am_pc := (am_pc a)(t := pc)\<rparr>)"
  then show "r \<in> set_option (pending_at pc) \<union> pending a" by (auto simp: pending_def split: if_splits)
next
  fix r
  assume "r \<in> set_option (pending_at pc) \<union> pending a"
  then show "r \<in> pending (b\<lparr>am_pc := (am_pc a)(t := pc)\<rparr>)"
  proof
    assume "r \<in> pending a"
    then obtain u where u: "pending_at (am_pc a u) = Some r" by (auto simp: pending_def)
    with assms have "u \<noteq> t" by auto
    with u show ?thesis by (auto simp: pending_def)
  qed (auto simp: pending_def intro!: exI [of _ t])
qed

lemma pending_remove:
  assumes "sole a" "pending_at pc = None"
  shows "pending (b\<lparr>am_pc := (am_pc a)(t := pc)\<rparr>) = pending a - set_option (pending_at (am_pc a t))"
proof (intro set_eqI iffI)
  fix r
  assume "r \<in> pending (b\<lparr>am_pc := (am_pc a)(t := pc)\<rparr>)"
  then obtain u where "u \<noteq> t" "pending_at (am_pc a u) = Some r"
    using assms(2) by (auto simp: pending_def split: if_splits)
  with assms(1) show "r \<in> pending a - set_option (pending_at (am_pc a t))"
    unfolding sole_def pending_def by (cases "pending_at (am_pc a t) = Some r") auto
next
  fix r
  assume "r \<in> pending a - set_option (pending_at (am_pc a t))"
  then obtain u where "pending_at (am_pc a u) = Some r" "u \<noteq> t" by (auto simp: pending_def)
  then show "r \<in> pending (b\<lparr>am_pc := (am_pc a)(t := pc)\<rparr>)" by (auto simp: pending_def)
qed

lemma sole_update:
  assumes "sole a" "\<And>n. pending_at pc = Some n \<Longrightarrow> n \<notin> pending a"
  shows "sole (b\<lparr>am_pc := (am_pc a)(t := pc)\<rparr>)"
  unfolding sole_def
proof (intro allI impI)
  fix u v r
  assume uv: "pending_at (am_pc (b\<lparr>am_pc := (am_pc a)(t := pc)\<rparr>) u) = Some r"
    "pending_at (am_pc (b\<lparr>am_pc := (am_pc a)(t := pc)\<rparr>) v) = Some r"
  have "r \<in> pending a" if "pending_at (am_pc a x) = Some r" for x
    using that by (auto simp: pending_def)
  with uv assms show "u = v" unfolding sole_def by (auto split: if_splits)
qed

lemma accounted_new: "\<not> ctl_poisoned c \<Longrightarrow> accounted c [] (atomic_new c)"
  by (simp add: accounted_def atomic_new_def pending_def sole_def)

lemma accounted_invoke:
  assumes "accounted c ls a" "am_pc a t = AIdle"
  shows "accounted c (ls @ [Invoke t k]) (a\<lparr>am_pc := (am_pc a)(t := ACalled k)\<rparr>)"
proof -
  have "pending (a\<lparr>am_pc := (am_pc a)(t := ACalled k)\<rparr>) = pending a"
    using assms(2) pending_update [where a = a and t = t and b = a and pc = "ACalled k"] by simp
  moreover have "sole (a\<lparr>am_pc := (am_pc a)(t := ACalled k)\<rparr>)"
    using assms(1) by (intro sole_update) (simp_all add: accounted_def)
  ultimately show ?thesis using assms(1) by (simp add: accounted_def)
qed

text \<open>An accepted transition wins a fresh revision, and nothing else wins one.\<close>

lemma commit_wins:
  assumes "atomic_call view k d = (e, r)"
  shows "ctl_poisoned e = ctl_poisoned d \<and>
    (case won r of None \<Rightarrow> revision_of e = revision_of d
     | Some n \<Rightarrow> n = Suc (revision_of d) \<and> revision_of e = n)"
proof (cases k)
  case (CallTransition ev)
  then have e: "e = controller_step d ev" "r = AnsTransition (snd (controller_transition ev d))"
    using assms by (simp_all add: controller_step_def split_beta)
  show ?thesis
    using revision_step [of d ev]
    by (cases "accepts d ev")
      (simp_all add: e controller_transition_cases controller_step_accepted)
qed (use assms in auto)

lemma accounted_commit:
  assumes "accounted c ls a" "am_pc a t = ACalled k" "atomic_call view k (am_ctl a) = (d, r)"
  shows "accounted c ls \<lparr>am_ctl = d, am_pc = (am_pc a)(t := AAnswered r)\<rparr>"
proof -
  let ?b = "\<lparr>am_ctl = d, am_pc = (am_pc a)(t := AAnswered r)\<rparr>"
  note w = commit_wins [OF assms(3)]
  have p: "pending ?b = set_option (won r) \<union> pending a"
    using pending_update [where a = a and t = t and b = ?b and pc = "AAnswered r"] assms(2) by simp
  have below: "m \<le> revision_of (am_ctl a)" if "m \<in> set (wins ls) \<union> pending a" for m
    using assms(1) that by (auto simp: accounted_def)
  have fresh: "n \<notin> set (wins ls) \<union> pending a" if "won r = Some n" for n
    using w that below [of n] by auto
  then have "sole ?b" using assms(1) sole_update [where a = a and t = t and b = ?b and pc = "AAnswered r"]
    by (simp add: accounted_def)
  moreover have "set (wins ls) \<inter> pending ?b = {}"
    using fresh assms(1) by (auto simp: p accounted_def)
  moreover have "{revision_of c <.. revision_of d} =
      set_option (won r) \<union> {revision_of c <.. revision_of (am_ctl a)}"
    using w assms(1) by (cases "won r") (auto simp: accounted_def)
  moreover have "revision_of c \<le> revision_of d"
    using w assms(1) by (cases "won r") (auto simp: accounted_def)
  ultimately show ?thesis
    using assms(1) w unfolding accounted_def p by (simp add: Un_left_commute) blast
qed

lemma accounted_reply:
  assumes "accounted c ls a" "am_pc a t = AAnswered r"
  shows "accounted c (ls @ [Reply t r]) (a\<lparr>am_pc := (am_pc a)(t := AIdle)\<rparr>)"
proof -
  let ?b = "a\<lparr>am_pc := (am_pc a)(t := AIdle)\<rparr>"
  have s: "sole a" using assms(1) by (simp add: accounted_def)
  have "pending ?b = pending a - set_option (won r)"
    using pending_remove [OF s, where pc = AIdle and b = a and t = t] assms(2) by simp
  moreover have "set_option (won r) \<subseteq> pending a"
    using assms(2) by (auto simp: pending_def intro!: exI [of _ t])
  moreover have "sole ?b" using s by (intro sole_update) simp_all
  moreover have "wins (ls @ [Reply t r]) = wins ls @ (case won r of None \<Rightarrow> [] | Some n \<Rightarrow> [n])"
    by (simp split: option.split)
  ultimately show ?thesis
    using assms(1) unfolding accounted_def by (cases "won r") auto
qed

lemma accounted_panics:
  assumes "accounted c ls a"
  shows "accounted c (ls @ [Panics t])
    \<lparr>am_ctl = (am_ctl a)\<lparr>ctl_poisoned := True\<rparr>, am_pc = (am_pc a)(t := ADead)\<rparr>"
proof -
  let ?b = "\<lparr>am_ctl = (am_ctl a)\<lparr>ctl_poisoned := True\<rparr>, am_pc = (am_pc a)(t := ADead)\<rparr>"
  have s: "sole a" using assms(1) by (simp add: accounted_def)
  have "pending ?b \<subseteq> pending a"
    using pending_remove [OF s, where pc = ADead and b = ?b and t = t] by simp
  moreover have "sole ?b" using sole_update [OF s, where pc = ADead and b = ?b and t = t] by simp
  ultimately show ?thesis using assms unfolding accounted_def by auto
qed

lemma accounted_step:
  assumes "accounted c ls a" "atomic_step view a l b"
  shows "accounted c (ls @ (case l of None \<Rightarrow> [] | Some x \<Rightarrow> [x])) b"
  using assms(2)
  by cases (use assms(1) accounted_invoke accounted_commit accounted_reply accounted_panics in fastforce)+

lemma accounted_run:
  "executes (atomic_step view) a ls b \<Longrightarrow> a = atomic_new c \<Longrightarrow> \<not> ctl_poisoned c \<Longrightarrow> accounted c ls b"
proof (induction rule: executes.induct)
  case (silent a ls b d)
  then show ?case using accounted_step [of c ls b view None] by simp
next
  case (visible a ls b l d)
  then show ?case using accounted_step [of c ls b view "Some l"] by simp
qed (simp add: accounted_new)

section \<open>Properties\<close>

text \<open>
  C20. A change of the lifecycle is reported to one caller. Among the answers that racing
  threads have been given, no two successful transitions carry the same revision; and when
  every call has returned and none panicked, the revisions reported are exactly those from the
  first to the current one, so no accepted transition goes unreported either.
\<close>

theorem each_revision_has_one_winner:
  assumes "controller_new cap = Inr c" "executes (thread_step view) (threads_new c) trace s"
  shows "distinct (wins trace) \<and>
    (unpanicked trace \<and> (\<forall>t. th_pc s t = Idle) \<longrightarrow> set (wins trace) = {1 .. revision_of (th_ctl s)})"
proof -
  have c: "\<not> ctl_poisoned c" "revision_of c = 0"
    using assms(1) by (auto simp: controller_new_def INITIAL_def split: if_splits)
  obtain a where a: "executes (atomic_step view) (atomic_new c) trace a" "linearized s a"
    using threads.traces_included [OF assms(2) linearized_new] by blast
  from accounted_run [OF a(1) HOL.refl c(1)] have acc: "accounted c trace a" .
  have "set (wins trace) = {1 .. revision_of (th_ctl s)}" if "unpanicked trace" "\<forall>t. th_pc s t = Idle"
  proof -
    have "pending a = {}" using that(2) linearizedD(1) [OF a(2)] by (simp add: pending_def)
    moreover have "th_owner s = None"
      using that(2) linearizedD(2) [OF a(2)] by (cases "th_owner s") auto
    ultimately show ?thesis
      using acc that(1) c(2) linearizedD(6) [OF a(2)] by (auto simp: accounted_def)
  qed
  with acc show ?thesis by (simp add: accounted_def)
qed

theorem each_revision_has_one_winner_witness:
  "distinct (wins (example_trace last)) \<and> wins (example_trace last) = [1]"
proof -
  obtain s where "executes (thread_step last) (threads_new (fresh_controller 2)) (example_trace last) s"
    using example_execution by blast
  with each_revision_has_one_winner [of 2 "fresh_controller 2"] show ?thesis
    by (simp add: controller_new_eq example_trace_def)
qed

end
