(* ===== verification/Lifecycle_Spec.thy ===== *)
theory Lifecycle_Spec
  imports Lifecycle_Laws
begin

text \<open>
  The repository's own abstract specification, \<open>formal/McpLifecycle.tla\<close>, and the proof that
  the controller implements it. TLC checks that specification up to twelve revisions and an
  audit ring of three; here both directions are proved for every capacity and every
  revision below the end of the 64-bit counter.
\<close>

section \<open>McpLifecycle.tla\<close>

record tla_record =
  tla_revision :: nat
  tla_from :: string
  tla_event :: string
  tla_to :: string

record tla_state =
  tla_state :: string
  tla_rev :: nat
  tla_audit :: "tla_record list"

definition tla_init :: tla_state where
  "tla_init = \<lparr>tla_state = ''created'', tla_rev = 0, tla_audit = []\<rparr>"

definition sub_seq :: "'a list \<Rightarrow> nat \<Rightarrow> nat \<Rightarrow> 'a list" where
  "sub_seq xs m n = take (n + 1 - m) (drop (m - 1) xs)"

definition bounded_append :: "nat \<Rightarrow> 'a list \<Rightarrow> 'a \<Rightarrow> 'a list" where
  "bounded_append AuditCapacity audit entry =
     (let extended = audit @ [entry]
      in if length extended \<le> AuditCapacity then extended
         else sub_seq extended (length extended - AuditCapacity + 1) (length extended))"

definition tla_do :: "nat \<Rightarrow> string \<Rightarrow> string \<Rightarrow> tla_state \<Rightarrow> tla_state" where
  "tla_do AuditCapacity ev target s =
     \<lparr>tla_state = target,
      tla_rev = tla_rev s + 1,
      tla_audit = bounded_append AuditCapacity (tla_audit s)
        \<lparr>tla_revision = tla_rev s + 1, tla_from = tla_state s, tla_event = ev, tla_to = target\<rparr>\<rparr>"

inductive tla_next :: "nat \<Rightarrow> tla_state \<Rightarrow> tla_state \<Rightarrow> bool" for AuditCapacity :: nat where
  Start: "tla_state s = ''created'' \<Longrightarrow>
    tla_next AuditCapacity s (tla_do AuditCapacity ''start'' ''starting'' s)"
| StopBeforeReady: "tla_state s \<in> {''created'', ''starting''} \<Longrightarrow>
    tla_next AuditCapacity s (tla_do AuditCapacity ''stop'' ''stopped'' s)"
| Started: "tla_state s = ''starting'' \<Longrightarrow>
    tla_next AuditCapacity s (tla_do AuditCapacity ''started'' ''ready'' s)"
| Degrade: "tla_state s = ''ready'' \<Longrightarrow>
    tla_next AuditCapacity s (tla_do AuditCapacity ''degrade'' ''degraded'' s)"
| Recover: "tla_state s = ''degraded'' \<Longrightarrow>
    tla_next AuditCapacity s (tla_do AuditCapacity ''recover'' ''ready'' s)"
| Drain: "tla_state s \<in> {''starting'', ''ready'', ''degraded''} \<Longrightarrow>
    tla_next AuditCapacity s (tla_do AuditCapacity ''drain'' ''draining'' s)"
| StopAfterDrain: "tla_state s = ''draining'' \<Longrightarrow>
    tla_next AuditCapacity s (tla_do AuditCapacity ''stop'' ''stopped'' s)"

text \<open>
  \<open>Spec == Init /\ [][Next]_vars\<close>: its behaviours are infinite, and may stutter at any time.
\<close>

definition tla_behaviour :: "nat \<Rightarrow> (nat \<Rightarrow> tla_state) \<Rightarrow> bool" where
  "tla_behaviour AuditCapacity b \<longleftrightarrow>
     b 0 = tla_init \<and> (\<forall>n. b (Suc n) = b n \<or> tla_next AuditCapacity (b n) (b (Suc n)))"

definition tla_states :: "string list" where
  "tla_states = [''created'', ''starting'', ''ready'', ''degraded'', ''draining'', ''stopped'']"

definition tla_events :: "string list" where
  "tla_events = [''start'', ''started'', ''degrade'', ''recover'', ''drain'', ''stop'']"

definition type_ok :: "tla_state \<Rightarrow> bool" where
  "type_ok s \<longleftrightarrow> tla_state s \<in> set tla_states \<and>
     list_all (\<lambda>r. tla_from r \<in> set tla_states \<and> tla_event r \<in> set tla_events \<and> tla_to r \<in> set tla_states)
       (tla_audit s)"

definition audit_bounded :: "nat \<Rightarrow> tla_state \<Rightarrow> bool" where
  "audit_bounded AuditCapacity s \<longleftrightarrow> length (tla_audit s) \<le> AuditCapacity"

definition audit_strictly_ordered :: "tla_state \<Rightarrow> bool" where
  "audit_strictly_ordered s \<longleftrightarrow> sorted_wrt (\<lambda>r q. tla_revision r < tla_revision q) (tla_audit s)"

definition audit_latest_matches_revision :: "tla_state \<Rightarrow> bool" where
  "audit_latest_matches_revision s \<longleftrightarrow>
     (if tla_audit s = [] then tla_rev s = 0 else tla_revision (last (tla_audit s)) = tla_rev s)"

definition stopped_is_terminal :: "nat \<Rightarrow> tla_state \<Rightarrow> bool" where
  "stopped_is_terminal AuditCapacity s \<longleftrightarrow> tla_state s \<noteq> ''stopped'' \<or> (\<nexists>t. tla_next AuditCapacity s t)"

definition tla_invariants :: "nat \<Rightarrow> tla_state \<Rightarrow> bool" where
  "tla_invariants AuditCapacity s \<longleftrightarrow>
     type_ok s \<and> audit_bounded AuditCapacity s \<and> audit_strictly_ordered s \<and>
     audit_latest_matches_revision s \<and> stopped_is_terminal AuditCapacity s"

text \<open>
  TLC checks these invariants for small constants. They follow, for all, from the audit's
  revisions being consecutive and ending at the current one.
\<close>

definition tla_inductive :: "nat \<Rightarrow> tla_state \<Rightarrow> bool" where
  "tla_inductive cap s \<longleftrightarrow> type_ok s \<and> length (tla_audit s) = min cap (tla_rev s) \<and>
     map tla_revision (tla_audit s) = [Suc (tla_rev s) - length (tla_audit s) ..< Suc (tla_rev s)]"

lemma bounded_append_drop: "bounded_append cap xs x = drop (Suc (length xs) - cap) (xs @ [x])"
  by (auto simp: bounded_append_def sub_seq_def Let_def)

lemma tla_inductive_do:
  assumes "tla_inductive cap s" "ev \<in> set tla_events" "target \<in> set tla_states"
  shows "tla_inductive cap (tla_do cap ev target s)"
proof -
  let ?r = "tla_rev s" and ?xs = "tla_audit s"
  let ?e = "\<lparr>tla_revision = ?r + 1, tla_from = tla_state s, tla_event = ev, tla_to = target\<rparr>"
  have len: "length ?xs = min cap ?r" and revs: "map tla_revision ?xs = [Suc ?r - length ?xs ..< Suc ?r]"
    and ok: "type_ok s"
    using assms(1) by (simp_all add: tla_inductive_def)
  have "map tla_revision (?xs @ [?e]) = [Suc ?r - length ?xs ..< Suc (Suc ?r)]"
    using revs len by (simp add: upt_Suc_append)
  then have "map tla_revision (bounded_append cap ?xs ?e) =
      [(Suc ?r - length ?xs) + (Suc (length ?xs) - cap) ..< Suc (Suc ?r)]"
    unfolding bounded_append_drop drop_map [symmetric] by (simp only: drop_upt)
  moreover have "length (bounded_append cap ?xs ?e) = min cap (Suc ?r)"
    using len by (simp add: bounded_append_drop)
  moreover have "(Suc ?r - length ?xs) + (Suc (length ?xs) - cap) = Suc (Suc ?r) - min cap (Suc ?r)"
    using len by (auto simp: min_def)
  moreover have "list_all P (bounded_append cap ?xs ?e)" if "list_all P ?xs" "P ?e" for P
    using that by (auto simp: bounded_append_drop list_all_iff dest: in_set_dropD)
  ultimately show ?thesis
    using ok assms(2,3) by (simp add: tla_inductive_def tla_do_def type_ok_def)
qed

lemma tla_inductive_next: "tla_next cap s t \<Longrightarrow> tla_inductive cap s \<Longrightarrow> tla_inductive cap t"
  by (erule tla_next.cases) (simp_all add: tla_inductive_do tla_events_def tla_states_def)

lemma tla_inductive_init: "tla_inductive cap tla_init"
  by (simp add: tla_inductive_def tla_init_def type_ok_def tla_states_def)

lemma tla_inductive_invariants:
  assumes "tla_inductive cap s" "0 < cap"
  shows "tla_invariants cap s"
proof -
  let ?xs = "tla_audit s"
  have len: "length ?xs = min cap (tla_rev s)"
    and revs: "map tla_revision ?xs = [Suc (tla_rev s) - length ?xs ..< Suc (tla_rev s)]"
    using assms(1) by (simp_all add: tla_inductive_def)
  have "sorted_wrt (<) (map tla_revision ?xs)" unfolding revs by (rule sorted_wrt_upt)
  then have "audit_strictly_ordered s" by (simp add: audit_strictly_ordered_def sorted_wrt_map)
  moreover have "tla_revision (last ?xs) = tla_rev s" if "?xs \<noteq> []"
  proof -
    have "0 < length ?xs" using that by simp
    then have "Suc (tla_rev s) - length ?xs \<le> tla_rev s" by arith
    with that arg_cong [OF revs, of last] show ?thesis by (simp add: last_map)
  qed
  then have "audit_latest_matches_revision s"
    using len assms(2) by (auto simp: audit_latest_matches_revision_def)
  moreover have "stopped_is_terminal cap s"
    by (auto simp: stopped_is_terminal_def elim: tla_next.cases)
  ultimately show ?thesis
    using assms(1) len by (simp add: tla_invariants_def tla_inductive_def audit_bounded_def)
qed

lemma tla_behaviour_invariants:
  assumes "tla_behaviour cap b" "0 < cap"
  shows "tla_invariants cap (b n)"
proof -
  have "tla_inductive cap (b n)"
  proof (induction n)
    case 0
    then show ?case using assms(1) by (simp add: tla_behaviour_def tla_inductive_init)
  next
    case (Suc n)
    then show ?case using assms(1) tla_inductive_next unfolding tla_behaviour_def by metis
  qed
  then show ?thesis using assms(2) by (rule tla_inductive_invariants)
qed

section \<open>Abstraction\<close>

definition abs_record :: "transition_record \<Rightarrow> tla_record" where
  "abs_record r =
     \<lparr>tla_revision = unat (rec_revision r), tla_from = state_as_str (rec_from r),
      tla_event = event_as_str (rec_event r), tla_to = state_as_str (rec_to r)\<rparr>"

definition abs_controller :: "controller \<Rightarrow> tla_state" where
  "abs_controller c =
     \<lparr>tla_state = state_as_str (state_of c), tla_rev = revision_of c,
      tla_audit = map abs_record (ctl_audit c)\<rparr>"

lemma abs_controller_simps [simp]:
  "tla_state (abs_controller c) = state_as_str (state_of c)"
  "tla_rev (abs_controller c) = revision_of c"
  "tla_audit (abs_controller c) = map abs_record (ctl_audit c)"
  by (simp_all add: abs_controller_def)

lemma state_as_str_inject [simp]: "state_as_str s = state_as_str t \<longleftrightarrow> s = t"
  by (cases s; cases t) simp_all

text \<open>The two ring disciplines agree on a ring that is within its capacity.\<close>

lemma push_audit_bounded_append:
  assumes "0 < cap" and "length xs \<le> cap"
  shows "push_audit cap xs r = bounded_append cap xs r"
proof (cases "length xs = cap")
  case True
  then have "drop 1 (xs @ [r]) = tl xs @ [r]" using assms by (cases xs) auto
  with True assms show ?thesis
    by (simp add: push_audit_def bounded_append_def sub_seq_def)
next
  case False
  with assms show ?thesis by (simp add: push_audit_def bounded_append_def)
qed

lemma map_drop_single: "map f (drop n [r]) = drop n [f r]"
  by (cases n) simp_all

lemma map_bounded_append: "map f (bounded_append cap xs r) = bounded_append cap (map f xs) (f r)"
  by (simp add: bounded_append_def sub_seq_def Let_def take_map drop_map map_drop_single)

lemma wf_controller_audit:
  "wf_controller c \<Longrightarrow> 0 < ctl_audit_capacity c \<and> length (ctl_audit c) \<le> ctl_audit_capacity c \<and>
     \<not> ctl_poisoned c"
  by (auto simp: wf_controller_def traced_def)

lemma abs_step:
  assumes "wf_controller c" and "accepts c ev"
  shows "abs_controller (controller_step c ev) =
     tla_do (ctl_audit_capacity c) (event_as_str ev)
       (state_as_str (the (transition_target (state_of c) ev))) (abs_controller c)"
proof -
  have rev: "unat (snap_revision (ctl_snapshot c) + 1) = Suc (revision_of c)"
    using revision_step [of c ev] assms(2) by (simp add: controller_step_accepted record_for_def)
  have "push_audit (ctl_audit_capacity c) (ctl_audit c) (record_for c ev) =
      bounded_append (ctl_audit_capacity c) (ctl_audit c) (record_for c ev)"
    using wf_controller_audit [OF assms(1)] by (simp add: push_audit_bounded_append)
  with assms(2) rev show ?thesis
    by (simp add: tla_do_def abs_controller_def controller_step_accepted map_bounded_append
        abs_record_def record_for_def)
qed

lemma tla_next_transition:
  "transition_target s ev = Some t \<Longrightarrow> tla_state a = state_as_str s \<Longrightarrow>
     tla_next cap a (tla_do cap (event_as_str ev) (state_as_str t) a)"
  by (erule transition_target_SomeE) (auto intro: tla_next.intros)

lemma state_as_str_eqs:
  "state_as_str s = ''created'' \<longleftrightarrow> s = Created" "state_as_str s = ''starting'' \<longleftrightarrow> s = Starting"
  "state_as_str s = ''ready'' \<longleftrightarrow> s = Ready" "state_as_str s = ''degraded'' \<longleftrightarrow> s = Degraded"
  "state_as_str s = ''draining'' \<longleftrightarrow> s = Draining" "state_as_str s = ''stopped'' \<longleftrightarrow> s = Stopped"
  by (cases s; simp)+

lemma transition_tla_next:
  assumes "tla_next cap a b" and "tla_state a = state_as_str s"
  shows "\<exists>ev t. transition_target s ev = Some t \<and> b = tla_do cap (event_as_str ev) (state_as_str t) a"
  using assms
proof (cases rule: tla_next.cases)
  case Start
  then show ?thesis using assms(2)
    by (intro exI [of _ lifecycle_event.Start] exI [of _ Starting]) (simp add: state_as_str_eqs)
next
  case StopBeforeReady
  then show ?thesis using assms(2)
    by (intro exI [of _ Stop] exI [of _ Stopped]) (auto simp: state_as_str_eqs)
next
  case Started
  then show ?thesis using assms(2)
    by (intro exI [of _ lifecycle_event.Started] exI [of _ Ready]) (simp add: state_as_str_eqs)
next
  case Degrade
  then show ?thesis using assms(2)
    by (intro exI [of _ lifecycle_event.Degrade] exI [of _ Degraded]) (simp add: state_as_str_eqs)
next
  case Recover
  then show ?thesis using assms(2)
    by (intro exI [of _ lifecycle_event.Recover] exI [of _ Ready]) (simp add: state_as_str_eqs)
next
  case Drain
  then show ?thesis using assms(2)
    by (intro exI [of _ lifecycle_event.Drain] exI [of _ Draining]) (auto simp: state_as_str_eqs)
next
  case StopAfterDrain
  then show ?thesis using assms(2)
    by (intro exI [of _ Stop] exI [of _ Stopped]) (simp add: state_as_str_eqs)
qed

section \<open>Refinement, both ways\<close>

text \<open>
  The controller implements the TLA+ specification and nothing less: each \<open>transition\<close>
  call of a well-formed controller is a \<open>Next\<close> step of the specification or leaves its
  variables unchanged, and each \<open>Next\<close> step the specification allows is the effect of some
  event on the controller while the revision counter has room.
\<close>

theorem controller_simulates_tla:
  assumes "wf_controller c"
  shows "(abs_controller (controller_step c ev) = abs_controller c \<or>
          tla_next (ctl_audit_capacity c) (abs_controller c) (abs_controller (controller_step c ev))) \<and>
         (revision_of c + 1 < 2 ^ 64 \<longrightarrow>
          (\<forall>b. tla_next (ctl_audit_capacity c) (abs_controller c) b \<longrightarrow>
               (\<exists>e. abs_controller (controller_step c e) = b)))"
proof (intro conjI impI allI)
  show "abs_controller (controller_step c ev) = abs_controller c \<or>
      tla_next (ctl_audit_capacity c) (abs_controller c) (abs_controller (controller_step c ev))"
  proof (cases "accepts c ev")
    case True
    then obtain t where t: "transition_target (state_of c) ev = Some t" by (auto simp: accepts_def)
    with tla_next_transition [OF t, of "abs_controller c"] show ?thesis
      by (simp add: abs_step [OF assms True])
  qed simp
next
  fix b
  assume rev: "revision_of c + 1 < 2 ^ 64"
    and "tla_next (ctl_audit_capacity c) (abs_controller c) b"
  then obtain e t where t: "transition_target (state_of c) e = Some t"
    and b: "b = tla_do (ctl_audit_capacity c) (event_as_str e) (state_as_str t) (abs_controller c)"
    using transition_tla_next [of "ctl_audit_capacity c" "abs_controller c" b "state_of c"] by auto
  have "accepts c e" using rev t wf_controller_audit [OF assms] by (simp add: accepts_def)
  then have "abs_controller (controller_step c e) = b" using b t by (simp add: abs_step [OF assms])
  then show "\<exists>e. abs_controller (controller_step c e) = b" ..
qed

theorem controller_simulates_tla_witness:
  "abs_controller (controller_step (fresh_controller 3) Start) = abs_controller (fresh_controller 3) \<or>
   tla_next 3 (abs_controller (fresh_controller 3)) (abs_controller (controller_step (fresh_controller 3) Start))"
proof -
  have "wf_controller (fresh_controller 3)"
    by (rule wf_new [of 3]) (simp add: controller_new_eq)
  from controller_simulates_tla [OF this, of Start] show ?thesis by simp
qed

text \<open>
  Which event moves the controller from one state of the specification to the next depends on
  those states alone, and so does an event that is refused.
\<close>

lemma some_event_refused: "\<exists>ev. transition_target s ev = None"
  by (cases s) (auto intro: exI [of _ Start] exI [of _ Started])

lemma event_for_step:
  assumes "b' = b \<or> tla_next cap b b'" "tla_rev b' < 2 ^ 64"
  shows "\<exists>ev. \<forall>c. wf_controller c \<and> ctl_audit_capacity c = cap \<and> abs_controller c = b \<longrightarrow>
    abs_controller (controller_step c ev) = b'"
proof (cases "\<exists>c. wf_controller c \<and> ctl_audit_capacity c = cap \<and> abs_controller c = b")
  case True
  then obtain c where c: "tla_state b = state_as_str (state_of c)" by auto
  have same: "state_of d = state_of c" if "abs_controller d = b" for d
    using that c by auto
  from assms(1) show ?thesis
  proof
    assume "b' = b"
    obtain ev where "transition_target (state_of c) ev = None" using some_event_refused by blast
    then have "\<not> accepts d ev" if "abs_controller d = b" for d
      using same [OF that] by (simp add: accepts_def)
    with \<open>b' = b\<close> show ?thesis by (intro exI [of _ ev]) auto
  next
    assume "tla_next cap b b'"
    from transition_tla_next [OF this c] obtain ev t where ev: "transition_target (state_of c) ev = Some t"
        "b' = tla_do cap (event_as_str ev) (state_as_str t) b" by blast
    have "abs_controller (controller_step d ev) = b'"
      if d: "wf_controller d" "ctl_audit_capacity d = cap" "abs_controller d = b" for d
    proof -
      have "revision_of d + 1 < 2 ^ 64" using assms(2) ev(2) d(3) by (auto simp: tla_do_def)
      then have "accepts d ev"
        using ev(1) same [OF d(3)] wf_controller_audit [OF d(1)] by (simp add: accepts_def)
      with abs_step [OF d(1)] d ev same [OF d(3)] show ?thesis by simp
    qed
    then show ?thesis by blast
  qed
qed blast

lemma behaviour_realised:
  assumes "wf_controller c" "ctl_audit_capacity c = cap" "abs_controller c = b 0"
    and "\<And>n. b (Suc n) = b n \<or> tla_next cap (b n) (b (Suc n))" "\<And>n. tla_rev (b n) < 2 ^ 64"
  shows "\<exists>evs. \<forall>n. abs_controller (controller_run c (map evs [0 ..< n])) = b n"
proof -
  obtain evs where evs: "\<And>n d. wf_controller d \<Longrightarrow> ctl_audit_capacity d = cap \<Longrightarrow> abs_controller d = b n \<Longrightarrow>
      abs_controller (controller_step d (evs n)) = b (Suc n)"
    using event_for_step [OF assms(4,5)] by metis
  have "wf_controller (controller_run c (map evs [0 ..< n])) \<and>
      abs_controller (controller_run c (map evs [0 ..< n])) = b n" for n
  proof (induction n)
    case (Suc n)
    with evs [of "controller_run c (map evs [0 ..< n])" n] lifecycle.inv_step assms(2) show ?case by simp
  qed (use assms(1,3) in simp)
  then show ?thesis by blast
qed

text \<open>
  C14. The controller's runs are exactly the behaviours of the TLA+ specification with the same
  audit capacity, for every capacity and while revisions last. Whatever events are applied to
  a new controller, for ever, the states it goes through are a behaviour of \<open>Spec\<close>; all five
  invariants that TLC checks hold in each of them; the behaviour stutters at an event exactly
  when the controller refuses it, and takes a \<open>Next\<close> step otherwise. And each behaviour of
  \<open>Spec\<close> that stays below the end of the revision counter is the behaviour of a new controller
  under some events.
\<close>

theorem controller_runs_are_tla_behaviours:
  assumes "controller_new cap = Inr c"
  shows "(let d = (\<lambda>n. controller_run c (map evs [0 ..< n])); b = (\<lambda>n. abs_controller (d n)) in
      tla_behaviour cap b \<and> (\<forall>n. tla_invariants cap (b n)) \<and>
      (\<forall>n. if is_ok (snd (controller_transition (evs n) (d n))) then tla_next cap (b n) (b (Suc n))
         else b (Suc n) = b n)) \<and>
    (tla_behaviour cap s \<and> (\<forall>n. tla_rev (s n) < 2 ^ 64) \<longrightarrow>
      (\<exists>ws. \<forall>n. abs_controller (controller_run c (map ws [0 ..< n])) = s n))"
proof -
  define d where "d n = controller_run c (map evs [0 ..< n])" for n
  have init: "abs_controller c = tla_init" and cap: "ctl_audit_capacity c = cap" "0 < cap"
    using assms by (auto simp: controller_new_eq abs_controller_def tla_init_def fresh_controller_def
        split: if_splits)
  have wf: "wf_controller (d n)" for n
    using traced_new_run [OF assms] by (auto simp: wf_controller_def d_def)
  have step: "if is_ok (snd (controller_transition (evs n) (d n)))
      then tla_next cap (abs_controller (d n)) (abs_controller (d (Suc n)))
      else abs_controller (d (Suc n)) = abs_controller (d n)" for n
  proof (cases "accepts (d n) (evs n)")
    case True
    then obtain t where t: "transition_target (state_of (d n)) (evs n) = Some t" by (auto simp: accepts_def)
    with tla_next_transition [OF t, of "abs_controller (d n)" cap] True cap show ?thesis
      by (simp add: abs_step [OF wf] transition_ok_iff d_def [of "Suc n"] flip: d_def)
        (simp add: d_def)
  qed (simp add: transition_ok_iff d_def)
  have "tla_behaviour cap (\<lambda>n. abs_controller (d n))"
    unfolding tla_behaviour_def using step init by (simp add: d_def [of 0]) meson
  moreover from this have "tla_invariants cap (abs_controller (d n))" for n
    using tla_behaviour_invariants cap(2) by blast
  moreover have "\<exists>ws. \<forall>n. abs_controller (controller_run c (map ws [0 ..< n])) = s n"
    if "tla_behaviour cap s" "\<forall>n. tla_rev (s n) < 2 ^ 64"
    using behaviour_realised [OF wf_new [OF assms] cap(1), of s] that init by (auto simp: tla_behaviour_def)
  ultimately show ?thesis using step unfolding Let_def d_def by blast
qed

text \<open>A run with a refused event in it, and the behaviour that never does anything.\<close>

theorem controller_runs_are_tla_behaviours_witness:
  "let c = fresh_controller 3; evs = (\<lambda>n. [Start, Drain, Start, Stop] ! min n 3); b = (\<lambda>n. abs_controller (controller_run c (map evs [0 ..< n]))) in
   tla_behaviour 3 b \<and> tla_invariants 3 (b 4) \<and> b 3 = b 2 \<and> tla_state (b 4) = ''stopped'' \<and>
   (\<exists>ws. \<forall>n. abs_controller (controller_run c (map ws [0 ..< n])) = tla_init)"
proof -
  let ?evs = "\<lambda>n. [Start, Drain, Start, Stop] ! min n 3"
  let ?b = "\<lambda>n. abs_controller (controller_run (fresh_controller 3) (map ?evs [0 ..< n]))"
  have new: "controller_new 3 = Inr (fresh_controller 3)" by (simp add: controller_new_eq)
  have "tla_behaviour 3 (\<lambda>_. tla_init)" "tla_rev tla_init < 2 ^ 64"
    by (simp_all add: tla_behaviour_def tla_init_def)
  with controller_runs_are_tla_behaviours [OF new, of ?evs "\<lambda>_. tla_init"]
  have "tla_behaviour 3 ?b \<and> (\<forall>n. tla_invariants 3 (?b n))"
    "\<exists>ws. \<forall>n. abs_controller (controller_run (fresh_controller 3) (map ws [0 ..< n])) = tla_init"
    by (simp_all add: Let_def)
  moreover have "[0 ..< 2] = [0, 1 :: nat]" "[0 ..< 3] = [0, 1, 2 :: nat]" "[0 ..< 4] = [0, 1, 2, 3 :: nat]"
    by (simp_all add: upt_conv_Cons)
  then have "?b 3 = ?b 2 \<and> tla_state (?b 4) = ''stopped''"
    by (simp add: state_step accepts_def revision_step)
  ultimately show ?thesis unfolding Let_def by blast
qed

end
