(* ===== verification/Bounds.thy ===== *)
theory Bounds
  imports Texts
begin

text \<open>
  The limits of \<open>src/bounds.rs\<close>: hard ceilings, the validated \<open>Limits\<close> value and the checks
  of observed sizes against it. The locale \<open>byte_limit\<close> states what the connectors rely on
  when they grow a buffer under such a check; it is interpreted on the four checks of a
  \<open>Limits\<close> value.
\<close>

section \<open>Limits\<close>

definition HARD_MAX_INPUT_BYTES :: nat where "HARD_MAX_INPUT_BYTES = 1024 * 1024"
definition HARD_MAX_REQUEST_BYTES :: nat where "HARD_MAX_REQUEST_BYTES = 2 * 1024 * 1024"
definition HARD_MAX_RESPONSE_BYTES :: nat where "HARD_MAX_RESPONSE_BYTES = 4 * 1024 * 1024"
definition HARD_MAX_OUTPUT_BYTES :: nat where "HARD_MAX_OUTPUT_BYTES = 1024 * 1024"
definition HARD_MAX_TIMEOUT :: duration where "HARD_MAX_TIMEOUT = from_secs 120"

record limits =
  max_input_bytes :: nat
  max_request_bytes :: nat
  max_response_bytes :: nat
  max_output_bytes :: nat
  connect_timeout :: duration
  request_timeout :: duration

datatype bounds_error =
    InvalidSize str
  | InvalidTimeout str
  | InvalidRelationship
  | Exceeded str

definition check_size :: "str \<Rightarrow> nat \<Rightarrow> nat \<Rightarrow> bounds_error + unit" where
  "check_size field value maximum =
     (if value = 0 \<or> value > maximum then Inl (InvalidSize field) else Inr ())"

definition check_timeout :: "str \<Rightarrow> duration \<Rightarrow> bounds_error + unit" where
  "check_timeout field value =
     (if value = 0 \<or> value > HARD_MAX_TIMEOUT then Inl (InvalidTimeout field) else Inr ())"

definition check_observed :: "str \<Rightarrow> nat \<Rightarrow> nat \<Rightarrow> bounds_error + unit" where
  "check_observed field value maximum =
     (if value > maximum then Inl (Exceeded field) else Inr ())"

definition limits_new ::
  "nat \<Rightarrow> nat \<Rightarrow> nat \<Rightarrow> nat \<Rightarrow> duration \<Rightarrow> duration \<Rightarrow> bounds_error + limits" where
  "limits_new input request response output connect overall =
     and_then (check_size ''max_input_bytes'' input HARD_MAX_INPUT_BYTES) (\<lambda>_.
     and_then (check_size ''max_request_bytes'' request HARD_MAX_REQUEST_BYTES) (\<lambda>_.
     and_then (check_size ''max_response_bytes'' response HARD_MAX_RESPONSE_BYTES) (\<lambda>_.
     and_then (check_size ''max_output_bytes'' output HARD_MAX_OUTPUT_BYTES) (\<lambda>_.
     and_then (check_timeout ''connect_timeout'' connect) (\<lambda>_.
     and_then (check_timeout ''request_timeout'' overall) (\<lambda>_.
       if overall < connect then Inl InvalidRelationship
       else Inr \<lparr>max_input_bytes = input, max_request_bytes = request,
                 max_response_bytes = response, max_output_bytes = output,
                 connect_timeout = connect, request_timeout = overall\<rparr>))))))"

definition limits_default :: limits where
  "limits_default =
     \<lparr>max_input_bytes = 128 * 1024, max_request_bytes = 256 * 1024,
      max_response_bytes = 1024 * 1024, max_output_bytes = 128 * 1024,
      connect_timeout = from_secs 5, request_timeout = from_secs 45\<rparr>"

definition check_input :: "limits \<Rightarrow> nat \<Rightarrow> bounds_error + unit" where
  "check_input l n = check_observed ''input'' n (max_input_bytes l)"

definition check_request :: "limits \<Rightarrow> nat \<Rightarrow> bounds_error + unit" where
  "check_request l n = check_observed ''request'' n (max_request_bytes l)"

definition check_response :: "limits \<Rightarrow> nat \<Rightarrow> bounds_error + unit" where
  "check_response l n = check_observed ''response'' n (max_response_bytes l)"

definition check_output :: "limits \<Rightarrow> nat \<Rightarrow> bounds_error + unit" where
  "check_output l n = check_observed ''output'' n (max_output_bytes l)"

section \<open>Growing a buffer under a limit\<close>

definition bounded_extend ::
  "(nat \<Rightarrow> 'e + unit) \<Rightarrow> 'e \<Rightarrow> 'a list \<Rightarrow> 'a list \<Rightarrow> 'e + 'a list" where
  "bounded_extend check over buf piece =
     and_then (ok_or over (checked_add_usize (length buf) (length piece))) (\<lambda>next_len.
     and_then (check next_len) (\<lambda>_. Inr (buf @ piece)))"

locale byte_limit =
  fixes check :: "nat \<Rightarrow> 'e + unit"
    and cap :: nat
    and over :: 'e
  assumes check_eq: "check n = (if n \<le> cap then Inr () else Inl over)"
begin

lemma check_ok [simp]: "check n = Inr u \<longleftrightarrow> n \<le> cap"
  by (simp add: check_eq)

lemma extend_eq:
  "bounded_extend check over buf piece =
     (let n = length buf + length piece
      in if n \<le> cap \<and> n < usize_limit then Inr (buf @ piece) else Inl over)"
  by (simp add: bounded_extend_def checked_add_usize_def check_eq Let_def)

lemma extend_all_eq:
  "length buf \<le> cap \<Longrightarrow> length buf < usize_limit \<Longrightarrow>
     try_fold (bounded_extend check over) buf pieces =
       (let out = buf @ concat pieces
        in if length out \<le> cap \<and> length out < usize_limit then Inr out else Inl over)"
proof (induction pieces arbitrary: buf)
  case (Cons p ps)
  show ?case
  proof (cases "length (buf @ p) \<le> cap \<and> length (buf @ p) < usize_limit")
    case True
    with Cons.IH [of "buf @ p"] show ?thesis by (simp add: extend_eq Let_def)
  next
    case False
    then show ?thesis by (auto simp: extend_eq Let_def)
  qed
qed (simp add: Let_def)

lemma extend_all_bounded:
  "try_fold (bounded_extend check over) [] pieces = Inr out \<Longrightarrow>
     out = concat pieces \<and> length out \<le> cap"
  by (cases pieces)
    (auto simp: extend_all_eq extend_eq Let_def usize_limit_def split: if_splits sum.splits)

end

lemma check_observed_eq:
  "check_observed f n m = (if n \<le> m then Inr () else Inl (Exceeded f))"
  by (simp add: check_observed_def)

interpretation input_limit: byte_limit "check_input l" "max_input_bytes l" "Exceeded ''input''" for l
  by unfold_locales (simp add: check_input_def check_observed_eq)

interpretation request_limit: byte_limit "check_request l" "max_request_bytes l" "Exceeded ''request''" for l
  by unfold_locales (simp add: check_request_def check_observed_eq)

interpretation response_limit: byte_limit "check_response l" "max_response_bytes l" "Exceeded ''response''" for l
  by unfold_locales (simp add: check_response_def check_observed_eq)

interpretation output_limit: byte_limit "check_output l" "max_output_bytes l" "Exceeded ''output''" for l
  by unfold_locales (simp add: check_output_def check_observed_eq)

section \<open>Validated limits\<close>

definition valid_limits :: "limits \<Rightarrow> bool" where
  "valid_limits l \<longleftrightarrow>
     0 < max_input_bytes l \<and> max_input_bytes l \<le> HARD_MAX_INPUT_BYTES \<and>
     0 < max_request_bytes l \<and> max_request_bytes l \<le> HARD_MAX_REQUEST_BYTES \<and>
     0 < max_response_bytes l \<and> max_response_bytes l \<le> HARD_MAX_RESPONSE_BYTES \<and>
     0 < max_output_bytes l \<and> max_output_bytes l \<le> HARD_MAX_OUTPUT_BYTES \<and>
     0 < connect_timeout l \<and> connect_timeout l \<le> request_timeout l \<and>
     request_timeout l \<le> HARD_MAX_TIMEOUT"

lemma check_size_ok [simp]: "check_size f v m = Inr u \<longleftrightarrow> 0 < v \<and> v \<le> m"
  by (auto simp: check_size_def)

lemma check_timeout_ok [simp]: "check_timeout f v = Inr u \<longleftrightarrow> 0 < v \<and> v \<le> HARD_MAX_TIMEOUT"
  by (auto simp: check_timeout_def)

lemma limits_defaults_valid: "valid_limits limits_default"
  by (simp add: valid_limits_def limits_default_def HARD_MAX_INPUT_BYTES_def HARD_MAX_REQUEST_BYTES_def
      HARD_MAX_RESPONSE_BYTES_def HARD_MAX_OUTPUT_BYTES_def HARD_MAX_TIMEOUT_def from_secs_def)

text \<open>
  \<open>Limits::new\<close> is sound and complete: it returns a value exactly when every size and
  timeout is inside its hard ceiling and the request timeout covers the connect timeout, the
  value is the one asked for, and each rejection names a field that is really at fault.
\<close>

theorem limits_new_correct:
  "(case limits_new i r s o' c t of
      Inr l \<Rightarrow> valid_limits l \<and>
        l = \<lparr>max_input_bytes = i, max_request_bytes = r, max_response_bytes = s,
             max_output_bytes = o', connect_timeout = c, request_timeout = t\<rparr>
    | Inl e \<Rightarrow>
        \<not> valid_limits \<lparr>max_input_bytes = i, max_request_bytes = r, max_response_bytes = s,
             max_output_bytes = o', connect_timeout = c, request_timeout = t\<rparr> \<and>
        (e = InvalidSize ''max_input_bytes'' \<and> (i = 0 \<or> HARD_MAX_INPUT_BYTES < i) \<or>
         e = InvalidSize ''max_request_bytes'' \<and> (r = 0 \<or> HARD_MAX_REQUEST_BYTES < r) \<or>
         e = InvalidSize ''max_response_bytes'' \<and> (s = 0 \<or> HARD_MAX_RESPONSE_BYTES < s) \<or>
         e = InvalidSize ''max_output_bytes'' \<and> (o' = 0 \<or> HARD_MAX_OUTPUT_BYTES < o') \<or>
         e = InvalidTimeout ''connect_timeout'' \<and> (c = 0 \<or> HARD_MAX_TIMEOUT < c) \<or>
         e = InvalidTimeout ''request_timeout'' \<and> (t = 0 \<or> HARD_MAX_TIMEOUT < t) \<or>
         e = InvalidRelationship \<and> t < c))"
  by (simp add: limits_new_def check_size_def check_timeout_def valid_limits_def)

end
