(* ===== verification/Redaction.thy ===== *)
theory Redaction
  imports Texts
begin

text \<open>
  Secrets and the sensitive-key test of \<open>src/redaction.rs\<close>.
\<close>

definition MAX_SECRET_BYTES :: nat where "MAX_SECRET_BYTES = 4096"

definition REDACTED :: str where "REDACTED = ''[REDACTED]''"

datatype secret = Secret (expose: str)

datatype secret_error = SecretError

definition secret_new :: "str \<Rightarrow> secret_error + secret" where
  "secret_new value =
     (if value = [] \<or> length value > MAX_SECRET_BYTES \<or> has_control value then Inl SecretError
      else Inr (Secret value))"

text \<open>\<open>debug_tuple("Secret").field(&REDACTED)\<close> and \<open>write_str(REDACTED)\<close>.\<close>

definition secret_debug :: "secret \<Rightarrow> str" where
  "secret_debug s = ''Secret('' @ [CHR 0x22] @ REDACTED @ [CHR 0x22] @ '')''"

definition secret_display :: "secret \<Rightarrow> str" where
  "secret_display s = REDACTED"

definition sensitive_needles :: "str list" where
  "sensitive_needles =
     [''api_key'', ''apikey'', ''authorization'', ''bearer'', ''cookie'', ''credential'', ''email'',
      ''jwt'', ''passphrase'', ''passwd'', ''password'', ''private_key'', ''pwd'', ''secret'',
      ''session'', ''signing_key'', ''token'']"

definition replace_separator :: "char \<Rightarrow> char" where
  "replace_separator c = (if c = CHR ''-'' \<or> c = CHR ''.'' then CHR ''_'' else c)"

definition normalized_key :: "str \<Rightarrow> str" where
  "normalized_key key = map replace_separator (to_ascii_lowercase key)"

definition is_sensitive_key :: "str \<Rightarrow> bool" where
  "is_sensitive_key key = list_ex (\<lambda>needle. contains (normalized_key key) needle) sensitive_needles"

section \<open>Facts\<close>

lemma secret_new_Ok:
  "secret_new v = Inr s \<longleftrightarrow>
     s = Secret v \<and> v \<noteq> [] \<and> length v \<le> MAX_SECRET_BYTES \<and> \<not> has_control v"
  by (auto simp: secret_new_def)

lemma normalized_key_append: "normalized_key (u @ v) = normalized_key u @ normalized_key v"
  by (simp add: normalized_key_def)

lemma normalized_byte_idem:
  "replace_separator (to_lower_byte (replace_separator (to_lower_byte c))) =
     replace_separator (to_lower_byte c)"
proof (cases "to_lower_byte c = CHR ''-'' \<or> to_lower_byte c = CHR ''.''")
  case True
  then show ?thesis by (auto simp: replace_separator_def to_lower_byte_def byte_of_def)
next
  case False
  then show ?thesis by (simp add: replace_separator_def)
qed

lemma normalized_key_idem [simp]: "normalized_key (normalized_key k) = normalized_key k"
  by (simp add: normalized_key_def to_ascii_lowercase_def normalized_byte_idem)

text \<open>
  The deny-list cannot be evaded by spelling or context: a key is classified as its
  lower-case form with dashes and dots written as underscores is, every needle in any such
  spelling is sensitive, and embedding a sensitive key in a longer key keeps it sensitive.
\<close>

theorem sensitive_key_robust:
  "(is_sensitive_key key \<longleftrightarrow> is_sensitive_key (normalized_key key)) \<and>
   (list_ex (\<lambda>needle. normalized_key key = needle) sensitive_needles \<longrightarrow> is_sensitive_key key) \<and>
   (is_sensitive_key key \<longrightarrow> is_sensitive_key (before @ key @ after))"
proof (intro conjI impI)
  show "is_sensitive_key key \<longleftrightarrow> is_sensitive_key (normalized_key key)"
    by (simp add: is_sensitive_key_def)
  assume "list_ex (\<lambda>needle. normalized_key key = needle) sensitive_needles"
  then have "normalized_key key \<in> set sensitive_needles" by (auto simp: list_ex_iff)
  moreover have "contains (normalized_key key) (normalized_key key)"
    by (auto simp: contains_iff intro: exI [of _ "[]"])
  ultimately show "is_sensitive_key key" by (auto simp: is_sensitive_key_def list_ex_iff)
next
  assume "is_sensitive_key key"
  then show "is_sensitive_key (before @ key @ after)"
    by (auto simp: is_sensitive_key_def list_ex_iff normalized_key_append
        intro: contains_trans_append)
qed

theorem sensitive_key_robust_witness:
  "is_sensitive_key ''API-Key'' \<and> is_sensitive_key (''http.'' @ ''API-Key'' @ ''.value'')"
proof -
  have "list_ex (\<lambda>needle. normalized_key ''API-Key'' = needle) sensitive_needles"
    by code_simp
  with sensitive_key_robust [of "''API-Key''" "''http.''" "''.value''"] show ?thesis by blast
qed

end
