(* ===== verification/Ai_Core.thy ===== *)
theory Ai_Core
  imports Bounds Redaction
begin

text \<open>
  The provider-neutral part of \<open>src/ai/mod.rs\<close>: the closed evidence vocabulary with its
  validating builders, model identifiers, provider settings, bounded requests, responses,
  the error types, and \<open>collect_output\<close>.
\<close>

section \<open>Closed vocabularies\<close>

datatype provider_kind = OpenAi | Anthropic | Gemini

definition ALL_PROVIDERS :: "provider_kind list" where
  "ALL_PROVIDERS = [OpenAi, Anthropic, Gemini]"

fun provider_as_str :: "provider_kind \<Rightarrow> str" where
  "provider_as_str OpenAi = ''openai''"
| "provider_as_str Anthropic = ''anthropic''"
| "provider_as_str Gemini = ''gemini''"

fun env_variable_names :: "provider_kind \<Rightarrow> str \<times> str" where
  "env_variable_names OpenAi = (''OPENAI_API_KEY'', ''OPENAI_MODEL'')"
| "env_variable_names Anthropic = (''ANTHROPIC_API_KEY'', ''ANTHROPIC_MODEL'')"
| "env_variable_names Gemini = (''GEMINI_API_KEY'', ''GEMINI_MODEL'')"

datatype provider_state =
  ProviderReady | MissingApiKey | MissingModel | MissingBoth | InvalidConfiguration

datatype runtime_component =
  McpRuntime | ConfigurationComponent | AiConnector | TelemetryExporter | UpstreamDependency

datatype evidence_transport = Stdio | Http | Tcp | Websocket | Internal

datatype runtime_symptom =
    StartupFailure | ReadinessDegraded | RequestRejected | TimeoutSymptom | ConnectionFailure
  | ProtocolError | RateLimited | ExportFailure | UnexpectedResponse | HighLatency

datatype runtime_outcome =
  Success | DegradedOutcome | Rejected | ErrorOutcome | Unavailable | TimeoutOutcome

section \<open>Evidence\<close>

definition MAX_EVIDENCE_OBSERVATIONS :: nat where "MAX_EVIDENCE_OBSERVATIONS = 32"
definition MAX_OBSERVATION_COUNT :: u32 where "MAX_OBSERVATION_COUNT = 1000000"
definition MAX_CONSECUTIVE_FAILURES :: u32 where "MAX_CONSECUTIVE_FAILURES = 10000"
definition MAX_LATENCY_MS :: u32 where "MAX_LATENCY_MS = 120000"

record runtime_evidence =
  ev_component :: runtime_component
  ev_transport :: evidence_transport
  ev_symptom :: runtime_symptom
  ev_outcome :: runtime_outcome
  ev_provider :: "provider_kind option"
  ev_provider_state :: "provider_state option"
  ev_http_status :: "u16 option"
  ev_observation_count :: "u32 option"
  ev_consecutive_failures :: "u32 option"
  ev_latency_ms :: "u32 option"

datatype evidence_error =
  InvalidObservationCount | InvalidHttpStatus | InvalidConsecutiveFailures | InvalidLatency

definition evidence_new ::
  "runtime_component \<Rightarrow> evidence_transport \<Rightarrow> runtime_symptom \<Rightarrow> runtime_outcome \<Rightarrow> runtime_evidence" where
  "evidence_new component transport symptom outcome =
     \<lparr>ev_component = component, ev_transport = transport, ev_symptom = symptom, ev_outcome = outcome,
      ev_provider = None, ev_provider_state = None, ev_http_status = None,
      ev_observation_count = None, ev_consecutive_failures = None, ev_latency_ms = None\<rparr>"

definition with_evidence_provider ::
  "provider_kind \<Rightarrow> provider_state \<Rightarrow> runtime_evidence \<Rightarrow> runtime_evidence" where
  "with_evidence_provider provider state ev =
     ev\<lparr>ev_provider := Some provider, ev_provider_state := Some state\<rparr>"

definition with_http_status :: "u16 \<Rightarrow> runtime_evidence \<Rightarrow> evidence_error + runtime_evidence" where
  "with_http_status value ev =
     (if \<not> (100 \<le> value \<and> value \<le> 599) then Inl InvalidHttpStatus
      else Inr (ev\<lparr>ev_http_status := Some value\<rparr>))"

definition with_observation_count :: "u32 \<Rightarrow> runtime_evidence \<Rightarrow> evidence_error + runtime_evidence" where
  "with_observation_count value ev =
     (if value = 0 \<or> value > MAX_OBSERVATION_COUNT then Inl InvalidObservationCount
      else Inr (ev\<lparr>ev_observation_count := Some value\<rparr>))"

definition with_consecutive_failures :: "u32 \<Rightarrow> runtime_evidence \<Rightarrow> evidence_error + runtime_evidence" where
  "with_consecutive_failures value ev =
     (if value > MAX_CONSECUTIVE_FAILURES then Inl InvalidConsecutiveFailures
      else Inr (ev\<lparr>ev_consecutive_failures := Some value\<rparr>))"

definition with_latency_ms :: "u32 \<Rightarrow> runtime_evidence \<Rightarrow> evidence_error + runtime_evidence" where
  "with_latency_ms value ev =
     (if value > MAX_LATENCY_MS then Inl InvalidLatency
      else Inr (ev\<lparr>ev_latency_ms := Some value\<rparr>))"

record advisory_evidence =
  adv_schema_version :: str
  adv_observations :: "runtime_evidence list"

definition advisory_evidence_new :: "runtime_evidence list \<Rightarrow> evidence_error + advisory_evidence" where
  "advisory_evidence_new observations =
     (if observations = [] \<or> length observations > MAX_EVIDENCE_OBSERVATIONS
      then Inl InvalidObservationCount
      else Inr \<lparr>adv_schema_version = ''ores.runtime-evidence.v1'', adv_observations = observations\<rparr>)"

section \<open>Serialised evidence\<close>

text \<open>
  The JSON value that the \<open>Serialize\<close> attributes of the evidence types describe: camel-case
  field names in declaration order, absent options skipped, enum variants as snake-case
  strings. Turning a JSON value into text is \<open>serde_json\<close>'s, a parameter of later theories.
\<close>

datatype json =
    JBool bool
  | JNum nat
  | JStr str
  | JArr "json list"
  | JObj "(str \<times> json) list"

fun component_name :: "runtime_component \<Rightarrow> str" where
  "component_name McpRuntime = ''mcp_runtime''"
| "component_name ConfigurationComponent = ''configuration''"
| "component_name AiConnector = ''ai_connector''"
| "component_name TelemetryExporter = ''telemetry_exporter''"
| "component_name UpstreamDependency = ''upstream_dependency''"

fun transport_name :: "evidence_transport \<Rightarrow> str" where
  "transport_name Stdio = ''stdio''"
| "transport_name Http = ''http''"
| "transport_name Tcp = ''tcp''"
| "transport_name Websocket = ''websocket''"
| "transport_name Internal = ''internal''"

fun symptom_name :: "runtime_symptom \<Rightarrow> str" where
  "symptom_name StartupFailure = ''startup_failure''"
| "symptom_name ReadinessDegraded = ''readiness_degraded''"
| "symptom_name RequestRejected = ''request_rejected''"
| "symptom_name TimeoutSymptom = ''timeout''"
| "symptom_name ConnectionFailure = ''connection_failure''"
| "symptom_name ProtocolError = ''protocol_error''"
| "symptom_name RateLimited = ''rate_limited''"
| "symptom_name ExportFailure = ''export_failure''"
| "symptom_name UnexpectedResponse = ''unexpected_response''"
| "symptom_name HighLatency = ''high_latency''"

fun outcome_name :: "runtime_outcome \<Rightarrow> str" where
  "outcome_name Success = ''success''"
| "outcome_name DegradedOutcome = ''degraded''"
| "outcome_name Rejected = ''rejected''"
| "outcome_name ErrorOutcome = ''error''"
| "outcome_name Unavailable = ''unavailable''"
| "outcome_name TimeoutOutcome = ''timeout''"

text \<open>\<open>rename_all = "snake_case"\<close> turns \<open>OpenAi\<close> into \<open>open_ai\<close>, unlike \<open>as_str\<close>.\<close>

fun provider_name :: "provider_kind \<Rightarrow> str" where
  "provider_name OpenAi = ''open_ai''"
| "provider_name Anthropic = ''anthropic''"
| "provider_name Gemini = ''gemini''"

fun provider_state_name :: "provider_state \<Rightarrow> str" where
  "provider_state_name ProviderReady = ''ready''"
| "provider_state_name MissingApiKey = ''missing_api_key''"
| "provider_state_name MissingModel = ''missing_model''"
| "provider_state_name MissingBoth = ''missing_both''"
| "provider_state_name InvalidConfiguration = ''invalid_configuration''"

definition optional_field :: "str \<Rightarrow> ('a \<Rightarrow> json) \<Rightarrow> 'a option \<Rightarrow> (str \<times> json) list" where
  "optional_field name f x = (case x of None \<Rightarrow> [] | Some v \<Rightarrow> [(name, f v)])"

definition evidence_json :: "runtime_evidence \<Rightarrow> json" where
  "evidence_json ev = JObj
     ([(''component'', JStr (component_name (ev_component ev))),
       (''transport'', JStr (transport_name (ev_transport ev))),
       (''symptom'', JStr (symptom_name (ev_symptom ev))),
       (''outcome'', JStr (outcome_name (ev_outcome ev)))]
      @ optional_field ''provider'' (\<lambda>p. JStr (provider_name p)) (ev_provider ev)
      @ optional_field ''providerState'' (\<lambda>s. JStr (provider_state_name s)) (ev_provider_state ev)
      @ optional_field ''httpStatus'' (\<lambda>n. JNum (unat n)) (ev_http_status ev)
      @ optional_field ''observationCount'' (\<lambda>n. JNum (unat n)) (ev_observation_count ev)
      @ optional_field ''consecutiveFailures'' (\<lambda>n. JNum (unat n)) (ev_consecutive_failures ev)
      @ optional_field ''latencyMs'' (\<lambda>n. JNum (unat n)) (ev_latency_ms ev))"

definition advisory_evidence_json :: "advisory_evidence \<Rightarrow> json" where
  "advisory_evidence_json adv = JObj
     [(''schemaVersion'', JStr (adv_schema_version adv)),
      (''observations'', JArr (map evidence_json (adv_observations adv)))]"

section \<open>Model identifiers, settings, requests, responses\<close>

definition MAX_MODEL_ID_BYTES :: nat where "MAX_MODEL_ID_BYTES = 128"
definition DEFAULT_MAX_OUTPUT_TOKENS :: u32 where "DEFAULT_MAX_OUTPUT_TOKENS = 2048"
definition HARD_MAX_OUTPUT_TOKENS :: u32 where "HARD_MAX_OUTPUT_TOKENS = 8192"

datatype model_id = ModelId (model_as_str: str)

datatype model_id_error = ModelIdError

definition model_byte :: "char \<Rightarrow> bool" where
  "model_byte c \<longleftrightarrow> is_ascii_alphanumeric c \<or> c = CHR ''.'' \<or> c = CHR ''_'' \<or> c = CHR ''-''"

definition model_id_new :: "str \<Rightarrow> model_id_error + model_id" where
  "model_id_new value =
     (if value = [] \<or> length value > MAX_MODEL_ID_BYTES \<or> \<not> list_all model_byte value
      then Inl ModelIdError else Inr (ModelId value))"

record provider_settings =
  set_api_key :: secret
  set_model :: model_id

record ai_request =
  req_instructions :: str
  req_input :: str
  req_max_output_tokens :: u32

datatype ai_request_error = EmptyInput | RequestBounds bounds_error | InvalidOutputTokens

definition ai_request_new :: "str \<Rightarrow> str \<Rightarrow> limits \<Rightarrow> ai_request_error + ai_request" where
  "ai_request_new instructions input l =
     (if trim input = [] then Inl EmptyInput
      else and_then
        (ok_or (RequestBounds (Exceeded ''input''))
           (checked_add_usize (length instructions) (length input))) (\<lambda>combined.
        and_then (map_err RequestBounds (check_input l combined)) (\<lambda>_.
          Inr \<lparr>req_instructions = instructions, req_input = input,
               req_max_output_tokens = DEFAULT_MAX_OUTPUT_TOKENS\<rparr>)))"

definition with_max_output_tokens :: "u32 \<Rightarrow> ai_request \<Rightarrow> ai_request_error + ai_request" where
  "with_max_output_tokens value req =
     (if value = 0 \<or> value > HARD_MAX_OUTPUT_TOKENS then Inl InvalidOutputTokens
      else Inr (req\<lparr>req_max_output_tokens := value\<rparr>))"

record ai_response =
  resp_provider :: provider_kind
  resp_model :: model_id
  resp_text :: str

datatype provider_error =
    Configuration
  | Serialization
  | ProviderBounds bounds_error
  | ProviderTimeout
  | Connection
  | TransportFailure
  | HttpStatus u16
  | MalformedResponse
  | EmptyResponse
  | RejectedResponse
  | IncompleteResponse
  | UnsupportedResponse

section \<open>Output collection\<close>

definition collect_step :: "limits \<Rightarrow> str \<Rightarrow> str \<Rightarrow> provider_error + str" where
  "collect_step l output part =
     (let separator = (if output \<noteq> [] then 1 else 0)
      in and_then
           (ok_or (ProviderBounds (Exceeded ''output''))
              (Option.bind (checked_add_usize (length output) separator)
                 (\<lambda>value. checked_add_usize value (length part)))) (\<lambda>next_len.
         and_then (map_err ProviderBounds (check_output l next_len)) (\<lambda>_.
           Inr (if separator = 1 then output @ [CHR 0x0A] @ part else output @ part))))"

definition collect_output :: "str list \<Rightarrow> limits \<Rightarrow> provider_error + str" where
  "collect_output parts l =
     and_then (try_fold (collect_step l) [] (filter (\<lambda>part. trim part \<noteq> []) parts)) (\<lambda>output.
       if output = [] then Inl EmptyResponse else Inr output)"

end
