(* ===== verification/Ai_Laws.thy ===== *)
theory Ai_Laws
  imports Ai_Core
begin

text \<open>
  What the provider-neutral part of \<open>src/ai/mod.rs\<close> guarantees: evidence stays in its closed
  vocabulary and ranges, requests and model identifiers are validated, and \<open>collect_output\<close>
  is the bounded join it means to be.
\<close>

section \<open>Evidence\<close>

text \<open>An observation, as the public API can build one.\<close>

inductive built_evidence :: "runtime_evidence \<Rightarrow> bool" where
  new: "built_evidence (evidence_new c t s oc)"
| provider: "built_evidence ev \<Longrightarrow> built_evidence (with_evidence_provider p st ev)"
| http_status: "built_evidence ev \<Longrightarrow> with_http_status v ev = Inr ev' \<Longrightarrow> built_evidence ev'"
| observation_count: "built_evidence ev \<Longrightarrow> with_observation_count n ev = Inr ev' \<Longrightarrow> built_evidence ev'"
| consecutive_failures: "built_evidence ev \<Longrightarrow> with_consecutive_failures n ev = Inr ev' \<Longrightarrow> built_evidence ev'"
| latency_ms: "built_evidence ev \<Longrightarrow> with_latency_ms n ev = Inr ev' \<Longrightarrow> built_evidence ev'"

definition option_all :: "('a \<Rightarrow> bool) \<Rightarrow> 'a option \<Rightarrow> bool" where
  "option_all P x = (case x of None \<Rightarrow> True | Some v \<Rightarrow> P v)"

lemma option_all_simps [simp]: "option_all P None" "option_all P (Some v) = P v"
  by (simp_all add: option_all_def)

definition evidence_in_range :: "runtime_evidence \<Rightarrow> bool" where
  "evidence_in_range ev \<longleftrightarrow>
     (ev_provider ev = None \<longleftrightarrow> ev_provider_state ev = None) \<and>
     option_all (\<lambda>v. 100 \<le> unat v \<and> unat v \<le> 599) (ev_http_status ev) \<and>
     option_all (\<lambda>n. 1 \<le> unat n \<and> unat n \<le> 1000000) (ev_observation_count ev) \<and>
     option_all (\<lambda>n. unat n \<le> 10000) (ev_consecutive_failures ev) \<and>
     option_all (\<lambda>n. unat n \<le> 120000) (ev_latency_ms ev)"

lemma u16_between: "(100 :: u16) \<le> v \<Longrightarrow> v \<le> 599 \<Longrightarrow> 100 \<le> unat v \<and> unat v \<le> 599"
  by (simp add: word_le_nat_alt)

lemma built_evidence_in_range: "built_evidence ev \<Longrightarrow> evidence_in_range ev"
proof (induction rule: built_evidence.induct)
  case (new c t s oc)
  show ?case by (simp add: evidence_in_range_def evidence_new_def)
next
  case (provider ev p st)
  then show ?case by (simp add: evidence_in_range_def with_evidence_provider_def)
next
  case (http_status ev v ev')
  then show ?case
    by (auto simp: evidence_in_range_def with_http_status_def u16_between split: if_splits)
next
  case (observation_count ev n ev')
  then have "n \<noteq> 0" "unat n \<le> 1000000" and e: "ev' = ev\<lparr>ev_observation_count := Some n\<rparr>"
    by (auto simp: with_observation_count_def MAX_OBSERVATION_COUNT_def word_le_nat_alt not_less
        split: if_splits)
  then have "1 \<le> unat n" by (simp add: Suc_le_eq unat_gt_0)
  with \<open>unat n \<le> 1000000\<close> observation_count.IH show ?case
    by (simp add: evidence_in_range_def e)
next
  case (consecutive_failures ev n ev')
  then show ?case
    by (auto simp: evidence_in_range_def with_consecutive_failures_def MAX_CONSECUTIVE_FAILURES_def
        word_le_nat_alt not_less split: if_splits)
next
  case (latency_ms ev n ev')
  then show ?case
    by (auto simp: evidence_in_range_def with_latency_ms_def MAX_LATENCY_MS_def
        word_le_nat_alt not_less split: if_splits)
qed

fun json_strings :: "json \<Rightarrow> str list" where
  "json_strings (JBool b) = []"
| "json_strings (JNum n) = []"
| "json_strings (JStr s) = [s]"
| "json_strings (JArr xs) = concat (map json_strings xs)"
| "json_strings (JObj fs) = concat (map (\<lambda>f. json_strings (snd f)) fs)"

definition evidence_vocabulary :: "str list" where
  "evidence_vocabulary =
     [''mcp_runtime'', ''configuration'', ''ai_connector'', ''telemetry_exporter'', ''upstream_dependency'',
      ''stdio'', ''http'', ''tcp'', ''websocket'', ''internal'',
      ''startup_failure'', ''readiness_degraded'', ''request_rejected'', ''timeout'',
      ''connection_failure'', ''protocol_error'', ''rate_limited'', ''export_failure'',
      ''unexpected_response'', ''high_latency'',
      ''success'', ''degraded'', ''rejected'', ''error'', ''unavailable'',
      ''open_ai'', ''anthropic'', ''gemini'',
      ''ready'', ''missing_api_key'', ''missing_model'', ''missing_both'', ''invalid_configuration'',
      ''ores.runtime-evidence.v1'']"

lemma component_name_in_vocabulary: "component_name c \<in> set evidence_vocabulary"
  by (cases c) (simp_all add: evidence_vocabulary_def)

lemma transport_name_in_vocabulary: "transport_name t \<in> set evidence_vocabulary"
  by (cases t) (simp_all add: evidence_vocabulary_def)

lemma symptom_name_in_vocabulary: "symptom_name s \<in> set evidence_vocabulary"
  by (cases s) (simp_all add: evidence_vocabulary_def)

lemma outcome_name_in_vocabulary: "outcome_name oc \<in> set evidence_vocabulary"
  by (cases oc) (simp_all add: evidence_vocabulary_def)

lemma provider_name_in_vocabulary: "provider_name p \<in> set evidence_vocabulary"
  by (cases p) (simp_all add: evidence_vocabulary_def)

lemma provider_state_name_in_vocabulary: "provider_state_name st \<in> set evidence_vocabulary"
  by (cases st) (simp_all add: evidence_vocabulary_def)

lemmas names_in_vocabulary =
  component_name_in_vocabulary
  transport_name_in_vocabulary
  symptom_name_in_vocabulary
  outcome_name_in_vocabulary
  provider_name_in_vocabulary
  provider_state_name_in_vocabulary

lemma optional_field_strings:
  "(\<And>v. set (json_strings (f v)) \<subseteq> V) \<Longrightarrow>
     set (concat (map (\<lambda>g. json_strings (snd g)) (optional_field n f x))) \<subseteq> V"
  by (cases x) (auto simp: optional_field_def)

lemma evidence_json_strings: "set (json_strings (evidence_json ev)) \<subseteq> set evidence_vocabulary"
proof -
  have "set (concat (map (\<lambda>g. json_strings (snd g)) (optional_field n f x))) \<subseteq> set evidence_vocabulary"
    if "\<And>v. set (json_strings (f v)) \<subseteq> set evidence_vocabulary" for n and f :: "'x \<Rightarrow> json" and x
    using that by (rule optional_field_strings)
  then show ?thesis
    by (simp add: evidence_json_def names_in_vocabulary optional_field_strings del: set_concat)
qed

text \<open>
  Evidence has no free text: every observation the API can build has all its numbers in
  the documented ranges, and every string in the JSON sent to a provider is one of the
  thirty-four words of the closed vocabulary, whatever the observations are.
\<close>

theorem evidence_is_closed:
  assumes "\<forall>ev \<in> set obs. built_evidence ev" and "advisory_evidence_new obs = Inr adv"
  shows "1 \<le> length (adv_observations adv) \<and> length (adv_observations adv) \<le> 32 \<and>
         (\<forall>ev \<in> set (adv_observations adv). evidence_in_range ev) \<and>
         set (json_strings (advisory_evidence_json adv)) \<subseteq> set evidence_vocabulary"
proof -
  from assms(2) have a: "adv = \<lparr>adv_schema_version = ''ores.runtime-evidence.v1'', adv_observations = obs\<rparr>"
    and n: "1 \<le> length obs" "length obs \<le> 32"
    by (auto simp: advisory_evidence_new_def MAX_EVIDENCE_OBSERVATIONS_def Suc_le_eq split: if_splits)
  have "''ores.runtime-evidence.v1'' \<in> set evidence_vocabulary" by (simp add: evidence_vocabulary_def)
  moreover have "(\<Union>ev \<in> set obs. set (json_strings (evidence_json ev))) \<subseteq> set evidence_vocabulary"
    using evidence_json_strings by blast
  ultimately have "set (json_strings (advisory_evidence_json adv)) \<subseteq> set evidence_vocabulary"
    by (simp add: a advisory_evidence_json_def)
  with n assms(1) built_evidence_in_range show ?thesis by (simp add: a)
qed

theorem evidence_is_closed_witness:
  "let ev = evidence_new AiConnector Internal TimeoutSymptom ErrorOutcome;
       adv = \<lparr>adv_schema_version = ''ores.runtime-evidence.v1'', adv_observations = [ev]\<rparr>
   in 1 \<le> length (adv_observations adv) \<and> length (adv_observations adv) \<le> 32 \<and>
      (\<forall>ev \<in> set (adv_observations adv). evidence_in_range ev) \<and>
      set (json_strings (advisory_evidence_json adv)) \<subseteq> set evidence_vocabulary"
  unfolding Let_def
  by (rule evidence_is_closed [where obs = "[evidence_new AiConnector Internal TimeoutSymptom ErrorOutcome]"])
    (auto simp: advisory_evidence_new_def MAX_EVIDENCE_OBSERVATIONS_def intro: built_evidence.new)

section \<open>Model identifiers and requests\<close>

lemma model_id_new_Ok:
  "model_id_new v = Inr m \<longleftrightarrow> m = ModelId v \<and> v \<noteq> [] \<and> length v \<le> 128 \<and> (\<forall>c \<in> set v. model_byte c)"
  by (auto simp: model_id_new_def MAX_MODEL_ID_BYTES_def list_all_iff)

lemma model_byte_ascii: "model_byte c \<Longrightarrow> byte_of c < 128"
  by (auto simp: model_byte_def is_ascii_alphanumeric_def is_ascii_digit_def byte_of_def)

text \<open>
  A request is built exactly for input that is not all whitespace and whose size
  together with the instructions is within the configured limit; the text is carried over
  unchanged, the token limit starts at 2048, and changing it never leaves 1 to 8192.
\<close>

theorem ai_request_bounds:
  assumes "valid_limits l"
  shows "(ai_request_new instr inp l =
            (if \<forall>n \<in> set (chars inp). is_whitespace n then Inl EmptyInput
             else if length instr + length inp \<le> max_input_bytes l
             then Inr \<lparr>req_instructions = instr, req_input = inp, req_max_output_tokens = 2048\<rparr>
             else Inl (RequestBounds (Exceeded ''input'')))) \<and>
         (with_max_output_tokens v req = Inr req' \<longrightarrow>
            1 \<le> unat (req_max_output_tokens req') \<and> unat (req_max_output_tokens req') \<le> 8192 \<and>
            req_input req' = req_input req \<and> req_instructions req' = req_instructions req)"
proof
  have "max_input_bytes l < usize_limit"
    using assms by (simp add: valid_limits_def HARD_MAX_INPUT_BYTES_def usize_limit_def)
  then show "ai_request_new instr inp l =
      (if \<forall>n \<in> set (chars inp). is_whitespace n then Inl EmptyInput
       else if length instr + length inp \<le> max_input_bytes l
       then Inr \<lparr>req_instructions = instr, req_input = inp, req_max_output_tokens = 2048\<rparr>
       else Inl (RequestBounds (Exceeded ''input'')))"
    by (auto simp: ai_request_new_def trim_eq_Nil checked_add_usize_def input_limit.check_eq
        DEFAULT_MAX_OUTPUT_TOKENS_def)
  show "with_max_output_tokens v req = Inr req' \<longrightarrow>
      1 \<le> unat (req_max_output_tokens req') \<and> unat (req_max_output_tokens req') \<le> 8192 \<and>
      req_input req' = req_input req \<and> req_instructions req' = req_instructions req"
    by (auto simp: with_max_output_tokens_def HARD_MAX_OUTPUT_TOKENS_def word_le_nat_alt not_less
        Suc_le_eq unat_gt_0 split: if_splits)
qed

theorem ai_request_bounds_witness:
  "let req = \<lparr>req_instructions = [], req_input = ''x'', req_max_output_tokens = 2048\<rparr>;
       req' = req\<lparr>req_max_output_tokens := 512\<rparr>
   in ai_request_new ''1234'' ''5678'' limits_default =
        Inr \<lparr>req_instructions = ''1234'', req_input = ''5678'', req_max_output_tokens = 2048\<rparr> \<and>
      with_max_output_tokens 512 req = Inr req' \<and> unat (req_max_output_tokens req') \<le> 8192"
proof -
  let ?req = "\<lparr>req_instructions = [], req_input = ''x'', req_max_output_tokens = 2048 :: u32\<rparr>"
  have t: "with_max_output_tokens 512 ?req = Inr (?req\<lparr>req_max_output_tokens := 512\<rparr>)"
    by (simp add: with_max_output_tokens_def HARD_MAX_OUTPUT_TOKENS_def)
  have "\<not> (\<forall>n \<in> set (chars ''5678''). is_whitespace n)"
    by (simp add: chars_def is_whitespace_def utf8_width_def byte_of_def)
  moreover have "max_input_bytes limits_default = 131072" by (simp add: limits_default_def)
  ultimately show ?thesis
    using ai_request_bounds [OF limits_defaults_valid, of "''1234''" "''5678''" 512 ?req] t
    by (simp add: Let_def)
qed

section \<open>Output collection\<close>

lemma collect_step_extend:
  "collect_step l out part =
     map_err ProviderBounds
       (bounded_extend (check_output l) (Exceeded ''output'') out
          ((if out \<noteq> [] then [CHR 0x0A] else []) @ part))"
  by (auto simp: collect_step_def bounded_extend_def checked_add_usize_def output_limit.check_eq Let_def)

lemma collect_steps_extend:
  "out \<noteq> [] \<Longrightarrow>
     try_fold (collect_step l) out parts =
       map_err ProviderBounds
         (try_fold (bounded_extend (check_output l) (Exceeded ''output'')) out
            (map (\<lambda>p. [CHR 0x0A] @ p) parts))"
proof (induction parts arbitrary: out)
  case (Cons p ps)
  then show ?case
    by (auto simp: collect_step_extend output_limit.extend_eq Let_def)
qed simp

lemma join_with_concat: "join_with d (p # ps) = p @ concat (map (\<lambda>q. d @ q) ps)"
  by (induction ps arbitrary: p) simp_all

lemma collect_output_eq:
  assumes "max_output_bytes l < usize_limit"
  shows "collect_output parts l =
     (let ps = filter (\<lambda>p. trim p \<noteq> []) parts; out = join_with [CHR 0x0A] ps
      in if ps = [] then Inl EmptyResponse
         else if length out \<le> max_output_bytes l then Inr out
         else Inl (ProviderBounds (Exceeded ''output'')))"
proof -
  let ?ps = "filter (\<lambda>p. trim p \<noteq> []) parts"
  show ?thesis
  proof (cases ?ps)
    case Nil
    then show ?thesis by (simp add: collect_output_def)
  next
    case (Cons p qs)
    then have "p \<in> set ?ps" by simp
    then have p: "p \<noteq> []" using trim_nonempty by simp
    let ?out = "join_with [CHR 0x0A] (p # qs)"
    have "try_fold (collect_step l) [] (p # qs) =
        (if length ?out \<le> max_output_bytes l then Inr ?out else Inl (ProviderBounds (Exceeded ''output'')))"
    proof (cases "length p \<le> max_output_bytes l")
      case True
      then have "try_fold (collect_step l) [] (p # qs) = try_fold (collect_step l) p qs"
        using assms by (simp add: collect_step_extend output_limit.extend_eq Let_def)
      also have "\<dots> = (if length ?out \<le> max_output_bytes l then Inr ?out
          else Inl (ProviderBounds (Exceeded ''output'')))"
        using p True assms
        by (simp add: collect_steps_extend output_limit.extend_all_eq Let_def join_with_concat)
      finally show ?thesis .
    next
      case False
      then show ?thesis
        by (simp add: collect_step_extend output_limit.extend_eq Let_def join_with_concat)
    qed
    with Cons p show ?thesis
      by (simp add: collect_output_def Let_def join_with_concat)
  qed
qed

lemma collect_output_Ok:
  assumes "collect_output parts l = Inr t"
  shows "t \<noteq> [] \<and> length t \<le> max_output_bytes l"
proof -
  have inv: "length s' \<le> max_output_bytes l \<or> s' = []"
    if "try_fold (collect_step l) [] ps = Inr s'" for ps s'
    using that
    by (rule try_fold_invariant [where P = "\<lambda>s. length s \<le> max_output_bytes l \<or> s = []"])
      (auto simp: collect_step_extend output_limit.extend_eq Let_def split: if_splits)
  with assms show ?thesis by (auto simp: collect_output_def split: if_splits)
qed

text \<open>
  C30. \<open>collect_output\<close> is exactly a bounded join: blank parts are dropped, the rest are
  joined by newlines, nothing left is \<open>EmptyResponse\<close>, and a join longer than the
  configured output limit is rejected no matter how the parts are cut.
\<close>

theorem collect_output_is_bounded_join:
  assumes "valid_limits l"
  shows "collect_output parts l =
     (let ps = filter (\<lambda>p. \<not> (\<forall>n \<in> set (chars p). is_whitespace n)) parts;
          out = join_with [CHR 0x0A] ps
      in if ps = [] then Inl EmptyResponse
         else if length out \<le> max_output_bytes l then Inr out
         else Inl (ProviderBounds (Exceeded ''output'')))"
proof -
  have "max_output_bytes l < usize_limit"
    using assms by (simp add: valid_limits_def HARD_MAX_OUTPUT_BYTES_def usize_limit_def)
  from collect_output_eq [OF this] show ?thesis by (simp add: trim_eq_Nil)
qed

theorem collect_output_is_bounded_join_witness:
  "collect_output [''ab'', '' '', ''cd''] limits_default =
     (let ps = filter (\<lambda>p. \<not> (\<forall>n \<in> set (chars p). is_whitespace n)) [''ab'', '' '', ''cd''];
          out = join_with [CHR 0x0A] ps
      in if ps = [] then Inl EmptyResponse
         else if length out \<le> max_output_bytes limits_default then Inr out
         else Inl (ProviderBounds (Exceeded ''output'')))"
  by (rule collect_output_is_bounded_join) (rule limits_defaults_valid)

end
