(* ===== verification/Ai_Types.thy ===== *)
theory Ai_Types
  imports Ai_Laws
begin

text \<open>
  The value types of \<open>src/bounds.rs\<close>, \<open>src/redaction.rs\<close> and \<open>src/ai/mod.rs\<close> hide their fields
  behind validating constructors. This theory shows that the constructors build all the
  values their type invariants describe and no others, and that the JSON of an
  observation determines it.
\<close>

section \<open>Type invariants\<close>

definition valid_model_id :: "model_id \<Rightarrow> bool" where
  "valid_model_id m \<longleftrightarrow> model_as_str m \<noteq> [] \<and> length (model_as_str m) \<le> 128 \<and> list_all model_byte (model_as_str m)"

definition valid_secret :: "secret \<Rightarrow> bool" where
  "valid_secret s \<longleftrightarrow> expose s \<noteq> [] \<and> length (expose s) \<le> 4096 \<and> \<not> has_control (expose s)"

definition valid_request :: "limits \<Rightarrow> ai_request \<Rightarrow> bool" where
  "valid_request l req \<longleftrightarrow>
     \<not> (\<forall>n \<in> set (chars (req_input req)). is_whitespace n) \<and>
     length (req_instructions req) + length (req_input req) \<le> max_input_bytes l \<and>
     1 \<le> unat (req_max_output_tokens req) \<and> unat (req_max_output_tokens req) \<le> 8192"

definition valid_advisory :: "advisory_evidence \<Rightarrow> bool" where
  "valid_advisory adv \<longleftrightarrow> adv_schema_version adv = ''ores.runtime-evidence.v1'' \<and>
     1 \<le> length (adv_observations adv) \<and> length (adv_observations adv) \<le> 32 \<and>
     list_all evidence_in_range (adv_observations adv)"

inductive built_request :: "limits \<Rightarrow> ai_request \<Rightarrow> bool" for l where
  new_request: "ai_request_new instr inp l = Inr req \<Longrightarrow> built_request l req"
| output_tokens: "built_request l req \<Longrightarrow> with_max_output_tokens v req = Inr req' \<Longrightarrow> built_request l req'"

section \<open>Every valid value can be built\<close>

lemma build_http_status:
  assumes "built_evidence ev" "ev_http_status ev = None" "option_all (\<lambda>v. 100 \<le> unat v \<and> unat v \<le> 599) x"
  shows "built_evidence (ev\<lparr>ev_http_status := x\<rparr>)"
proof (cases x)
  case None
  then show ?thesis using assms(1,2) by (cases ev) simp
next
  case (Some v)
  then have "with_http_status v ev = Inr (ev\<lparr>ev_http_status := x\<rparr>)"
    using assms(3) by (auto simp: with_http_status_def word_le_nat_alt word_less_nat_alt)
  with assms(1) show ?thesis by (rule built_evidence.http_status)
qed

lemma build_observation_count:
  assumes "built_evidence ev" "ev_observation_count ev = None" "option_all (\<lambda>v. 1 \<le> unat v \<and> unat v \<le> 1000000) x"
  shows "built_evidence (ev\<lparr>ev_observation_count := x\<rparr>)"
proof (cases x)
  case None
  then show ?thesis using assms(1,2) by (cases ev) simp
next
  case (Some v)
  then have "with_observation_count v ev = Inr (ev\<lparr>ev_observation_count := x\<rparr>)"
    using assms(3) by (auto simp: with_observation_count_def MAX_OBSERVATION_COUNT_def word_le_nat_alt word_less_nat_alt)
  with assms(1) show ?thesis by (rule built_evidence.observation_count)
qed

lemma build_consecutive_failures:
  assumes "built_evidence ev" "ev_consecutive_failures ev = None" "option_all (\<lambda>v. unat v \<le> 10000) x"
  shows "built_evidence (ev\<lparr>ev_consecutive_failures := x\<rparr>)"
proof (cases x)
  case None
  then show ?thesis using assms(1,2) by (cases ev) simp
next
  case (Some v)
  then have "with_consecutive_failures v ev = Inr (ev\<lparr>ev_consecutive_failures := x\<rparr>)"
    using assms(3) by (auto simp: with_consecutive_failures_def MAX_CONSECUTIVE_FAILURES_def word_le_nat_alt word_less_nat_alt)
  with assms(1) show ?thesis by (rule built_evidence.consecutive_failures)
qed

lemma build_latency:
  assumes "built_evidence ev" "ev_latency_ms ev = None" "option_all (\<lambda>v. unat v \<le> 120000) x"
  shows "built_evidence (ev\<lparr>ev_latency_ms := x\<rparr>)"
proof (cases x)
  case None
  then show ?thesis using assms(1,2) by (cases ev) simp
next
  case (Some v)
  then have "with_latency_ms v ev = Inr (ev\<lparr>ev_latency_ms := x\<rparr>)"
    using assms(3) by (auto simp: with_latency_ms_def MAX_LATENCY_MS_def word_le_nat_alt word_less_nat_alt)
  with assms(1) show ?thesis by (rule built_evidence.latency_ms)
qed

lemma build_provider:
  assumes "built_evidence ev" "ev_provider ev = None" "ev_provider_state ev = None" "p = None \<longleftrightarrow> st = None"
  shows "built_evidence (ev\<lparr>ev_provider := p, ev_provider_state := st\<rparr>)"
proof (cases p)
  case None
  then show ?thesis using assms by (cases ev) simp
next
  case (Some q)
  then obtain r where "st = Some r" using assms(4) by auto
  with Some show ?thesis
    using built_evidence.provider [OF assms(1), of q r] by (simp add: with_evidence_provider_def)
qed

lemma evidence_in_range_built: "evidence_in_range ev \<Longrightarrow> built_evidence ev"
proof -
  assume r: "evidence_in_range ev"
  let ?e0 = "evidence_new (ev_component ev) (ev_transport ev) (ev_symptom ev) (ev_outcome ev)"
  let ?e1 = "?e0\<lparr>ev_provider := ev_provider ev, ev_provider_state := ev_provider_state ev\<rparr>"
  let ?e2 = "?e1\<lparr>ev_http_status := ev_http_status ev\<rparr>"
  let ?e3 = "?e2\<lparr>ev_observation_count := ev_observation_count ev\<rparr>"
  let ?e4 = "?e3\<lparr>ev_consecutive_failures := ev_consecutive_failures ev\<rparr>"
  note r = r [unfolded evidence_in_range_def]
  have "built_evidence ?e1"
    using r by (intro build_provider built_evidence.new) (simp_all add: evidence_new_def)
  then have "built_evidence ?e2"
    using r by (intro build_http_status) (simp_all add: evidence_new_def)
  then have "built_evidence ?e3"
    using r by (intro build_observation_count) (simp_all add: evidence_new_def)
  then have "built_evidence ?e4"
    using r by (intro build_consecutive_failures) (simp_all add: evidence_new_def)
  then have "built_evidence (?e4\<lparr>ev_latency_ms := ev_latency_ms ev\<rparr>)"
    using r by (intro build_latency) (simp_all add: evidence_new_def)
  moreover have "?e4\<lparr>ev_latency_ms := ev_latency_ms ev\<rparr> = ev"
    by (cases ev) (simp add: evidence_new_def)
  ultimately show ?thesis by simp
qed

lemma built_request_valid:
  assumes "valid_limits l"
  shows "built_request l req \<longleftrightarrow> valid_request l req"
proof
  have small: "max_input_bytes l < usize_limit"
    using assms by (simp add: valid_limits_def HARD_MAX_INPUT_BYTES_def usize_limit_def)
  show "built_request l req \<Longrightarrow> valid_request l req"
  proof (induction rule: built_request.induct)
    case (new_request instr inp req)
    then show ?case
      using small by (auto simp: ai_request_new_def valid_request_def trim_eq_Nil checked_add_usize_def
          input_limit.check_eq DEFAULT_MAX_OUTPUT_TOKENS_def split: if_splits)
  next
    case (output_tokens req v req')
    then show ?case
      by (auto simp: valid_request_def with_max_output_tokens_def HARD_MAX_OUTPUT_TOKENS_def
          word_le_nat_alt not_less Suc_le_eq unat_gt_0 split: if_splits)
  qed
  assume v: "valid_request l req"
  let ?start = "req\<lparr>req_max_output_tokens := DEFAULT_MAX_OUTPUT_TOKENS\<rparr>"
  have "ai_request_new (req_instructions req) (req_input req) l = Inr ?start"
    using v small by (auto simp: ai_request_new_def valid_request_def trim_eq_Nil checked_add_usize_def
        input_limit.check_eq)
  moreover have "with_max_output_tokens (req_max_output_tokens req) ?start = Inr req"
    using v by (auto simp: valid_request_def with_max_output_tokens_def HARD_MAX_OUTPUT_TOKENS_def
        word_less_nat_alt)
  ultimately show "built_request l req"
    by (blast intro: built_request.intros)
qed

section \<open>The JSON of an observation\<close>

definition json_field :: "json \<Rightarrow> str \<Rightarrow> json option" where
  "json_field j name = (case j of JObj fs \<Rightarrow> map_of fs name | _ \<Rightarrow> None)"

lemma map_of_optional_field [simp]:
  "map_of (optional_field n f x) m = (if m = n then map_option f x else None)"
  by (cases x) (simp_all add: optional_field_def)

lemma evidence_json_fields:
  "json_field (evidence_json ev) ''component'' = Some (JStr (component_name (ev_component ev)))"
  "json_field (evidence_json ev) ''transport'' = Some (JStr (transport_name (ev_transport ev)))"
  "json_field (evidence_json ev) ''symptom'' = Some (JStr (symptom_name (ev_symptom ev)))"
  "json_field (evidence_json ev) ''outcome'' = Some (JStr (outcome_name (ev_outcome ev)))"
  "json_field (evidence_json ev) ''provider'' = map_option (\<lambda>p. JStr (provider_name p)) (ev_provider ev)"
  "json_field (evidence_json ev) ''providerState'' =
     map_option (\<lambda>s. JStr (provider_state_name s)) (ev_provider_state ev)"
  "json_field (evidence_json ev) ''httpStatus'' = map_option (\<lambda>n. JNum (unat n)) (ev_http_status ev)"
  "json_field (evidence_json ev) ''observationCount'' = map_option (\<lambda>n. JNum (unat n)) (ev_observation_count ev)"
  "json_field (evidence_json ev) ''consecutiveFailures'' =
     map_option (\<lambda>n. JNum (unat n)) (ev_consecutive_failures ev)"
  "json_field (evidence_json ev) ''latencyMs'' = map_option (\<lambda>n. JNum (unat n)) (ev_latency_ms ev)"
  by (simp_all add: json_field_def evidence_json_def map_add_def split: option.split)

lemma names_injective:
  "component_name c = component_name c' \<longleftrightarrow> c = c'"
  "transport_name t = transport_name t' \<longleftrightarrow> t = t'"
  "symptom_name s = symptom_name s' \<longleftrightarrow> s = s'"
  "outcome_name k = outcome_name k' \<longleftrightarrow> k = k'"
  "provider_name p = provider_name p' \<longleftrightarrow> p = p'"
  "provider_state_name q = provider_state_name q' \<longleftrightarrow> q = q'"
proof -
  show "component_name c = component_name c' \<longleftrightarrow> c = c'" by (cases c; cases c'; simp)
  show "transport_name t = transport_name t' \<longleftrightarrow> t = t'" by (cases t; cases t'; simp)
  show "symptom_name s = symptom_name s' \<longleftrightarrow> s = s'" by (cases s; cases s'; simp)
  show "outcome_name k = outcome_name k' \<longleftrightarrow> k = k'" by (cases k; cases k'; simp)
  show "provider_name p = provider_name p' \<longleftrightarrow> p = p'" by (cases p; cases p'; simp)
  show "provider_state_name q = provider_state_name q' \<longleftrightarrow> q = q'" by (cases q; cases q'; simp)
qed

lemma evidence_json_injective: "evidence_json a = evidence_json b \<longleftrightarrow> a = b"
proof
  assume e: "evidence_json a = evidence_json b"
  have opt: "map_option f x = map_option f y \<longleftrightarrow> x = y" if "inj f" for f :: "'x \<Rightarrow> json" and x y
    using option.inj_map [OF that] by (auto simp: inj_def)
  have i: "inj (\<lambda>p. JStr (provider_name p))" "inj (\<lambda>s. JStr (provider_state_name s))"
      "inj (\<lambda>n :: u16. JNum (unat n))" "inj (\<lambda>n :: u32. JNum (unat n))"
    by (simp_all add: inj_def names_injective word_unat_eq_iff)
  have f: "json_field (evidence_json a) n = json_field (evidence_json b) n" for n
    by (simp add: e)
  show "a = b"
    using f [of "''component''"] f [of "''transport''"] f [of "''symptom''"] f [of "''outcome''"]
      f [of "''provider''"] f [of "''providerState''"] f [of "''httpStatus''"]
      f [of "''observationCount''"] f [of "''consecutiveFailures''"] f [of "''latencyMs''"]
    by (simp add: evidence_json_fields opt i names_injective)
qed simp

lemma advisory_evidence_json_injective:
  "advisory_evidence_json a = advisory_evidence_json b \<longleftrightarrow> a = b"
proof -
  have "inj evidence_json" by (simp add: inj_def evidence_json_injective)
  then have "map evidence_json xs = map evidence_json ys \<longleftrightarrow> xs = ys" for xs ys
    by (rule inj_map_eq_map)
  then show ?thesis by (cases a; cases b) (simp add: advisory_evidence_json_def)
qed

lemma limits_built: "(\<exists>i r p q c t. limits_new i r p q c t = Inr l) \<longleftrightarrow> valid_limits l"
proof
  assume "valid_limits l"
  then have "limits_new (max_input_bytes l) (max_request_bytes l) (max_response_bytes l) (max_output_bytes l)
      (connect_timeout l) (request_timeout l) = Inr l"
    by (auto simp: limits_new_def valid_limits_def)
  then show "\<exists>i r p q c t. limits_new i r p q c t = Inr l" by blast
qed (auto simp: limits_new_def valid_limits_def split: if_splits)

section \<open>Properties\<close>

text \<open>
  C28. The public constructors are exact for their types. An observation can be built
  precisely when its numbers are in range and its provider and provider state come together;
  an evidence list when it holds 1 to 32 such observations; a model identifier when it is 1
  to 128 URL-safe ASCII bytes; a secret when it is 1 to 4096 bytes without control
  characters; limits when they respect the hard ceilings; and, under valid limits, a request
  when its input is not blank, its texts fit together and its token limit is 1 to 8192.
\<close>

theorem constructors_are_exact:
  "(built_evidence ev \<longleftrightarrow> evidence_in_range ev) \<and>
   ((\<exists>obs. list_all built_evidence obs \<and> advisory_evidence_new obs = Inr adv) \<longleftrightarrow> valid_advisory adv) \<and>
   ((\<exists>v. model_id_new v = Inr m) \<longleftrightarrow> valid_model_id m) \<and>
   ((\<exists>v. secret_new v = Inr s) \<longleftrightarrow> valid_secret s) \<and>
   ((\<exists>i r p q c t. limits_new i r p q c t = Inr l) \<longleftrightarrow> valid_limits l) \<and>
   (valid_limits l \<longrightarrow> (built_request l req \<longleftrightarrow> valid_request l req))"
proof (intro conjI impI)
  show ev: "built_evidence ev \<longleftrightarrow> evidence_in_range ev" for ev
    using built_evidence_in_range evidence_in_range_built by blast
  then have "built_evidence = evidence_in_range" by blast
  then show "(\<exists>obs. list_all built_evidence obs \<and> advisory_evidence_new obs = Inr adv) \<longleftrightarrow> valid_advisory adv"
    by (cases adv) (auto simp: advisory_evidence_new_def valid_advisory_def MAX_EVIDENCE_OBSERVATIONS_def
        Suc_le_eq split: if_splits)
  show "(\<exists>v. model_id_new v = Inr m) \<longleftrightarrow> valid_model_id m"
    by (cases m) (simp add: model_id_new_Ok valid_model_id_def list_all_iff)
  show "(\<exists>v. secret_new v = Inr s) \<longleftrightarrow> valid_secret s"
    by (cases s) (simp add: secret_new_Ok valid_secret_def MAX_SECRET_BYTES_def)
  show "(\<exists>i r p q c t. limits_new i r p q c t = Inr l) \<longleftrightarrow> valid_limits l"
    by (rule limits_built)
  show "valid_limits l \<Longrightarrow> built_request l req \<longleftrightarrow> valid_request l req"
    by (rule built_request_valid)
qed

theorem constructors_are_exact_witness:
  "built_request limits_default \<lparr>req_instructions = [], req_input = ''x'', req_max_output_tokens = 8192\<rparr> \<and>
   \<not> built_request limits_default \<lparr>req_instructions = [], req_input = ''x'', req_max_output_tokens = 8193\<rparr>"
  using constructors_are_exact [of ev adv m s limits_default "\<lparr>req_instructions = [], req_input = ''x'', req_max_output_tokens = 8192\<rparr>"]
    constructors_are_exact [of ev adv m s limits_default "\<lparr>req_instructions = [], req_input = ''x'', req_max_output_tokens = 8193\<rparr>"]
    limits_defaults_valid
  by (simp add: valid_request_def limits_default_def chars_def is_whitespace_def utf8_width_def byte_of_def)

text \<open>
  C39. What is sent to a provider loses nothing and adds nothing: two evidence lists with the
  same JSON are the same list, although absent fields are left out of it, and every string in
  the JSON of a list that can be built is one of the thirty-four words of the closed
  vocabulary.
\<close>

theorem evidence_json_is_faithful:
  "(evidence_json ev = evidence_json ev' \<longleftrightarrow> ev = ev') \<and>
   (advisory_evidence_json adv = advisory_evidence_json adv' \<longleftrightarrow> adv = adv') \<and>
   (valid_advisory adv \<longrightarrow> set (json_strings (advisory_evidence_json adv)) \<subseteq> set evidence_vocabulary)"
proof (intro conjI impI)
  assume "valid_advisory adv"
  then have "adv_schema_version adv \<in> set evidence_vocabulary"
    by (simp add: valid_advisory_def evidence_vocabulary_def)
  then show "set (json_strings (advisory_evidence_json adv)) \<subseteq> set evidence_vocabulary"
    using evidence_json_strings by (auto simp: advisory_evidence_json_def)
qed (simp_all add: evidence_json_injective advisory_evidence_json_injective)

theorem evidence_json_is_faithful_witness:
  "let ev = (evidence_new AiConnector Internal TimeoutSymptom ErrorOutcome)\<lparr>ev_latency_ms := Some 120000\<rparr>;
       adv = \<lparr>adv_schema_version = ''ores.runtime-evidence.v1'', adv_observations = [ev]\<rparr>
   in evidence_json ev \<noteq> evidence_json (ev\<lparr>ev_latency_ms := None\<rparr>) \<and>
      ''internal'' \<in> set (json_strings (advisory_evidence_json adv)) \<and>
      set (json_strings (advisory_evidence_json adv)) \<subseteq> set evidence_vocabulary"
proof -
  let ?ev = "(evidence_new AiConnector Internal TimeoutSymptom ErrorOutcome)\<lparr>ev_latency_ms := Some 120000\<rparr>"
  let ?adv = "\<lparr>adv_schema_version = ''ores.runtime-evidence.v1'', adv_observations = [?ev]\<rparr>"
  have "valid_advisory ?adv"
    by (simp add: valid_advisory_def evidence_in_range_def evidence_new_def)
  moreover have "?ev \<noteq> ?ev\<lparr>ev_latency_ms := None\<rparr>" by (simp add: evidence_new_def)
  moreover have "''internal'' \<in> set (json_strings (advisory_evidence_json ?adv))"
    by (simp add: advisory_evidence_json_def evidence_json_def evidence_new_def)
  ultimately show ?thesis
    using evidence_json_is_faithful [of ?ev "?ev\<lparr>ev_latency_ms := None\<rparr>" ?adv ?adv]
    unfolding Let_def by blast
qed

end
