(* ===== verification/Environment.thy ===== *)
theory Environment
  imports Texts
begin

text \<open>
  What the program sees of the process environment and of the \<open>url\<close> crate: the answers of
  \<open>std::env::var\<close>, and a parsed URL as the values of its accessors; and \<open>std::io::Error\<close> as its kind and message.
\<close>

datatype var_result = VarOk str | VarNotPresent | VarNotUnicode

type_synonym environment = "str \<Rightarrow> var_result"

text \<open>\<open>env::var(name).ok()\<close> and \<open>env::var_os(name).is_some()\<close>.\<close>

definition var_ok :: "environment \<Rightarrow> str \<Rightarrow> str option" where
  "var_ok env name = (case env name of VarOk v \<Rightarrow> Some v | _ \<Rightarrow> None)"

definition var_os_present :: "environment \<Rightarrow> str \<Rightarrow> bool" where
  "var_os_present env name \<longleftrightarrow> env name \<noteq> VarNotPresent"

record url =
  url_scheme :: str
  url_host :: "str option"
  url_username :: str
  url_password :: "str option"
  url_port :: "u16 option"
  url_path :: str
  url_query :: "str option"
  url_fragment :: "str option"

text \<open>The code makes the first three kinds; errors of the system or a factory may have any.\<close>

datatype io_error_kind = InvalidInput | OtherKind | TimedOut | SystemKind nat

datatype io_error = IoError (io_kind: io_error_kind) (io_message: str)

end
