(* ===== verification/Ai_Http.thy ===== *)
theory Ai_Http
  imports Ai_Laws Environment
begin

text \<open>
  The hardened HTTP client of \<open>src/ai/http.rs\<close>. The crates below it (\<open>reqwest\<close>, \<open>url\<close>,
  \<open>http\<close>, \<open>serde_json\<close>) are the record \<open>http_lib\<close>, an argument of every operation: what the
  URL parser answers, which header values are accepted, whether the client builds, the text
  of a JSON value, and how the network answers a request. An operation that may talk to the
  network returns the list of requests it sent beside its result.
\<close>

section \<open>The libraries below\<close>

record header_value =
  hv_value :: str
  hv_sensitive :: bool

datatype tls_version = TLS_1_0 | TLS_1_1 | TLS_1_2 | TLS_1_3

record client_config =
  cc_follow_redirects :: bool
  cc_use_proxy :: bool
  cc_https_only :: bool
  cc_min_tls_version :: tls_version
  cc_connect_timeout :: duration
  cc_timeout :: duration
  cc_pool_idle_timeout :: duration
  cc_pool_max_idle_per_host :: nat
  cc_tcp_keepalive :: duration
  cc_user_agent :: str

record http_request =
  rq_client :: client_config
  rq_method :: str
  rq_url :: url
  rq_headers :: "(str \<times> header_value) list"
  rq_body :: str

record reqwest_error =
  err_is_timeout :: bool
  err_is_connect :: bool

text \<open>What successive calls of \<open>chunk()\<close> yield; the end of the list is \<open>Ok(None)\<close>.\<close>

datatype body_event = BodyChunk str | BodyError reqwest_error

record http_response =
  rs_status :: u16
  rs_is_success :: bool
  rs_content_length :: "u64 option"
  rs_body :: "body_event list"

record http_lib =
  lib_parse_url :: "str \<Rightarrow> url option"
  lib_header_ok :: "str \<Rightarrow> bool"
  lib_client_builds :: "client_config \<Rightarrow> bool"
  lib_to_vec :: "json \<Rightarrow> str option"
  lib_exchange :: "http_request \<Rightarrow> reqwest_error + http_response"

type_synonym 'a io = "http_request list \<times> (provider_error + 'a)"

section \<open>The client\<close>

record secure_http =
  sh_client :: client_config
  sh_limits :: limits

text \<open>The version in \<open>USER_AGENT\<close> is put in by the build; here it is a parameter.\<close>

definition USER_AGENT :: "str \<Rightarrow> str" where
  "USER_AGENT pkg_version = ''ores-mcp-server-core-libs/'' @ pkg_version"

definition secure_client_config :: "str \<Rightarrow> limits \<Rightarrow> client_config" where
  "secure_client_config pkg_version l =
     \<lparr>cc_follow_redirects = False, cc_use_proxy = False, cc_https_only = True,
      cc_min_tls_version = TLS_1_2, cc_connect_timeout = connect_timeout l,
      cc_timeout = request_timeout l, cc_pool_idle_timeout = from_secs 30,
      cc_pool_max_idle_per_host = 2, cc_tcp_keepalive = from_secs 30,
      cc_user_agent = USER_AGENT pkg_version\<rparr>"

definition secure_http_new :: "'z http_lib_scheme \<Rightarrow> str \<Rightarrow> limits \<Rightarrow> provider_error + secure_http" where
  "secure_http_new lib pkg_version l =
     (let client = secure_client_config pkg_version l
      in if lib_client_builds lib client then Inr \<lparr>sh_client = client, sh_limits = l\<rparr>
         else Inl Configuration)"

definition plain_header :: "str \<Rightarrow> header_value" where
  "plain_header v = \<lparr>hv_value = v, hv_sensitive = False\<rparr>"

definition secure_http_post :: "secure_http \<Rightarrow> url \<Rightarrow> http_request" where
  "secure_http_post http endpoint =
     \<lparr>rq_client = sh_client http, rq_method = ''POST'', rq_url = endpoint,
      rq_headers = [(''accept'', plain_header ''application/json''),
                    (''content-type'', plain_header ''application/json'')],
      rq_body = []\<rparr>"

definition with_header :: "http_request \<Rightarrow> str \<Rightarrow> header_value \<Rightarrow> http_request" where
  "with_header req name v = req\<lparr>rq_headers := rq_headers req @ [(name, v)]\<rparr>"

definition encode :: "'z http_lib_scheme \<Rightarrow> secure_http \<Rightarrow> json \<Rightarrow> provider_error + str" where
  "encode lib http body =
     and_then (ok_or Serialization (lib_to_vec lib body)) (\<lambda>bytes.
     and_then (map_err ProviderBounds (check_request (sh_limits http) (length bytes))) (\<lambda>_.
       Inr bytes))"

definition classify_transport_error :: "reqwest_error \<Rightarrow> provider_error" where
  "classify_transport_error error =
     (if err_is_timeout error then ProviderTimeout
      else if err_is_connect error then Connection
      else TransportFailure)"

fun read_chunks :: "limits \<Rightarrow> str \<Rightarrow> body_event list \<Rightarrow> provider_error + str" where
  "read_chunks l bytes [] = Inr bytes"
| "read_chunks l bytes (BodyError error # events) = Inl (classify_transport_error error)"
| "read_chunks l bytes (BodyChunk chunk # events) =
     (case ok_or (ProviderBounds (Exceeded ''response''))
             (checked_add_usize (length bytes) (length chunk)) of
        Inl e \<Rightarrow> Inl e
      | Inr next_len \<Rightarrow>
          (case map_err ProviderBounds (check_response l next_len) of
             Inl e \<Rightarrow> Inl e
           | Inr _ \<Rightarrow> read_chunks l (bytes @ chunk) events))"

definition read_response :: "limits \<Rightarrow> http_response \<Rightarrow> provider_error + str" where
  "read_response l response =
     (if \<not> rs_is_success response then Inl (HttpStatus (rs_status response))
      else if (case rs_content_length response of
                 None \<Rightarrow> False | Some n \<Rightarrow> unat n > max_response_bytes l)
      then Inl (ProviderBounds (Exceeded ''response''))
      else read_chunks l [] (rs_body response))"

definition send :: "'z http_lib_scheme \<Rightarrow> secure_http \<Rightarrow> http_request \<Rightarrow> str \<Rightarrow> str io" where
  "send lib http request body =
     (let sent = request\<lparr>rq_body := body\<rparr>
      in ([sent],
          and_then (map_err classify_transport_error (lib_exchange lib sent))
            (read_response (sh_limits http))))"

definition fixed_endpoint :: "'z http_lib_scheme \<Rightarrow> str \<Rightarrow> str \<Rightarrow> provider_error + url" where
  "fixed_endpoint lib value host =
     and_then (ok_or Configuration (lib_parse_url lib value)) (\<lambda>u.
       if url_scheme u \<noteq> ''https'' \<or> url_host u \<noteq> Some host \<or> url_username u \<noteq> [] \<or>
          url_password u \<noteq> None \<or> url_port u \<noteq> None \<or> url_query u \<noteq> None \<or> url_fragment u \<noteq> None
       then Inl Configuration
       else Inr u)"

definition secret_header :: "'z http_lib_scheme \<Rightarrow> secret \<Rightarrow> str option \<Rightarrow> provider_error + header_value" where
  "secret_header lib s prefix =
     (let value = (case prefix of Some p \<Rightarrow> p @ expose s | None \<Rightarrow> expose s)
      in if lib_header_ok lib value then Inr \<lparr>hv_value = value, hv_sensitive = True\<rparr>
         else Inl Configuration)"

section \<open>Facts\<close>

lemma encode_Inr:
  "encode lib http body = Inr b \<longleftrightarrow>
     lib_to_vec lib body = Some b \<and> length b \<le> max_request_bytes (sh_limits http)"
  by (auto simp: encode_def)

lemma fixed_endpoint_Inr:
  "fixed_endpoint lib value host = Inr u \<longleftrightarrow>
     lib_parse_url lib value = Some u \<and> url_scheme u = ''https'' \<and> url_host u = Some host \<and>
     url_username u = [] \<and> url_password u = None \<and> url_port u = None \<and> url_query u = None \<and>
     url_fragment u = None"
  by (auto simp: fixed_endpoint_def)

lemma secret_header_Inr:
  "secret_header lib s prefix = Inr h \<longleftrightarrow>
     (let value = (case prefix of Some p \<Rightarrow> p @ expose s | None \<Rightarrow> expose s)
      in lib_header_ok lib value \<and> h = \<lparr>hv_value = value, hv_sensitive = True\<rparr>)"
  by (auto simp: secret_header_def Let_def)

lemma secure_http_new_Inr:
  "secure_http_new lib v l = Inr h \<longleftrightarrow>
     h = \<lparr>sh_client = secure_client_config v l, sh_limits = l\<rparr> \<and>
     lib_client_builds lib (secure_client_config v l)"
  by (auto simp: secure_http_new_def Let_def)

lemma read_chunks_extend:
  "read_chunks l bytes (BodyChunk chunk # events) =
     (case map_err ProviderBounds
             (bounded_extend (check_response l) (Exceeded ''response'') bytes chunk) of
        Inl e \<Rightarrow> Inl e | Inr b \<Rightarrow> read_chunks l b events)"
  by (auto simp: bounded_extend_def checked_add_usize_def response_limit.check_eq)

lemma read_chunks_ok:
  "length bytes \<le> max_response_bytes l \<Longrightarrow>
   read_chunks l bytes events = Inr out \<longleftrightarrow>
     (\<exists>chunks. events = map BodyChunk chunks \<and> out = bytes @ concat chunks \<and>
        length out \<le> max_response_bytes l \<and> (chunks \<noteq> [] \<longrightarrow> length out < usize_limit))"
proof (induction events arbitrary: bytes)
  case (Cons ev events)
  show ?case
  proof (cases ev)
    case (BodyError e)
    then show ?thesis by (auto simp: Cons_eq_map_conv)
  next
    case (BodyChunk c)
    show ?thesis
    proof (cases "length (bytes @ c) \<le> max_response_bytes l \<and> length (bytes @ c) < usize_limit")
      case True
      then have "read_chunks l bytes (ev # events) = read_chunks l (bytes @ c) events"
        by (simp add: BodyChunk read_chunks_extend response_limit.extend_eq
            del: read_chunks.simps)
      also have "\<dots> = Inr out \<longleftrightarrow> (\<exists>chunks. events = map BodyChunk chunks \<and>
          out = (bytes @ c) @ concat chunks \<and> length out \<le> max_response_bytes l \<and>
          (chunks \<noteq> [] \<longrightarrow> length out < usize_limit))"
        using True by (intro Cons.IH) simp
      also have "\<dots> \<longleftrightarrow> (\<exists>chunks. ev # events = map BodyChunk chunks \<and>
          out = bytes @ concat chunks \<and> length out \<le> max_response_bytes l \<and>
          (chunks \<noteq> [] \<longrightarrow> length out < usize_limit))"
        using True by (fastforce simp: BodyChunk Cons_eq_map_conv)
      finally show ?thesis .
    next
      case False
      then have "read_chunks l bytes (ev # events) = Inl (ProviderBounds (Exceeded ''response''))"
        by (auto simp: BodyChunk read_chunks_extend response_limit.extend_eq Let_def
            simp del: read_chunks.simps)
      with False show ?thesis by (auto simp: BodyChunk Cons_eq_map_conv)
    qed
  qed
qed auto

lemma read_chunks_overflow:
  "length bytes \<le> max_response_bytes l \<Longrightarrow> max_response_bytes l < length (bytes @ concat chunks) \<Longrightarrow>
   read_chunks l bytes (map BodyChunk chunks @ rest) = Inl (ProviderBounds (Exceeded ''response''))"
proof (induction chunks arbitrary: bytes)
  case (Cons c chunks)
  show ?case
  proof (cases "length (bytes @ c) \<le> max_response_bytes l \<and> length (bytes @ c) < usize_limit")
    case True
    with Cons show ?thesis
      by (simp add: read_chunks_extend response_limit.extend_eq del: read_chunks.simps)
  next
    case False
    then show ?thesis
      by (auto simp: read_chunks_extend response_limit.extend_eq Let_def simp del: read_chunks.simps)
  qed
qed simp

section \<open>A concrete library\<close>

text \<open>
  An instance of the parameter on which the witnesses evaluate: a parser for
  \<open>https://host/path\<close>, headers of printable bytes, and a network that answers every request
  with one given response.
\<close>

definition example_parse_url :: "str \<Rightarrow> url option" where
  "example_parse_url s =
     (let rest = drop 8 s; host = takeWhile (\<lambda>c. c \<noteq> CHR ''/'') rest
      in if starts_with s ''https://'' \<and> CHR '':'' \<notin> set host \<and> CHR ''@'' \<notin> set host \<and>
            CHR ''?'' \<notin> set rest \<and> CHR ''#'' \<notin> set rest
         then Some \<lparr>url_scheme = ''https'', url_host = Some host, url_username = [],
                    url_password = None, url_port = None,
                    url_path = dropWhile (\<lambda>c. c \<noteq> CHR ''/'') rest,
                    url_query = None, url_fragment = None\<rparr>
         else None)"

definition example_lib :: "http_response \<Rightarrow> http_lib" where
  "example_lib resp =
     \<lparr>lib_parse_url = example_parse_url,
      lib_header_ok = list_all (\<lambda>c. byte_of c = 9 \<or> 32 \<le> byte_of c \<and> byte_of c < 127),
      lib_client_builds = (\<lambda>_. True),
      lib_to_vec = (\<lambda>_. Some ''{}''),
      lib_exchange = (\<lambda>_. Inr resp)\<rparr>"

definition example_http :: secure_http where
  "example_http = \<lparr>sh_client = secure_client_config ''0'' limits_default, sh_limits = limits_default\<rparr>"

definition example_url :: url where
  "example_url = \<lparr>url_scheme = ''https'', url_host = Some ''h'', url_username = [],
     url_password = None, url_port = None, url_path = ''/'', url_query = None, url_fragment = None\<rparr>"

section \<open>Reading a response\<close>

text \<open>
  C31. \<open>SecureHttp::send\<close> returns bytes exactly when the exchange succeeded with a success
  status, the announced length is within the limit, and the body arrived without error and
  within the limit; the bytes are then all chunks in order. Exactly one request is sent.
\<close>

theorem send_returns_whole_bounded_body:
  assumes "valid_limits (sh_limits http)"
  shows "fst (send lib http req body) = [req\<lparr>rq_body := body\<rparr>] \<and>
    (snd (send lib http req body) = Inr bytes \<longleftrightarrow>
       (\<exists>resp chunks. lib_exchange lib (req\<lparr>rq_body := body\<rparr>) = Inr resp \<and>
          rs_is_success resp \<and>
          (rs_content_length resp = None \<or>
           unat (the (rs_content_length resp)) \<le> max_response_bytes (sh_limits http)) \<and>
          rs_body resp = map BodyChunk chunks \<and> bytes = concat chunks \<and>
          length bytes \<le> max_response_bytes (sh_limits http)))"
proof -
  have "max_response_bytes (sh_limits http) < usize_limit"
    using assms by (simp add: valid_limits_def HARD_MAX_RESPONSE_BYTES_def usize_limit_def)
  then have "read_response (sh_limits http) resp = Inr bytes \<longleftrightarrow>
      (\<exists>chunks. rs_is_success resp \<and>
          (rs_content_length resp = None \<or>
           unat (the (rs_content_length resp)) \<le> max_response_bytes (sh_limits http)) \<and>
          rs_body resp = map BodyChunk chunks \<and> bytes = concat chunks \<and>
          length bytes \<le> max_response_bytes (sh_limits http))" for resp
    by (auto simp: read_response_def read_chunks_ok split: option.splits)
  then show ?thesis by (auto simp: send_def Let_def)
qed

theorem send_returns_whole_bounded_body_witness:
  "let resp = \<lparr>rs_status = 200, rs_is_success = True, rs_content_length = Some 4,
               rs_body = [BodyChunk ''ab'', BodyChunk ''cd'']\<rparr>
   in snd (send (example_lib resp) example_http (secure_http_post example_http example_url) ''{}'') =
        Inr ''abcd''"
proof -
  let ?resp = "\<lparr>rs_status = 200, rs_is_success = True, rs_content_length = Some 4,
               rs_body = [BodyChunk ''ab'', BodyChunk ''cd'']\<rparr>"
  have v: "valid_limits (sh_limits example_http)"
    by (simp add: example_http_def limits_defaults_valid)
  have "lib_exchange (example_lib ?resp)
      ((secure_http_post example_http example_url)\<lparr>rq_body := ''{}''\<rparr>) = Inr ?resp"
    by (simp add: example_lib_def)
  moreover have "rs_body ?resp = map BodyChunk [''ab'', ''cd'']" by simp
  moreover have "max_response_bytes (sh_limits example_http) = 1048576"
    by (simp add: example_http_def limits_default_def)
  ultimately have "snd (send (example_lib ?resp) example_http
      (secure_http_post example_http example_url) ''{}'') = Inr ''abcd''"
    by (subst send_returns_whole_bounded_body [OF v, THEN conjunct2])
      (intro exI [of _ ?resp] exI [of _ "[''ab'', ''cd'']"], simp)
  then show ?thesis by (simp add: Let_def)
qed

text \<open>
  An oversized body is abandoned at the chunk that crosses the limit: whatever the
  server would send after it, or the connection would do, the result is the bound error.
\<close>

theorem send_stops_on_oversized_body:
  assumes "lib_exchange lib (req\<lparr>rq_body := body\<rparr>) = Inr resp" "rs_is_success resp"
    and "rs_body resp = map BodyChunk chunks @ rest"
    and "max_response_bytes (sh_limits http) < length (concat chunks)"
  shows "send lib http req body =
    ([req\<lparr>rq_body := body\<rparr>], Inl (ProviderBounds (Exceeded ''response'')))"
proof -
  have "read_chunks (sh_limits http) [] (map BodyChunk chunks @ rest) =
      Inl (ProviderBounds (Exceeded ''response''))"
    using assms(4) by (intro read_chunks_overflow) simp_all
  with assms(1-3) show ?thesis
    by (simp add: send_def Let_def read_response_def split: option.splits)
qed

theorem send_stops_on_oversized_body_witness:
  "let l = limits_default\<lparr>max_response_bytes := 3\<rparr>; http = example_http\<lparr>sh_limits := l\<rparr>;
       resp = \<lparr>rs_status = 200, rs_is_success = True, rs_content_length = None,
               rs_body = [BodyChunk ''ab'', BodyChunk ''cd'',
                          BodyError \<lparr>err_is_timeout = True, err_is_connect = False\<rparr>]\<rparr>
   in snd (send (example_lib resp) http (secure_http_post http example_url) ''{}'') =
        Inl (ProviderBounds (Exceeded ''response''))"
proof -
  let ?http = "example_http\<lparr>sh_limits := limits_default\<lparr>max_response_bytes := 3\<rparr>\<rparr>"
  let ?broken = "BodyError \<lparr>err_is_timeout = True, err_is_connect = False\<rparr>"
  let ?resp = "\<lparr>rs_status = 200, rs_is_success = True, rs_content_length = None,
               rs_body = [BodyChunk ''ab'', BodyChunk ''cd'', ?broken]\<rparr>"
  let ?req = "secure_http_post ?http example_url"
  have "send (example_lib ?resp) ?http ?req ''{}'' =
      ([?req\<lparr>rq_body := ''{}''\<rparr>], Inl (ProviderBounds (Exceeded ''response'')))"
    by (rule send_stops_on_oversized_body
        [where resp = ?resp and chunks = "[''ab'', ''cd'']" and rest = "[?broken]"])
      (simp_all add: example_lib_def)
  then show ?thesis by (simp add: Let_def)
qed

end
