(* ===== verification/Ai_Connector.thy ===== *)
theory Ai_Connector
  imports Ai_Http
begin

text \<open>
  What the registry relies on in a provider connector, the trait \<open>AiProvider\<close> of
  \<open>src/ai/mod.rs\<close>. A connector encodes one JSON body, posts it to its endpoint with its
  header values and decodes the answer; the locale \<open>ai_connector\<close> states this shape and
  proves once what follows from it for requests and answers. Each of the three connectors
  interprets it.
\<close>

definition io_then :: "'a io \<Rightarrow> ('a \<Rightarrow> provider_error + 'b) \<Rightarrow> 'b io" where
  "io_then m f = (fst m, and_then (snd m) f)"

lemma io_then_simps [simp]: "fst (io_then m f) = fst m" "snd (io_then m f) = and_then (snd m) f"
  by (simp_all add: io_then_def)

definition confined_to :: "str \<Rightarrow> url \<Rightarrow> bool" where
  "confined_to host u \<longleftrightarrow> url_scheme u = ''https'' \<and> url_host u = Some host \<and> url_username u = [] \<and>
     url_password u = None \<and> url_port u = None \<and> url_query u = None \<and> url_fragment u = None"

locale ai_connector =
  fixes lib :: "'z http_lib_scheme"
    and generate :: "ai_request \<Rightarrow> ai_response io"
    and kind :: provider_kind
    and model :: model_id
    and http :: secure_http
    and endpoint :: url
    and headers :: "(str \<times> header_value) list"
    and body :: "ai_request \<Rightarrow> json"
    and decode :: "str \<Rightarrow> provider_error + str"
    and l :: limits
  assumes generate_eq: "generate req =
      (case encode lib http (body req) of
         Inl e \<Rightarrow> ([], Inl e)
       | Inr encoded \<Rightarrow>
           io_then (send lib http
               (foldl (\<lambda>r h. with_header r (fst h) (snd h)) (secure_http_post http endpoint) headers)
               encoded) (\<lambda>bytes.
             and_then (decode bytes) (\<lambda>text.
               Inr \<lparr>resp_provider = kind, resp_model = model, resp_text = text\<rparr>)))"
    and decode_text: "decode bytes = Inr text \<Longrightarrow> text \<noteq> [] \<and> length text \<le> max_output_bytes l"
begin

lemma foldl_with_header:
  "foldl (\<lambda>r h. with_header r (fst h) (snd h)) req hs = req\<lparr>rq_headers := rq_headers req @ hs\<rparr>"
  by (induction hs arbitrary: req) (simp_all add: with_header_def)

definition wire_request :: "str \<Rightarrow> http_request" where
  "wire_request encoded =
     \<lparr>rq_client = sh_client http, rq_method = ''POST'', rq_url = endpoint,
      rq_headers = [(''accept'', plain_header ''application/json''),
                    (''content-type'', plain_header ''application/json'')] @ headers,
      rq_body = encoded\<rparr>"

lemma requests_eq:
  "fst (generate req) = (case encode lib http (body req) of
     Inl e \<Rightarrow> [] | Inr encoded \<Rightarrow> [wire_request encoded])"
  by (simp add: generate_eq foldl_with_header wire_request_def secure_http_post_def send_def
      Let_def split: sum.splits)

lemma request_shape:
  assumes "q \<in> set (fst (generate req))"
  shows "fst (generate req) = [q] \<and> rq_client q = sh_client http \<and> rq_url q = endpoint \<and>
    lib_to_vec lib (body req) = Some (rq_body q) \<and>
    length (rq_body q) \<le> max_request_bytes (sh_limits http) \<and>
    (\<forall>(name, v) \<in> set (rq_headers q). (name, v) \<in> set headers \<or> v = plain_header ''application/json'')"
proof (cases "encode lib http (body req)")
  case (Inr b)
  moreover have "lib_to_vec lib (body req) = Some b \<and> length b \<le> max_request_bytes (sh_limits http)"
    using Inr by (simp add: encode_Inr)
  ultimately show ?thesis using assms by (auto simp: requests_eq wire_request_def)
qed (use assms in \<open>simp add: requests_eq\<close>)

lemma response_shape:
  assumes "snd (generate req) = Inr resp"
  shows "resp_provider resp = kind \<and> resp_model resp = model \<and> resp_text resp \<noteq> [] \<and>
    length (resp_text resp) \<le> max_output_bytes l"
  using assms decode_text by (auto simp: generate_eq split: sum.splits)

lemma no_response_without_request: "fst (generate req) = [] \<Longrightarrow> \<exists>e. snd (generate req) = Inl e"
  by (auto simp: generate_eq send_def Let_def split: sum.splits)

end

end
