(* ===== verification/Ai_OpenAi.thy ===== *)
theory Ai_OpenAi
  imports Ai_Connector
begin

text \<open>
  The OpenAI Responses connector, \<open>src/ai/openai.rs\<close>. Reading JSON into the response structs
  is \<open>serde_json::from_slice\<close>, a parameter.
\<close>

definition OPENAI_ENDPOINT :: str where "OPENAI_ENDPOINT = ''https://api.openai.com/v1/responses''"
definition OPENAI_HOST :: str where "OPENAI_HOST = ''api.openai.com''"

record openai_provider =
  oa_settings :: provider_settings
  oa_http :: secure_http
  oa_endpoint :: url
  oa_authorization :: header_value
  oa_limits :: limits

definition openai_new ::
  "'z http_lib_scheme \<Rightarrow> str \<Rightarrow> provider_settings \<Rightarrow> limits \<Rightarrow> provider_error + openai_provider" where
  "openai_new lib pkg_version settings l =
     and_then (fixed_endpoint lib OPENAI_ENDPOINT OPENAI_HOST) (\<lambda>endpoint.
     and_then (secret_header lib (set_api_key settings) (Some ''Bearer '')) (\<lambda>authorization.
     and_then (secure_http_new lib pkg_version l) (\<lambda>http.
       Inr \<lparr>oa_settings = settings, oa_http = http, oa_endpoint = endpoint,
            oa_authorization = authorization, oa_limits = l\<rparr>)))"

record openai_request =
  oreq_model :: str
  oreq_instructions :: str
  oreq_input :: str
  oreq_max_output_tokens :: u32
  oreq_store :: bool

definition openai_request_json :: "openai_request \<Rightarrow> json" where
  "openai_request_json r = JObj
     [(''model'', JStr (oreq_model r)), (''instructions'', JStr (oreq_instructions r)),
      (''input'', JStr (oreq_input r)), (''max_output_tokens'', JNum (unat (oreq_max_output_tokens r))),
      (''store'', JBool (oreq_store r))]"

definition openai_body :: "openai_provider \<Rightarrow> ai_request \<Rightarrow> openai_request" where
  "openai_body p req =
     \<lparr>oreq_model = model_as_str (set_model (oa_settings p)),
      oreq_instructions = req_instructions req, oreq_input = req_input req,
      oreq_max_output_tokens = req_max_output_tokens req, oreq_store = False\<rparr>"

record openai_content =
  oc_kind :: str
  oc_text :: "str option"

record openai_output =
  oo_kind :: str
  oo_role :: "str option"
  oo_status :: "str option"
  oo_content :: "openai_content list"

record openai_response =
  or_status :: str
  or_error :: "json option"
  or_incomplete_details :: "json option"
  or_output :: "openai_output list"

definition openai_content_text :: "openai_content \<Rightarrow> provider_error + str" where
  "openai_content_text content =
     (if oc_kind content = ''output_text'' then ok_or MalformedResponse (oc_text content)
      else if oc_kind content = ''refusal'' then Inl RejectedResponse
      else Inl UnsupportedResponse)"

definition openai_item ::
  "str list \<times> nat \<Rightarrow> openai_output \<Rightarrow> provider_error + str list \<times> nat" where
  "openai_item acc item =
     (case acc of (output_text, message_count) \<Rightarrow>
        if oo_kind item = ''reasoning'' \<and> oo_content item = [] then Inr (output_text, message_count)
        else if oo_kind item = ''message'' then
          (if oo_role item \<noteq> Some ''assistant'' \<or> oo_status item \<noteq> Some ''completed''
           then Inl IncompleteResponse
           else and_then (collect_results openai_content_text (oo_content item)) (\<lambda>texts.
             Inr (output_text @ texts, message_count + 1)))
        else Inl UnsupportedResponse)"

definition openai_extract_text :: "openai_response \<Rightarrow> limits \<Rightarrow> provider_error + str" where
  "openai_extract_text response l =
     (if or_status response \<noteq> ''completed'' \<or> or_error response \<noteq> None \<or>
         or_incomplete_details response \<noteq> None
      then Inl IncompleteResponse
      else and_then (try_fold openai_item ([], 0) (or_output response))
        (\<lambda>(output_text, message_count).
           if message_count = 0 then Inl EmptyResponse else collect_output output_text l))"

definition openai_generate ::
  "'z http_lib_scheme \<Rightarrow> (str \<Rightarrow> openai_response option) \<Rightarrow> openai_provider \<Rightarrow> ai_request \<Rightarrow> ai_response io" where
  "openai_generate lib from_slice p req =
     (case encode lib (oa_http p) (openai_request_json (openai_body p req)) of
        Inl e \<Rightarrow> ([], Inl e)
      | Inr encoded \<Rightarrow>
          let request = with_header (secure_http_post (oa_http p) (oa_endpoint p))
                          ''authorization'' (oa_authorization p)
          in io_then (send lib (oa_http p) request encoded) (\<lambda>bytes.
               and_then (ok_or MalformedResponse (from_slice bytes)) (\<lambda>response.
               and_then (openai_extract_text response (oa_limits p)) (\<lambda>text.
                 Inr \<lparr>resp_provider = OpenAi, resp_model = set_model (oa_settings p),
                      resp_text = text\<rparr>))))"

section \<open>The connector contract\<close>

lemma openai_extract_Ok:
  "openai_extract_text r l = Inr t \<Longrightarrow> t \<noteq> [] \<and> length t \<le> max_output_bytes l"
  by (auto simp: openai_extract_text_def dest: collect_output_Ok split: if_splits)

interpretation openai: ai_connector lib "openai_generate lib from_slice p" OpenAi
    "set_model (oa_settings p)" "oa_http p" "oa_endpoint p" "[(''authorization'', oa_authorization p)]"
    "\<lambda>req. openai_request_json (openai_body p req)"
    "\<lambda>bytes. and_then (ok_or MalformedResponse (from_slice bytes))
       (\<lambda>response. openai_extract_text response (oa_limits p))"
    "oa_limits p"
  for lib from_slice p
proof unfold_locales
  show "openai_generate lib from_slice p req =
      (case encode lib (oa_http p) (openai_request_json (openai_body p req)) of
         Inl e \<Rightarrow> ([], Inl e)
       | Inr encoded \<Rightarrow>
           io_then (send lib (oa_http p)
               (foldl (\<lambda>r h. with_header r (fst h) (snd h))
                 (secure_http_post (oa_http p) (oa_endpoint p)) [(''authorization'', oa_authorization p)])
               encoded) (\<lambda>bytes.
             and_then (and_then (ok_or MalformedResponse (from_slice bytes))
                 (\<lambda>response. openai_extract_text response (oa_limits p))) (\<lambda>text.
               Inr \<lparr>resp_provider = OpenAi, resp_model = set_model (oa_settings p), resp_text = text\<rparr>)))"
    for req
    by (simp add: openai_generate_def and_then_assoc Let_def split: sum.splits)
qed (auto dest: openai_extract_Ok)

section \<open>Reading a response\<close>

definition openai_item_ok :: "openai_output \<Rightarrow> bool" where
  "openai_item_ok item \<longleftrightarrow>
     (oo_kind item = ''reasoning'' \<and> oo_content item = []) \<or>
     (oo_kind item = ''message'' \<and> oo_role item = Some ''assistant'' \<and>
      oo_status item = Some ''completed'' \<and>
      list_all (\<lambda>c. oc_kind c = ''output_text'' \<and> oc_text c \<noteq> None) (oo_content item))"

definition openai_messages :: "openai_response \<Rightarrow> openai_output list" where
  "openai_messages r = filter (\<lambda>item. oo_kind item = ''message'') (or_output r)"

definition openai_texts :: "openai_output \<Rightarrow> str list" where
  "openai_texts item = map (\<lambda>c. the (oc_text c)) (oo_content item)"

lemma openai_contents_Inr:
  "collect_results openai_content_text cs = Inr ts \<longleftrightarrow>
     list_all (\<lambda>c. oc_kind c = ''output_text'' \<and> oc_text c \<noteq> None) cs \<and>
     ts = map (\<lambda>c. the (oc_text c)) cs"
proof (induction cs arbitrary: ts)
  case (Cons c cs)
  have c: "openai_content_text c = Inr t \<longleftrightarrow> oc_kind c = ''output_text'' \<and> oc_text c = Some t" for t
    by (simp add: openai_content_text_def)
  show ?case by (auto simp: c Cons simp del: collect_results.simps(2))
qed auto

lemma openai_items_Inr:
  "try_fold openai_item (ts, n) items = Inr (ts', n') \<longleftrightarrow>
     list_all openai_item_ok items \<and>
     ts' = ts @ concat (map openai_texts (filter (\<lambda>i. oo_kind i = ''message'') items)) \<and>
     n' = n + length (filter (\<lambda>i. oo_kind i = ''message'') items)"
proof (induction items arbitrary: ts n)
  case (Cons item items)
  let ?acc = "if oo_kind item = ''message'' then (ts @ openai_texts item, n + 1) else (ts, n)"
  have eq: "openai_item (ts, n) item = Inr acc \<longleftrightarrow> openai_item_ok item \<and> acc = ?acc" for acc
    by (auto simp: openai_item_def openai_item_ok_def openai_contents_Inr openai_texts_def)
  show ?case
  proof (cases "openai_item_ok item")
    case True
    then have "openai_item (ts, n) item = Inr ?acc" by (simp only: eq)
    with True show ?thesis by (auto simp: Cons)
  next
    case False
    with eq obtain e where "openai_item (ts, n) item = Inl e"
      by (cases "openai_item (ts, n) item") auto
    with False show ?thesis by simp
  qed
qed auto

text \<open>
  C36. The OpenAI reader accepts exactly the finished, text-only answers: status
  \<open>completed\<close> with no error, at least one message, every item either an empty reasoning item
  or a completed assistant message made of \<open>output_text\<close> parts only. One refusal, tool call
  or unfinished item anywhere rejects the whole answer. The text is the bounded join of all
  parts.
\<close>

theorem openai_text_exactly_when_complete:
  "openai_extract_text r l = Inr t \<longleftrightarrow>
     or_status r = ''completed'' \<and> or_error r = None \<and> or_incomplete_details r = None \<and>
     list_all openai_item_ok (or_output r) \<and> openai_messages r \<noteq> [] \<and>
     collect_output (concat (map openai_texts (openai_messages r))) l = Inr t"
  by (auto simp: openai_extract_text_def openai_items_Inr openai_messages_def split: if_splits)

end
