(* ===== verification/Ai_Anthropic.thy ===== *)
theory Ai_Anthropic
  imports Ai_Connector
begin

text \<open>
  The Anthropic Messages connector, \<open>src/ai/anthropic.rs\<close>.
\<close>

definition ANTHROPIC_ENDPOINT :: str where
  "ANTHROPIC_ENDPOINT = ''https://api.anthropic.com/v1/messages''"
definition ANTHROPIC_HOST :: str where "ANTHROPIC_HOST = ''api.anthropic.com''"
definition ANTHROPIC_VERSION :: str where "ANTHROPIC_VERSION = ''2023-06-01''"

record anthropic_provider =
  an_settings :: provider_settings
  an_http :: secure_http
  an_endpoint :: url
  an_api_key :: header_value
  an_limits :: limits

definition anthropic_new ::
  "'z http_lib_scheme \<Rightarrow> str \<Rightarrow> provider_settings \<Rightarrow> limits \<Rightarrow> provider_error + anthropic_provider" where
  "anthropic_new lib pkg_version settings l =
     and_then (fixed_endpoint lib ANTHROPIC_ENDPOINT ANTHROPIC_HOST) (\<lambda>endpoint.
     and_then (secret_header lib (set_api_key settings) None) (\<lambda>api_key.
     and_then (secure_http_new lib pkg_version l) (\<lambda>http.
       Inr \<lparr>an_settings = settings, an_http = http, an_endpoint = endpoint,
            an_api_key = api_key, an_limits = l\<rparr>)))"

record anthropic_message =
  am_role :: str
  am_content :: str

record anthropic_request =
  areq_model :: str
  areq_system :: str
  areq_messages :: "anthropic_message list"
  areq_max_tokens :: u32

definition anthropic_message_json :: "anthropic_message \<Rightarrow> json" where
  "anthropic_message_json m = JObj [(''role'', JStr (am_role m)), (''content'', JStr (am_content m))]"

definition anthropic_request_json :: "anthropic_request \<Rightarrow> json" where
  "anthropic_request_json r = JObj
     [(''model'', JStr (areq_model r)), (''system'', JStr (areq_system r)),
      (''messages'', JArr (map anthropic_message_json (areq_messages r))),
      (''max_tokens'', JNum (unat (areq_max_tokens r)))]"

definition anthropic_body :: "anthropic_provider \<Rightarrow> ai_request \<Rightarrow> anthropic_request" where
  "anthropic_body p req =
     \<lparr>areq_model = model_as_str (set_model (an_settings p)), areq_system = req_instructions req,
      areq_messages = [\<lparr>am_role = ''user'', am_content = req_input req\<rparr>],
      areq_max_tokens = req_max_output_tokens req\<rparr>"

record anthropic_content =
  ac_kind :: str
  ac_text :: "str option"
  ac_thinking :: "str option"
  ac_signature :: "str option"

record anthropic_response =
  ar_kind :: str
  ar_role :: str
  ar_stop_reason :: str
  ar_content :: "anthropic_content list"

definition anthropic_stop_reason :: "str \<Rightarrow> provider_error + unit" where
  "anthropic_stop_reason reason =
     (if reason = ''end_turn'' then Inr ()
      else if reason = ''refusal'' then Inl RejectedResponse
      else if reason = ''max_tokens'' \<or> reason = ''pause_turn'' \<or> reason = ''model_context_window_exceeded''
      then Inl IncompleteResponse
      else Inl UnsupportedResponse)"

definition anthropic_block :: "anthropic_content \<Rightarrow> provider_error + str option" where
  "anthropic_block content =
     (if ac_kind content = ''text'' then
        (if ac_thinking content \<noteq> None \<or> ac_signature content \<noteq> None then Inl UnsupportedResponse
         else and_then (ok_or MalformedResponse (ac_text content)) (\<lambda>t. Inr (Some t)))
      else if ac_kind content = ''thinking'' \<and> ac_text content = None \<and> ac_thinking content = Some [] \<and>
         (case ac_signature content of None \<Rightarrow> False | Some value \<Rightarrow> value \<noteq> [])
      then Inr None
      else Inl UnsupportedResponse)"

definition anthropic_extract_text :: "anthropic_response \<Rightarrow> limits \<Rightarrow> provider_error + str" where
  "anthropic_extract_text response l =
     (if ar_kind response \<noteq> ''message'' \<or> ar_role response \<noteq> ''assistant'' then Inl MalformedResponse
      else and_then (anthropic_stop_reason (ar_stop_reason response)) (\<lambda>_.
           and_then (collect_results anthropic_block (ar_content response)) (\<lambda>blocks.
             collect_output (List.map_filter (\<lambda>b. b) blocks) l)))"

definition anthropic_generate ::
  "'z http_lib_scheme \<Rightarrow> (str \<Rightarrow> anthropic_response option) \<Rightarrow> anthropic_provider \<Rightarrow> ai_request \<Rightarrow> ai_response io" where
  "anthropic_generate lib from_slice p req =
     (case encode lib (an_http p) (anthropic_request_json (anthropic_body p req)) of
        Inl e \<Rightarrow> ([], Inl e)
      | Inr encoded \<Rightarrow>
          let request = with_header
                (with_header (secure_http_post (an_http p) (an_endpoint p)) ''x-api-key'' (an_api_key p))
                ''anthropic-version'' (plain_header ANTHROPIC_VERSION)
          in io_then (send lib (an_http p) request encoded) (\<lambda>bytes.
               and_then (ok_or MalformedResponse (from_slice bytes)) (\<lambda>response.
               and_then (anthropic_extract_text response (an_limits p)) (\<lambda>text.
                 Inr \<lparr>resp_provider = Anthropic, resp_model = set_model (an_settings p),
                      resp_text = text\<rparr>))))"

section \<open>The connector contract\<close>

lemma anthropic_extract_Ok:
  "anthropic_extract_text r l = Inr t \<Longrightarrow> t \<noteq> [] \<and> length t \<le> max_output_bytes l"
  by (auto simp: anthropic_extract_text_def dest: collect_output_Ok split: if_splits)

interpretation anthropic: ai_connector lib "anthropic_generate lib from_slice p" Anthropic
    "set_model (an_settings p)" "an_http p" "an_endpoint p"
    "[(''x-api-key'', an_api_key p), (''anthropic-version'', plain_header ANTHROPIC_VERSION)]"
    "\<lambda>req. anthropic_request_json (anthropic_body p req)"
    "\<lambda>bytes. and_then (ok_or MalformedResponse (from_slice bytes))
       (\<lambda>response. anthropic_extract_text response (an_limits p))"
    "an_limits p"
  for lib from_slice p
  by unfold_locales
    (auto simp: anthropic_generate_def and_then_assoc Let_def dest: anthropic_extract_Ok
      split: sum.splits)

section \<open>Reading a response\<close>

definition anthropic_text_block :: "anthropic_content \<Rightarrow> bool" where
  "anthropic_text_block c \<longleftrightarrow> ac_kind c = ''text'' \<and> ac_text c \<noteq> None \<and> ac_thinking c = None \<and> ac_signature c = None"

definition anthropic_omitted_thinking :: "anthropic_content \<Rightarrow> bool" where
  "anthropic_omitted_thinking c \<longleftrightarrow> ac_kind c = ''thinking'' \<and> ac_text c = None \<and> ac_thinking c = Some [] \<and>
     (\<exists>s. ac_signature c = Some s \<and> s \<noteq> [])"

lemma anthropic_block_Inr:
  "anthropic_block c = Inr b \<longleftrightarrow>
     anthropic_text_block c \<and> b = ac_text c \<or> anthropic_omitted_thinking c \<and> b = None"
  by (auto simp: anthropic_block_def anthropic_text_block_def anthropic_omitted_thinking_def
      split: option.splits)

lemma anthropic_blocks_Inr:
  "collect_results anthropic_block cs = Inr bs \<longleftrightarrow>
     list_all (\<lambda>c. anthropic_text_block c \<or> anthropic_omitted_thinking c) cs \<and> bs = map ac_text cs"
proof (induction cs arbitrary: bs)
  case (Cons c cs)
  have "anthropic_block c = Inr b \<longleftrightarrow>
      (anthropic_text_block c \<or> anthropic_omitted_thinking c) \<and> b = ac_text c" for b
    by (auto simp: anthropic_block_Inr anthropic_text_block_def anthropic_omitted_thinking_def)
  then show ?case by (auto simp: Cons simp del: collect_results.simps(2))
qed auto

text \<open>
  C37. The Anthropic reader accepts exactly assistant messages that ended their turn and
  consist of plain text blocks and omitted thinking blocks; the text is the bounded join of
  the text blocks, so a thinking block, a signature or a tool call never reaches the output.
\<close>

theorem anthropic_text_exactly_when_complete:
  "anthropic_extract_text r l = Inr t \<longleftrightarrow>
     ar_kind r = ''message'' \<and> ar_role r = ''assistant'' \<and> ar_stop_reason r = ''end_turn'' \<and>
     list_all (\<lambda>c. anthropic_text_block c \<or> anthropic_omitted_thinking c) (ar_content r) \<and>
     collect_output (map (\<lambda>c. the (ac_text c)) (filter anthropic_text_block (ar_content r))) l = Inr t"
proof -
  have texts: "List.map_filter (\<lambda>b. b) (map ac_text cs) =
      map (\<lambda>c. the (ac_text c)) (filter anthropic_text_block cs)"
    if "list_all (\<lambda>c. anthropic_text_block c \<or> anthropic_omitted_thinking c) cs" for cs
    using that
    by (induction cs)
      (auto simp: List.map_filter_simps anthropic_text_block_def anthropic_omitted_thinking_def)
  have stop: "anthropic_stop_reason s = Inr u \<longleftrightarrow> s = ''end_turn''" for s u
    by (simp add: anthropic_stop_reason_def)
  show ?thesis
    by (auto simp: anthropic_extract_text_def anthropic_blocks_Inr stop texts split: if_splits)
qed

end
