(* ===== verification/Ai_Gemini.thy ===== *)
theory Ai_Gemini
  imports Ai_Connector
begin

text \<open>
  The Gemini \<open>generateContent\<close> connector, \<open>src/ai/gemini.rs\<close>. The model identifier is part
  of its endpoint's path.
\<close>

definition GEMINI_HOST :: str where "GEMINI_HOST = ''generativelanguage.googleapis.com''"

record gemini_provider =
  ge_settings :: provider_settings
  ge_http :: secure_http
  ge_endpoint :: url
  ge_api_key :: header_value
  ge_limits :: limits

definition gemini_endpoint_text :: "model_id \<Rightarrow> str" where
  "gemini_endpoint_text model =
     ''https://'' @ GEMINI_HOST @ ''/v1beta/models/'' @ model_as_str model @ '':generateContent''"

definition gemini_new ::
  "'z http_lib_scheme \<Rightarrow> str \<Rightarrow> provider_settings \<Rightarrow> limits \<Rightarrow> provider_error + gemini_provider" where
  "gemini_new lib pkg_version settings l =
     and_then (fixed_endpoint lib (gemini_endpoint_text (set_model settings)) GEMINI_HOST) (\<lambda>endpoint.
     and_then (secret_header lib (set_api_key settings) None) (\<lambda>api_key.
     and_then (secure_http_new lib pkg_version l) (\<lambda>http.
       Inr \<lparr>ge_settings = settings, ge_http = http, ge_endpoint = endpoint,
            ge_api_key = api_key, ge_limits = l\<rparr>)))"

record gemini_content =
  gc_parts :: "str list"

record gemini_request =
  greq_system_instruction :: gemini_content
  greq_contents :: "gemini_content list"
  greq_max_output_tokens :: u32

definition gemini_content_json :: "gemini_content \<Rightarrow> json" where
  "gemini_content_json c = JObj [(''parts'', JArr (map (\<lambda>t. JObj [(''text'', JStr t)]) (gc_parts c)))]"

definition gemini_request_json :: "gemini_request \<Rightarrow> json" where
  "gemini_request_json r = JObj
     [(''systemInstruction'', gemini_content_json (greq_system_instruction r)),
      (''contents'', JArr (map gemini_content_json (greq_contents r))),
      (''generationConfig'', JObj [(''maxOutputTokens'', JNum (unat (greq_max_output_tokens r)))])]"

definition gemini_body :: "ai_request \<Rightarrow> gemini_request" where
  "gemini_body req =
     \<lparr>greq_system_instruction = \<lparr>gc_parts = [req_instructions req]\<rparr>,
      greq_contents = [\<lparr>gc_parts = [req_input req]\<rparr>],
      greq_max_output_tokens = req_max_output_tokens req\<rparr>"

record gemini_part =
  gp_text :: "str option"
  gp_thought :: bool
  gp_other :: "(str \<times> json) list"

record gemini_response_content =
  grc_role :: str
  grc_parts :: "gemini_part list"

record gemini_prompt_feedback =
  gpf_block_reason :: "str option"

record gemini_safety_rating =
  gsr_blocked :: "bool option"

record gemini_candidate =
  gcand_content :: gemini_response_content
  gcand_finish_reason :: "str option"
  gcand_safety_ratings :: "gemini_safety_rating list"

record gemini_response =
  gr_candidates :: "gemini_candidate list"
  gr_prompt_feedback :: "gemini_prompt_feedback option"

definition gemini_finish_reason :: "str option \<Rightarrow> provider_error + unit" where
  "gemini_finish_reason reason =
     (case reason of
        None \<Rightarrow> Inl IncompleteResponse
      | Some r \<Rightarrow>
          if r = ''STOP'' then Inr ()
          else if r = ''MAX_TOKENS'' then Inl IncompleteResponse
          else if r \<in> set [''SAFETY'', ''RECITATION'', ''BLOCKLIST'', ''PROHIBITED_CONTENT'', ''SPII'',
                           ''IMAGE_SAFETY'']
          then Inl RejectedResponse
          else Inl UnsupportedResponse)"

definition gemini_part_text :: "gemini_part \<Rightarrow> provider_error + str" where
  "gemini_part_text part =
     (if gp_thought part \<or> gp_other part \<noteq> [] then Inl UnsupportedResponse
      else ok_or UnsupportedResponse (gp_text part))"

definition gemini_extract_text :: "gemini_response \<Rightarrow> limits \<Rightarrow> provider_error + str" where
  "gemini_extract_text response l =
     (if Option.bind (gr_prompt_feedback response) gpf_block_reason \<noteq> None then Inl RejectedResponse
      else case gr_candidates response of
             [candidate] \<Rightarrow>
               and_then (gemini_finish_reason (gcand_finish_reason candidate)) (\<lambda>_.
                 if list_ex (\<lambda>rating. gsr_blocked rating = Some True) (gcand_safety_ratings candidate)
                 then Inl RejectedResponse
                 else if grc_role (gcand_content candidate) \<noteq> ''model'' then Inl MalformedResponse
                 else and_then (collect_results gemini_part_text (grc_parts (gcand_content candidate)))
                        (\<lambda>output_text. collect_output output_text l))
           | candidates \<Rightarrow>
               if candidates = [] then Inl RejectedResponse else Inl UnsupportedResponse)"

definition gemini_generate ::
  "'z http_lib_scheme \<Rightarrow> (str \<Rightarrow> gemini_response option) \<Rightarrow> gemini_provider \<Rightarrow> ai_request \<Rightarrow> ai_response io" where
  "gemini_generate lib from_slice p req =
     (case encode lib (ge_http p) (gemini_request_json (gemini_body req)) of
        Inl e \<Rightarrow> ([], Inl e)
      | Inr encoded \<Rightarrow>
          let request = with_header (secure_http_post (ge_http p) (ge_endpoint p))
                          ''x-goog-api-key'' (ge_api_key p)
          in io_then (send lib (ge_http p) request encoded) (\<lambda>bytes.
               and_then (ok_or MalformedResponse (from_slice bytes)) (\<lambda>response.
               and_then (gemini_extract_text response (ge_limits p)) (\<lambda>text.
                 Inr \<lparr>resp_provider = Gemini, resp_model = set_model (ge_settings p),
                      resp_text = text\<rparr>))))"

section \<open>The connector contract\<close>

lemma gemini_extract_Ok:
  "gemini_extract_text r l = Inr t \<Longrightarrow> t \<noteq> [] \<and> length t \<le> max_output_bytes l"
  by (auto simp: gemini_extract_text_def dest: collect_output_Ok split: if_splits list.splits)

interpretation gemini: ai_connector lib "gemini_generate lib from_slice p" Gemini
    "set_model (ge_settings p)" "ge_http p" "ge_endpoint p" "[(''x-goog-api-key'', ge_api_key p)]"
    "\<lambda>req. gemini_request_json (gemini_body req)"
    "\<lambda>bytes. and_then (ok_or MalformedResponse (from_slice bytes))
       (\<lambda>response. gemini_extract_text response (ge_limits p))"
    "ge_limits p"
  for lib from_slice p
  by unfold_locales
    (auto simp: gemini_generate_def and_then_assoc Let_def dest: gemini_extract_Ok split: sum.splits)

section \<open>Reading a response\<close>

lemma gemini_parts_Inr:
  "collect_results gemini_part_text ps = Inr ts \<longleftrightarrow>
     list_all (\<lambda>p. \<not> gp_thought p \<and> gp_other p = [] \<and> gp_text p \<noteq> None) ps \<and>
     ts = map (\<lambda>p. the (gp_text p)) ps"
proof (induction ps arbitrary: ts)
  case (Cons p ps)
  have p: "gemini_part_text p = Inr t \<longleftrightarrow> \<not> gp_thought p \<and> gp_other p = [] \<and> gp_text p = Some t" for t
    by (simp add: gemini_part_text_def)
  show ?case by (auto simp: p Cons simp del: collect_results.simps(2))
qed auto

lemma gemini_finish_Inr: "gemini_finish_reason r = Inr u \<longleftrightarrow> r = Some ''STOP''"
  by (auto simp: gemini_finish_reason_def split: option.splits if_splits)

text \<open>
  C38. The Gemini reader accepts exactly unblocked answers with one candidate that stopped
  normally, that no safety rating blocks, that the model authored, and whose parts are all
  visible text with no further field (a function call, inline data, a thought).
\<close>

theorem gemini_text_exactly_when_complete:
  "gemini_extract_text r l = Inr t \<longleftrightarrow>
     (case gr_prompt_feedback r of None \<Rightarrow> True | Some feedback \<Rightarrow> gpf_block_reason feedback = None) \<and>
     (\<exists>c. gr_candidates r = [c] \<and> gcand_finish_reason c = Some ''STOP'' \<and>
        list_all (\<lambda>rating. gsr_blocked rating \<noteq> Some True) (gcand_safety_ratings c) \<and> grc_role (gcand_content c) = ''model'' \<and>
        list_all (\<lambda>p. \<not> gp_thought p \<and> gp_other p = [] \<and> gp_text p \<noteq> None)
          (grc_parts (gcand_content c)) \<and>
        collect_output (map (\<lambda>p. the (gp_text p)) (grc_parts (gcand_content c))) l = Inr t)"
  by (cases "gr_prompt_feedback r")
    (auto simp: gemini_extract_text_def gemini_finish_Inr gemini_parts_Inr list_ex_iff list_all_iff
      split: list.splits if_splits)

end
