(* ===== verification/Ai_Registry_Laws.thy ===== *)
theory Ai_Registry_Laws
  imports Ai_Registry
begin

text \<open>
  What the registry guarantees: its statuses say exactly which connectors answer, providers
  are configured independently, every request stays on its provider's origin under the
  hardened client, and the credential reaches nothing but sensitive headers. The dispatch
  over connectors interprets \<open>ai_connector\<close> from the three connectors.
\<close>

section \<open>The dispatch is a connector\<close>

fun connector_settings :: "connector \<Rightarrow> provider_settings" where
  "connector_settings (OpenAiConnector p) = oa_settings p"
| "connector_settings (AnthropicConnector p) = an_settings p"
| "connector_settings (GeminiConnector p) = ge_settings p"

fun connector_http :: "connector \<Rightarrow> secure_http" where
  "connector_http (OpenAiConnector p) = oa_http p"
| "connector_http (AnthropicConnector p) = an_http p"
| "connector_http (GeminiConnector p) = ge_http p"

fun connector_endpoint :: "connector \<Rightarrow> url" where
  "connector_endpoint (OpenAiConnector p) = oa_endpoint p"
| "connector_endpoint (AnthropicConnector p) = an_endpoint p"
| "connector_endpoint (GeminiConnector p) = ge_endpoint p"

fun connector_limits :: "connector \<Rightarrow> limits" where
  "connector_limits (OpenAiConnector p) = oa_limits p"
| "connector_limits (AnthropicConnector p) = an_limits p"
| "connector_limits (GeminiConnector p) = ge_limits p"

fun connector_headers :: "connector \<Rightarrow> (str \<times> header_value) list" where
  "connector_headers (OpenAiConnector p) = [(''authorization'', oa_authorization p)]"
| "connector_headers (AnthropicConnector p) =
     [(''x-api-key'', an_api_key p), (''anthropic-version'', plain_header ANTHROPIC_VERSION)]"
| "connector_headers (GeminiConnector p) = [(''x-goog-api-key'', ge_api_key p)]"

fun connector_body :: "connector \<Rightarrow> ai_request \<Rightarrow> json" where
  "connector_body (OpenAiConnector p) req = openai_request_json (openai_body p req)"
| "connector_body (AnthropicConnector p) req = anthropic_request_json (anthropic_body p req)"
| "connector_body (GeminiConnector p) req = gemini_request_json (gemini_body req)"

fun connector_decode :: "'z ai_lib_scheme \<Rightarrow> connector \<Rightarrow> str \<Rightarrow> provider_error + str" where
  "connector_decode lib (OpenAiConnector p) bytes =
     and_then (ok_or MalformedResponse (lib_openai_from_slice lib bytes))
       (\<lambda>response. openai_extract_text response (oa_limits p))"
| "connector_decode lib (AnthropicConnector p) bytes =
     and_then (ok_or MalformedResponse (lib_anthropic_from_slice lib bytes))
       (\<lambda>response. anthropic_extract_text response (an_limits p))"
| "connector_decode lib (GeminiConnector p) bytes =
     and_then (ok_or MalformedResponse (lib_gemini_from_slice lib bytes))
       (\<lambda>response. gemini_extract_text response (ge_limits p))"

lemma connector_functions:
  "connector_generate lib (OpenAiConnector p) = openai_generate lib (lib_openai_from_slice lib) p"
  "connector_generate lib (AnthropicConnector q) = anthropic_generate lib (lib_anthropic_from_slice lib) q"
  "connector_generate lib (GeminiConnector r) = gemini_generate lib (lib_gemini_from_slice lib) r"
  "connector_body (OpenAiConnector p) = (\<lambda>req. openai_request_json (openai_body p req))"
  "connector_body (AnthropicConnector q) = (\<lambda>req. anthropic_request_json (anthropic_body q req))"
  "connector_body (GeminiConnector r) = (\<lambda>req. gemini_request_json (gemini_body req))"
  "connector_decode lib (OpenAiConnector p) =
     (\<lambda>bytes. and_then (ok_or MalformedResponse (lib_openai_from_slice lib bytes))
       (\<lambda>response. openai_extract_text response (oa_limits p)))"
  "connector_decode lib (AnthropicConnector q) =
     (\<lambda>bytes. and_then (ok_or MalformedResponse (lib_anthropic_from_slice lib bytes))
       (\<lambda>response. anthropic_extract_text response (an_limits q)))"
  "connector_decode lib (GeminiConnector r) =
     (\<lambda>bytes. and_then (ok_or MalformedResponse (lib_gemini_from_slice lib bytes))
       (\<lambda>response. gemini_extract_text response (ge_limits r)))"
  by (simp_all add: fun_eq_iff)

interpretation connector: ai_connector lib "connector_generate lib c" "connector_kind c"
    "set_model (connector_settings c)" "connector_http c" "connector_endpoint c"
    "connector_headers c" "connector_body c" "connector_decode lib c" "connector_limits c"
  for lib :: "'z ai_lib_scheme" and c
  by (cases c)
    (simp_all only: connector_functions connector_kind.simps connector_settings.simps
      connector_http.simps connector_endpoint.simps connector_headers.simps connector_limits.simps
      openai.ai_connector_axioms anthropic.ai_connector_axioms gemini.ai_connector_axioms)

section \<open>Construction\<close>

fun provider_host :: "provider_kind \<Rightarrow> str" where
  "provider_host OpenAi = OPENAI_HOST"
| "provider_host Anthropic = ANTHROPIC_HOST"
| "provider_host Gemini = GEMINI_HOST"

lemma connector_new_Inr:
  assumes "connector_new lib kind settings l = Inr c"
  shows "connector_kind c = kind \<and> connector_settings c = settings \<and> connector_limits c = l \<and>
    connector_http c = \<lparr>sh_client = secure_client_config (lib_pkg_version lib) l, sh_limits = l\<rparr> \<and>
    confined_to (provider_host kind) (connector_endpoint c) \<and>
    (\<forall>(name, v) \<in> set (connector_headers c). hv_sensitive v \<or> v = plain_header ANTHROPIC_VERSION)"
  using assms
  by (cases kind)
    (auto simp: connector_new_def openai_new_def anthropic_new_def gemini_new_def Let_def
      fixed_endpoint_Inr secret_header_Inr secure_http_new_Inr confined_to_def)

definition slot_ok :: "'z ai_lib_scheme \<Rightarrow> limits \<Rightarrow> provider_kind \<Rightarrow> provider_slot \<Rightarrow> bool" where
  "slot_ok lib l kind slot \<longleftrightarrow>
     (slot_state slot = ProviderReady \<longleftrightarrow> slot_provider slot \<noteq> None) \<and>
     (\<forall>c. slot_provider slot = Some c \<longrightarrow> (\<exists>settings. connector_new lib kind settings l = Inr c))"

lemma slot_unconfigured_ok: "slot_ok lib l kind slot_unconfigured"
  by (simp add: slot_ok_def slot_unconfigured_def)

lemma make_provider_from_settings_ok:
  "make_provider_from_settings lib kind settings l = (st, p) \<Longrightarrow>
     slot_ok lib l kind \<lparr>slot_state = st, slot_provider = p\<rparr>"
  by (auto simp: make_provider_from_settings_def slot_ok_def split: sum.splits)

lemma make_provider_ok:
  "make_provider lib kind key model l = (st, p) \<Longrightarrow>
     slot_ok lib l kind \<lparr>slot_state = st, slot_provider = p\<rparr>"
  by (auto simp: make_provider_def slot_ok_def split: env_value.splits sum.splits
      dest: make_provider_from_settings_ok [unfolded slot_ok_def, simplified])

lemma slot_from_settings_ok: "slot_ok lib l kind (slot_from_settings lib kind settings l)"
  by (auto simp: slot_from_settings_def intro: make_provider_from_settings_ok split: prod.splits)

lemma slot_from_env_ok: "slot_ok lib l kind (slot_from_env lib env kind l)"
  by (auto simp: slot_from_env_def Let_def intro: make_provider_ok split: prod.splits)

lemma collect_map_eq: "collect_map kvs = map_of (rev kvs)"
proof -
  have "foldl (\<lambda>m kv. m(fst kv \<mapsto> snd kv)) m kvs = m ++ map_of (rev kvs)" for m
    by (induction kvs arbitrary: m) (auto simp: map_add_def fun_eq_iff split: option.splits)
  then show ?thesis by (simp add: collect_map_def)
qed

lemma with_slots_slots: "reg_slots (with_slots l f) kind = Some (f kind)"
  by (cases kind) (simp_all add: with_slots_def collect_map_eq ALL_PROVIDERS_def)

lemma from_configuration_slots:
  "reg_slots (registry_from_configuration lib l cfg) kind =
     Some (case cfg kind of
             None \<Rightarrow> slot_unconfigured | Some settings \<Rightarrow> slot_from_settings lib kind settings l)"
  by (cases kind)
    (simp_all add: registry_from_configuration_def collect_map_eq configuration_entries_def
      ALL_PROVIDERS_def List.map_filter_simps split: option.splits)

text \<open>The registries that the public constructors build.\<close>

definition constructed :: "'z ai_lib_scheme \<Rightarrow> limits \<Rightarrow> provider_registry \<Rightarrow> bool" where
  "constructed lib l reg \<longleftrightarrow>
     reg = registry_empty l \<or> (\<exists>env. reg = registry_from_env lib env l) \<or>
     (\<exists>cfg. reg = registry_from_configuration lib l cfg)"

lemma constructed_from_configuration: "constructed lib l (registry_from_configuration lib l cfg)"
  by (auto simp: constructed_def)

lemma constructed_slot:
  assumes "constructed lib l reg"
  obtains slot where "reg_slots reg kind = Some slot" "slot_ok lib l kind slot" "reg_limits reg = l"
proof -
  have "\<exists>slot. reg_slots reg kind = Some slot \<and> slot_ok lib l kind slot"
    using assms
    by (auto simp: constructed_def registry_empty_def registry_from_env_def with_slots_slots
        from_configuration_slots slot_unconfigured_ok slot_from_env_ok slot_from_settings_ok
        split: option.splits)
  moreover have "reg_limits reg = l"
    using assms
    by (auto simp: constructed_def registry_empty_def registry_from_env_def with_slots_def
        registry_from_configuration_def)
  ultimately show thesis using that by blast
qed

lemma analyze_requests:
  assumes "constructed lib l reg" and "q \<in> set (fst (analyze lib reg provider kind instructions ev))"
  obtains slot c settings req where "reg_slots reg provider = Some slot" "slot_provider slot = Some c"
    "connector_new lib provider settings l = Inr c" "q \<in> set (fst (connector_generate lib c req))"
    "fst (analyze lib reg provider kind instructions ev) = fst (connector_generate lib c req)"
proof -
  obtain slot where s: "reg_slots reg provider = Some slot" "slot_ok lib l provider slot"
    using assms(1) by (rule constructed_slot)
  with assms(2) that show thesis
    by (fastforce simp: analyze_def slot_ok_def Let_def split: option.splits sum.splits)
qed

lemma analyze_response:
  assumes "constructed lib l reg" and "snd (analyze lib reg provider kind instructions ev) = Inr a"
  obtains slot c settings req where "reg_slots reg provider = Some slot" "slot_provider slot = Some c"
    "connector_new lib provider settings l = Inr c"
    "snd (connector_generate lib c req) = Inr (analysis_response a)" "analysis_kind_of a = kind"
proof -
  obtain slot where s: "reg_slots reg provider = Some slot" "slot_ok lib l provider slot"
    using assms(1) by (rule constructed_slot)
  with assms(2) that show thesis
    by (fastforce simp: analyze_def slot_ok_def Let_def split: option.splits sum.splits)
qed

section \<open>A concrete registry\<close>

definition example_ai_lib :: ai_lib where
  "example_ai_lib = http_lib.extend
     (example_lib \<lparr>rs_status = 200, rs_is_success = True, rs_content_length = None,
                   rs_body = [BodyChunk ''body'']\<rparr>)
     \<lparr>lib_openai_from_slice = (\<lambda>_. None),
      lib_anthropic_from_slice = (\<lambda>_. Some \<lparr>ar_kind = ''message'', ar_role = ''assistant'',
         ar_stop_reason = ''end_turn'',
         ar_content = [\<lparr>ac_kind = ''text'', ac_text = Some ''plan'', ac_thinking = None, ac_signature = None\<rparr>]\<rparr>),
      lib_gemini_from_slice = (\<lambda>_. None), lib_to_string = (\<lambda>_. Some ''{}''), lib_pkg_version = ''0''\<rparr>"

definition example_settings :: "str \<Rightarrow> provider_settings" where
  "example_settings key = \<lparr>set_api_key = Secret key, set_model = ModelId ''m''\<rparr>"

definition example_configuration :: "str \<Rightarrow> provider_configuration" where
  "example_configuration key = [Anthropic \<mapsto> example_settings key]"

definition example_evidence :: advisory_evidence where
  "example_evidence = \<lparr>adv_schema_version = ''ores.runtime-evidence.v1'',
     adv_observations = [evidence_new AiConnector Http TimeoutSymptom ErrorOutcome]\<rparr>"

lemma example_connector:
  assumes "list_all (\<lambda>c. byte_of c = 9 \<or> 32 \<le> byte_of c \<and> byte_of c < 127) key"
  shows "connector_new example_ai_lib Anthropic (example_settings key) limits_default =
    Inr (AnthropicConnector
      \<lparr>an_settings = example_settings key, an_http = example_http,
       an_endpoint = \<lparr>url_scheme = ''https'',
         url_host = Some ''api.anthropic.com'', url_username = [], url_password = None, url_port = None,
         url_path = ''/v1/messages'', url_query = None, url_fragment = None\<rparr>,
       an_api_key = \<lparr>hv_value = key, hv_sensitive = True\<rparr>, an_limits = limits_default\<rparr>)"
proof -
  have "example_parse_url ANTHROPIC_ENDPOINT = Some \<lparr>url_scheme = ''https'',
      url_host = Some ''api.anthropic.com'', url_username = [], url_password = None, url_port = None,
      url_path = ''/v1/messages'', url_query = None, url_fragment = None\<rparr>"
    by (simp add: example_parse_url_def ANTHROPIC_ENDPOINT_def)
  with assms show ?thesis
    by (simp add: connector_new_def anthropic_new_def fixed_endpoint_def secret_header_def
        secure_http_new_def Let_def example_ai_lib_def example_lib_def http_lib.defs
        example_settings_def ANTHROPIC_HOST_def example_http_def)
qed

lemma example_key: "list_all (\<lambda>c. byte_of c = 9 \<or> 32 \<le> byte_of c \<and> byte_of c < 127) ''key''"
  by (simp add: byte_of_def)

lemma example_collect: "collect_output [''plan''] limits_default = Inr ''plan''"
proof -
  have "max_output_bytes limits_default < usize_limit"
    by (simp add: limits_default_def usize_limit_def)
  moreover have "trim ''plan'' \<noteq> []"
    by (simp add: trim_eq_Nil chars_def is_whitespace_def utf8_width_def byte_of_def)
  ultimately show ?thesis
    by (simp add: collect_output_eq limits_default_def)
qed

lemma example_ai_request:
  "ai_request_new [] ''{}'' limits_default =
     Inr \<lparr>req_instructions = [], req_input = ''{}'', req_max_output_tokens = DEFAULT_MAX_OUTPUT_TOKENS\<rparr>"
proof -
  have "trim ''{}'' \<noteq> []"
    by (simp add: trim_eq_Nil chars_def is_whitespace_def utf8_width_def byte_of_def)
  then show ?thesis
    by (simp add: ai_request_new_def checked_add_usize_def usize_limit_def
        input_limit.check_eq limits_default_def)
qed

lemma example_analysis:
  "\<exists>q. analyze example_ai_lib
     (registry_from_configuration example_ai_lib limits_default (example_configuration ''key''))
     Anthropic Discovery [] example_evidence =
     ([q], Inr \<lparr>analysis_kind_of = Discovery, analysis_response =
       \<lparr>resp_provider = Anthropic, resp_model = ModelId ''m'', resp_text = ''plan''\<rparr>\<rparr>)"
proof -
  let ?reg = "registry_from_configuration example_ai_lib limits_default (example_configuration ''key'')"
  let ?c = "AnthropicConnector
      \<lparr>an_settings = example_settings ''key'', an_http = example_http,
       an_endpoint = \<lparr>url_scheme = ''https'',
         url_host = Some ''api.anthropic.com'', url_username = [], url_password = None, url_port = None,
         url_path = ''/v1/messages'', url_query = None, url_fragment = None\<rparr>,
       an_api_key = \<lparr>hv_value = ''key'', hv_sensitive = True\<rparr>, an_limits = limits_default\<rparr>"
  have slot: "reg_slots ?reg Anthropic = Some \<lparr>slot_state = ProviderReady, slot_provider = Some ?c\<rparr>"
    by (simp add: from_configuration_slots example_configuration_def slot_from_settings_def
        make_provider_from_settings_def example_connector [OF example_key])
  have gen: "\<exists>q. connector_generate example_ai_lib ?c req =
      ([q], Inr \<lparr>resp_provider = Anthropic, resp_model = ModelId ''m'', resp_text = ''plan''\<rparr>)" for req
    by (simp add: anthropic_generate_def encode_def request_limit.check_eq send_def Let_def io_then_def
        read_response_def checked_add_usize_def usize_limit_def response_limit.check_eq
        anthropic_extract_text_def anthropic_stop_reason_def anthropic_block_def example_collect
        List.map_filter_simps example_settings_def example_ai_lib_def example_lib_def http_lib.defs
        example_http_def) (simp add: limits_default_def)
  have "lib_to_string example_ai_lib j = Some ''{}''" for j
    by (simp add: example_ai_lib_def http_lib.defs)
  moreover have "reg_limits ?reg = limits_default" by (simp add: registry_from_configuration_def)
  ultimately show ?thesis
    using gen [of "\<lparr>req_instructions = [], req_input = ''{}'', req_max_output_tokens = DEFAULT_MAX_OUTPUT_TOKENS\<rparr>"]
    by (auto simp: analyze_def slot example_ai_request Let_def)
qed

section \<open>Statuses\<close>

text \<open>
  C35. The statuses of a registry list every provider once, in the fixed order, and tell the
  truth: a provider is \<open>Ready\<close> exactly when an advisory call for it is not refused as
  unconfigured, and for every other provider the call is refused without any request.
\<close>

theorem statuses_are_truthful:
  assumes "constructed lib l reg"
  shows "map status_kind (statuses reg) = ALL_PROVIDERS \<and>
    list_all (\<lambda>st. let r = analyze lib reg (status_kind st) kind instructions ev
       in if status_state st = ProviderReady
          then snd r \<noteq> Inl (ProviderNotConfigured (status_kind st))
          else r = ([], Inl (ProviderNotConfigured (status_kind st)))) (statuses reg)"
proof -
  have "if (case reg_slots reg k of None \<Rightarrow> MissingBoth | Some slot \<Rightarrow> slot_state slot) = ProviderReady
      then snd (analyze lib reg k kind instructions ev) \<noteq> Inl (ProviderNotConfigured k)
      else analyze lib reg k kind instructions ev = ([], Inl (ProviderNotConfigured k))" for k
  proof -
    obtain slot where "reg_slots reg k = Some slot" "slot_ok lib l k slot"
      using assms by (rule constructed_slot)
    then show ?thesis
      by (auto simp: analyze_def slot_ok_def Let_def and_then_Inl split: option.splits sum.splits)
  qed
  note ready = this
  show ?thesis
    using ready [of OpenAi] ready [of Anthropic] ready [of Gemini]
    by (simp add: statuses_def comp_def ALL_PROVIDERS_def Let_def)
qed

theorem statuses_are_truthful_witness:
  "map status_kind (statuses (registry_empty limits_default)) = [OpenAi, Anthropic, Gemini] \<and>
   analyze example_ai_lib (registry_empty limits_default) Gemini Discovery [] example_evidence =
     ([], Inl (ProviderNotConfigured Gemini))"
proof -
  have c: "constructed example_ai_lib limits_default (registry_empty limits_default)"
    by (simp add: constructed_def)
  have s: "statuses (registry_empty limits_default) =
      map (\<lambda>k. \<lparr>status_kind = k, status_state = MissingBoth\<rparr>) [OpenAi, Anthropic, Gemini]"
    by (simp add: statuses_def registry_empty_def with_slots_slots slot_unconfigured_def ALL_PROVIDERS_def)
  show ?thesis
    using statuses_are_truthful [OF c, of Discovery "[]" example_evidence]
    by (simp add: s ALL_PROVIDERS_def Let_def)
qed

section \<open>Answers\<close>

text \<open>
  C29. A successful advisory call returns the requested kind of analysis, attributed to the
  provider that was asked and to the model configured for it, with non-empty text no longer
  than the output limit of the registry; it took exactly one request.
\<close>

theorem analysis_is_attributed_and_bounded:
  assumes "snd (analyze lib (registry_from_configuration lib l cfg) provider kind instructions ev) = Inr a"
  shows "\<exists>settings. cfg provider = Some settings \<and> analysis_kind_of a = kind \<and>
    resp_provider (analysis_response a) = provider \<and>
    resp_model (analysis_response a) = set_model settings \<and>
    resp_text (analysis_response a) \<noteq> [] \<and>
    length (resp_text (analysis_response a)) \<le> max_output_bytes l \<and>
    length (fst (analyze lib (registry_from_configuration lib l cfg) provider kind instructions ev)) = 1"
proof -
  let ?reg = "registry_from_configuration lib l cfg"
  obtain slot where slot: "reg_slots ?reg provider = Some slot"
    using constructed_slot [OF constructed_from_configuration] by metis
  with assms obtain c req where c: "slot_provider slot = Some c"
      "snd (connector_generate lib c req) = Inr (analysis_response a)" "analysis_kind_of a = kind"
      "fst (analyze lib ?reg provider kind instructions ev) = fst (connector_generate lib c req)"
    by (fastforce simp: analyze_def Let_def split: option.splits sum.splits)
  from slot c(1) obtain settings where s: "cfg provider = Some settings"
      "connector_new lib provider settings l = Inr c"
    by (auto simp: from_configuration_slots slot_unconfigured_def slot_from_settings_def
        make_provider_from_settings_def split: option.splits sum.splits)
  have "fst (connector_generate lib c req) \<noteq> []"
    using connector.no_response_without_request [of lib c req] c(2) by auto
  then obtain q where "q \<in> set (fst (connector_generate lib c req))"
    by (cases "fst (connector_generate lib c req)") auto
  then have "length (fst (connector_generate lib c req)) = 1"
    using connector.request_shape [of q lib c req] by auto
  with s c connector.response_shape [OF c(2)] connector_new_Inr [OF s(2)] show ?thesis by simp
qed

theorem analysis_is_attributed_and_bounded_witness:
  "\<exists>a. snd (analyze example_ai_lib
       (registry_from_configuration example_ai_lib limits_default (example_configuration ''key''))
       Anthropic Discovery [] example_evidence) = Inr a \<and> resp_provider (analysis_response a) = Anthropic \<and>
     length (resp_text (analysis_response a)) \<le> max_output_bytes limits_default"
proof -
  obtain a where "snd (analyze example_ai_lib
       (registry_from_configuration example_ai_lib limits_default (example_configuration ''key''))
       Anthropic Discovery [] example_evidence) = Inr a"
    using example_analysis by fastforce
  with analysis_is_attributed_and_bounded [OF this] show ?thesis by blast
qed

section \<open>Requests\<close>

text \<open>
  C15. Whatever the configuration, evidence and answers, an advisory call sends at most one
  request; it goes over https to the provider's own host with no credentials, port, query or
  fragment in the URL, by a client that insists on TLS 1.2 or newer, follows no redirect,
  uses no proxy and runs under the configured timeouts, with a body within the request limit and no header beyond the fixed ones that is not marked sensitive.
\<close>

theorem analysis_requests_are_confined:
  assumes "constructed lib l reg"
    and "q \<in> set (fst (analyze lib reg provider kind instructions ev))"
  shows "fst (analyze lib reg provider kind instructions ev) = [q] \<and>
    confined_to (provider_host provider) (rq_url q) \<and>
    \<not> cc_follow_redirects (rq_client q) \<and> \<not> cc_use_proxy (rq_client q) \<and>
    cc_https_only (rq_client q) \<and> cc_min_tls_version (rq_client q) = TLS_1_2 \<and>
    cc_connect_timeout (rq_client q) = connect_timeout l \<and> cc_timeout (rq_client q) = request_timeout l \<and>
    length (rq_body q) \<le> max_request_bytes l \<and>
    list_all (\<lambda>(name, v). hv_sensitive v \<or> v = plain_header ''application/json'' \<or>
       v = plain_header ANTHROPIC_VERSION) (rq_headers q)"
proof -
  obtain c settings req where c: "connector_new lib provider settings l = Inr c"
      "q \<in> set (fst (connector_generate lib c req))"
      "fst (analyze lib reg provider kind instructions ev) = fst (connector_generate lib c req)"
    using assms by (rule analyze_requests)
  have "rq_client q = secure_client_config (lib_pkg_version lib) l"
    using connector.request_shape [OF c(2)] connector_new_Inr [OF c(1)] by simp
  moreover have "list_all (\<lambda>(name, v). hv_sensitive v \<or> v = plain_header ''application/json'' \<or>
       v = plain_header ANTHROPIC_VERSION) (rq_headers q)"
    using connector.request_shape [OF c(2)] connector_new_Inr [OF c(1)]
    by (fastforce simp: list_all_iff)
  ultimately show ?thesis
    using connector.request_shape [OF c(2)] connector_new_Inr [OF c(1)] c(3)
    by (simp add: secure_client_config_def)
qed

theorem analysis_requests_are_confined_witness:
  "\<exists>q. fst (analyze example_ai_lib
       (registry_from_configuration example_ai_lib limits_default (example_configuration ''key''))
       Anthropic Discovery [] example_evidence) = [q] \<and> confined_to ANTHROPIC_HOST (rq_url q)"
proof -
  obtain q where q: "q \<in> set (fst (analyze example_ai_lib
       (registry_from_configuration example_ai_lib limits_default (example_configuration ''key''))
       Anthropic Discovery [] example_evidence))"
    using example_analysis by fastforce
  show ?thesis
    using analysis_requests_are_confined [OF constructed_from_configuration q] by auto
qed

text \<open>What an observer of a request sees when sensitive header values are hidden.\<close>

definition redacted_request :: "http_request \<Rightarrow> http_request" where
  "redacted_request q = q\<lparr>rq_headers :=
     map (\<lambda>(name, v). (name, if hv_sensitive v then v\<lparr>hv_value := REDACTED\<rparr> else v)) (rq_headers q)\<rparr>"

lemma connector_secret_free:
  assumes "connector_new lib kind s l = Inr c" "connector_new lib kind t l = Inr d"
    and "set_model s = set_model t"
  shows "map redacted_request (fst (connector_generate lib c req)) =
    map redacted_request (fst (connector_generate lib d req))"
  using assms
  by (cases kind)
    (auto simp: connector_new_def openai_new_def anthropic_new_def gemini_new_def Let_def
      fixed_endpoint_Inr secret_header_Inr secure_http_new_Inr connector.requests_eq
      openai_body_def anthropic_body_def connector.wire_request_def redacted_request_def
      split: sum.splits)

text \<open>
  C16. The credential flows nowhere but into sensitive headers: with two credentials for the
  same model, an advisory call sends the same requests once sensitive header values are
  hidden. URL, body, client and every other header are independent of the secret.
\<close>

theorem secret_reaches_only_sensitive_headers:
  assumes "connector_new lib provider s l = Inr c" "connector_new lib provider t l = Inr d"
    and "set_model s = set_model t"
  shows "map redacted_request (fst (analyze lib
      (registry_from_configuration lib l (cfg(provider \<mapsto> s))) provider kind instructions ev)) =
    map redacted_request (fst (analyze lib
      (registry_from_configuration lib l (cfg(provider \<mapsto> t))) provider kind instructions ev))"
proof -
  have sent: "fst (analyze lib (registry_from_configuration lib l (cfg(provider \<mapsto> u))) provider kind instructions ev) =
      (case lib_to_string lib (advisory_evidence_json ev) of None \<Rightarrow> []
       | Some text \<Rightarrow> (case ai_request_new instructions text l of Inl e \<Rightarrow> []
         | Inr request \<Rightarrow> fst (connector_generate lib e request)))"
    if "connector_new lib provider u l = Inr e" for u e
  proof -
    have "slot_provider (slot_from_settings lib provider u l) = Some e"
      using that by (simp add: slot_from_settings_def make_provider_from_settings_def)
    moreover have "reg_limits (registry_from_configuration lib l (cfg(provider \<mapsto> u))) = l"
      by (simp add: registry_from_configuration_def)
    ultimately show ?thesis
      by (simp add: analyze_def from_configuration_slots Let_def split: option.splits sum.splits)
  qed
  show ?thesis
    using connector_secret_free [OF assms]
    by (simp add: sent [OF assms(1)] sent [OF assms(2)] split: option.splits sum.splits)
qed

theorem secret_reaches_only_sensitive_headers_witness:
  "map redacted_request (fst (analyze example_ai_lib
      (registry_from_configuration example_ai_lib limits_default (configuration_new(Anthropic \<mapsto> example_settings ''key'')))
      Anthropic Discovery [] example_evidence)) =
   map redacted_request (fst (analyze example_ai_lib
      (registry_from_configuration example_ai_lib limits_default (configuration_new(Anthropic \<mapsto> example_settings ''other'')))
      Anthropic Discovery [] example_evidence))"
proof -
  have other: "list_all (\<lambda>c. byte_of c = 9 \<or> 32 \<le> byte_of c \<and> byte_of c < 127) ''other''"
    by (simp add: byte_of_def)
  show ?thesis
    by (rule secret_reaches_only_sensitive_headers
        [OF example_connector [OF example_key] example_connector [OF other]])
      (simp add: example_settings_def)
qed

section \<open>Independence\<close>

text \<open>
  Providers are configured independently: giving any value to a variable of one provider
  changes no slot of another, so an invalid provider cannot disable a valid one.
\<close>

theorem environment_isolates_providers:
  assumes "name = fst (env_variable_names k) \<or> name = snd (env_variable_names k)" and "k' \<noteq> k"
  shows "reg_slots (registry_from_env lib (env(name := v)) l) k' = reg_slots (registry_from_env lib env l) k'"
proof -
  have "fst (env_variable_names k') \<noteq> name" "snd (env_variable_names k') \<noteq> name"
    using assms by (cases k; cases k'; auto)+
  then have "read_env (env(name := v)) (fst (env_variable_names k')) = read_env env (fst (env_variable_names k'))"
    "read_env (env(name := v)) (snd (env_variable_names k')) = read_env env (snd (env_variable_names k'))"
    by (simp_all add: read_env_def)
  then show ?thesis
    by (simp add: registry_from_env_def with_slots_slots slot_from_env_def Let_def split_beta)
qed

theorem environment_isolates_providers_witness:
  "reg_slots (registry_from_env example_ai_lib ((\<lambda>_. VarNotPresent)(''OPENAI_MODEL'' := VarNotUnicode))
     limits_default) Gemini =
   reg_slots (registry_from_env example_ai_lib (\<lambda>_. VarNotPresent) limits_default) Gemini"
  by (rule environment_isolates_providers [of _ OpenAi]) simp_all

section \<open>Readiness\<close>

text \<open>
  Documented behaviour of the crates below, as hypotheses: an https URL of one of the three
  hosts whose path has only unreserved bytes, colons and slashes and no dot segment parses
  into its parts unchanged; a header value may hold visible ASCII and tabs; the client with
  the fixed configuration builds.
\<close>

definition path_byte :: "char \<Rightarrow> bool" where
  "path_byte c \<longleftrightarrow> model_byte c \<or> c = CHR '':'' \<or> c = CHR ''/''"

definition dot_free :: "str \<Rightarrow> bool" where
  "dot_free path \<longleftrightarrow> list_all (\<lambda>seg. seg \<noteq> ''.'' \<and> seg \<noteq> ''..'') (split_on (CHR ''/'') path)"

definition plain_url :: "str \<Rightarrow> str \<Rightarrow> url" where
  "plain_url host path = \<lparr>url_scheme = ''https'', url_host = Some host, url_username = [],
     url_password = None, url_port = None, url_path = ''/'' @ path, url_query = None, url_fragment = None\<rparr>"

definition documented_lib :: "'z http_lib_scheme \<Rightarrow> bool" where
  "documented_lib lib \<longleftrightarrow>
     (\<forall>kind path. list_all path_byte path \<and> dot_free path \<longrightarrow>
        lib_parse_url lib (''https://'' @ provider_host kind @ ''/'' @ path) =
          Some (plain_url (provider_host kind) path)) \<and>
     (\<forall>v. lib_header_ok lib v \<longleftrightarrow> list_all (\<lambda>c. byte_of c = 9 \<or> 32 \<le> byte_of c \<and> byte_of c < 127) v) \<and>
     (\<forall>config. lib_client_builds lib config)"

fun endpoint_path :: "provider_kind \<Rightarrow> model_id \<Rightarrow> str" where
  "endpoint_path OpenAi m = ''v1/responses''"
| "endpoint_path Anthropic m = ''v1/messages''"
| "endpoint_path Gemini m = ''v1beta/models/'' @ model_as_str m @ '':generateContent''"

lemma model_byte_facts: "model_byte c \<Longrightarrow> path_byte c \<and> c \<noteq> CHR ''/''"
  by (auto simp: path_byte_def model_byte_def is_ascii_alphanumeric_def is_ascii_digit_def byte_of_def)

lemma endpoint_path_plain:
  assumes "list_all model_byte (model_as_str m)"
  shows "list_all path_byte (endpoint_path k m) \<and> dot_free (endpoint_path k m)"
proof (cases k)
  case Gemini
  have ns: "CHR ''/'' \<notin> set (model_as_str m @ '':generateContent'')"
    using assms model_byte_facts by (auto simp: list_all_iff)
  have "split_on (CHR ''/'') (endpoint_path Gemini m) =
      [''v1beta'', ''models'', model_as_str m @ '':generateContent'']"
    using split_on_id [OF ns] by simp
  moreover have "model_as_str m @ '':generateContent'' \<noteq> ''.''"
    "model_as_str m @ '':generateContent'' \<noteq> ''..''"
    by (cases "model_as_str m"; simp)+
  moreover have "list_all path_byte (model_as_str m)"
    using assms model_byte_facts by (auto simp: list_all_iff)
  ultimately show ?thesis
    by (simp add: Gemini dot_free_def path_byte_def model_byte_def is_ascii_alphanumeric_def
        is_ascii_digit_def byte_of_def)
qed (simp_all add: dot_free_def path_byte_def model_byte_def is_ascii_alphanumeric_def
    is_ascii_digit_def byte_of_def)

lemma connector_new_ready:
  assumes "documented_lib lib" and "list_all model_byte (model_as_str (set_model settings))"
  shows "(\<exists>c. connector_new lib kind settings l = Inr c) \<longleftrightarrow>
    lib_header_ok lib (expose (set_api_key settings))"
proof -
  let ?m = "set_model settings"
  have p: "lib_parse_url lib (''https://'' @ provider_host kind @ ''/'' @ endpoint_path kind ?m) =
      Some (plain_url (provider_host kind) (endpoint_path kind ?m))"
    using assms(1) endpoint_path_plain [OF assms(2), of kind]
    by (simp add: documented_lib_def del: append_assoc)
  have h: "lib_header_ok lib (''Bearer '' @ v) \<longleftrightarrow> lib_header_ok lib v" for v
    using assms(1) by (simp add: documented_lib_def byte_of_def)
  have b: "lib_client_builds lib config" for config
    using assms(1) by (simp add: documented_lib_def)
  show ?thesis
    using p h b
    by (cases kind)
      (auto simp: connector_new_def openai_new_def anthropic_new_def gemini_new_def
        fixed_endpoint_def secret_header_def secure_http_new_def Let_def plain_url_def
        OPENAI_ENDPOINT_def OPENAI_HOST_def ANTHROPIC_ENDPOINT_def ANTHROPIC_HOST_def
        gemini_endpoint_text_def)
qed

text \<open>
  Over the documented libraries a provider is \<open>Ready\<close> exactly when its two variables
  hold a key and a model that pass their policies and the key is ASCII; no model that passes
  the policy can make the fixed endpoint fail.
\<close>

theorem environment_readiness:
  assumes "documented_lib lib"
  shows "slot_state (slot_from_env lib env kind l) = ProviderReady \<longleftrightarrow>
    (\<exists>key model s m. env (fst (env_variable_names kind)) = VarOk key \<and>
       env (snd (env_variable_names kind)) = VarOk model \<and>
       secret_new key = Inr s \<and> model_id_new model = Inr m \<and> ascii key)"
proof -
  have ctl: "lib_header_ok lib key \<longleftrightarrow> ascii key" if "secret_new key = Inr s" for key s
  proof -
    have nc: "\<not> has_control key" using that by (simp add: secret_new_Ok)
    have "list_all (\<lambda>c. byte_of c = 9 \<or> 32 \<le> byte_of c \<and> byte_of c < 127) key \<longleftrightarrow> ascii key"
    proof
      assume "ascii key"
      with nc have "\<forall>c \<in> set key. \<not> is_control (byte_of c) \<and> byte_of c < 128"
        by (auto simp: has_control_ascii ascii_def)
      then show "list_all (\<lambda>c. byte_of c = 9 \<or> 32 \<le> byte_of c \<and> byte_of c < 127) key"
        by (auto simp: list_all_iff is_control_def not_less)
    qed (auto simp: list_all_iff ascii_def)
    with assms show ?thesis by (simp add: documented_lib_def)
  qed
  have new: "(\<exists>c. connector_new lib kind \<lparr>set_api_key = s, set_model = m\<rparr> l = Inr c) \<longleftrightarrow> ascii key"
    if "secret_new key = Inr s" "model_id_new model = Inr m" for key model s m
    using connector_new_ready [OF assms, of "\<lparr>set_api_key = s, set_model = m\<rparr>" kind l] that ctl [OF that(1)]
    by (auto simp: model_id_new_def secret_new_Ok split: if_splits)
  have made: "fst (make_provider_from_settings lib kind settings l) = ProviderReady \<longleftrightarrow>
      (\<exists>c. connector_new lib kind settings l = Inr c)" for settings
    by (auto simp: make_provider_from_settings_def split: sum.splits)
  have env_ok: "read_env env n = EnvPresent v \<longleftrightarrow> env n = VarOk v \<and> v \<noteq> []" for n v
    by (auto simp: read_env_def split: var_result.splits)
  have made_env: "fst (make_provider lib kind k m l) = ProviderReady \<longleftrightarrow>
      (\<exists>key model s i. k = EnvPresent key \<and> m = EnvPresent model \<and> secret_new key = Inr s \<and>
         model_id_new model = Inr i \<and> ascii key)" for k m
    using new
    by (auto simp: make_provider_def made split: env_value.splits sum.splits)
  have nonempty: "secret_new [] = Inl SecretError" "model_id_new [] = Inl ModelIdError"
    by (simp_all add: secret_new_def model_id_new_def)
  show ?thesis
    by (auto simp: slot_from_env_def Let_def split_beta made_env env_ok nonempty)
qed

lemma example_documented: "documented_lib example_ai_lib"
proof -
  have parse: "example_parse_url (''https://'' @ provider_host kind @ ''/'' @ path) =
      Some (plain_url (provider_host kind) path)" if "list_all path_byte path" for kind path
  proof -
    have "CHR ''?'' \<notin> set path" "CHR ''#'' \<notin> set path"
      using that by (auto simp: list_all_iff path_byte_def model_byte_def is_ascii_alphanumeric_def
          is_ascii_digit_def byte_of_def)
    then show ?thesis
      by (cases kind) (simp_all add: example_parse_url_def plain_url_def OPENAI_HOST_def
          ANTHROPIC_HOST_def GEMINI_HOST_def)
  qed
  have "lib_parse_url example_ai_lib = example_parse_url"
    "lib_header_ok example_ai_lib = list_all (\<lambda>c. byte_of c = 9 \<or> 32 \<le> byte_of c \<and> byte_of c < 127)"
    "lib_client_builds example_ai_lib = (\<lambda>_. True)"
    by (simp_all add: example_ai_lib_def example_lib_def http_lib.defs)
  with parse show ?thesis by (auto simp: documented_lib_def)
qed

theorem environment_readiness_witness:
  "let env = (\<lambda>_. VarNotPresent)(''GEMINI_API_KEY'' := VarOk ''key'', ''GEMINI_MODEL'' := VarOk ''m'')
   in slot_state (slot_from_env example_ai_lib env Gemini limits_default) = ProviderReady"
proof -
  let ?env = "(\<lambda>_. VarNotPresent)(''GEMINI_API_KEY'' := VarOk ''key'', ''GEMINI_MODEL'' := VarOk ''m'')"
  have a: "ascii ''key''" by (simp add: byte_of_def)
  then have "\<not> has_control ''key''" by (simp add: has_control_ascii is_control_def byte_of_def)
  then have "secret_new ''key'' = Inr (Secret ''key'')" by (simp add: secret_new_def MAX_SECRET_BYTES_def)
  moreover have "model_id_new ''m'' = Inr (ModelId ''m'')"
    by (simp add: model_id_new_def MAX_MODEL_ID_BYTES_def model_byte_def is_ascii_alphanumeric_def byte_of_def)
  moreover have "?env (fst (env_variable_names Gemini)) = VarOk ''key''"
    "?env (snd (env_variable_names Gemini)) = VarOk ''m''" by simp_all
  ultimately have "slot_state (slot_from_env example_ai_lib ?env Gemini limits_default) = ProviderReady"
    unfolding environment_readiness [OF example_documented] using a by blast
  then show ?thesis by (simp add: Let_def)
qed

end
