(* ===== verification/Telemetry.thy ===== *)
theory Telemetry
  imports Environment
begin

text \<open>
  The telemetry boundary, \<open>crates/ores-telemetry/src/lib.rs\<close>: configuration, the log filter,
  exporter construction, initialisation with its status, orderly shutdown on drop, and the
  metadata contract of metrics. The OpenTelemetry SDK, the subscriber registry and the URL
  parser are parameters (\<open>otel_lib\<close>); effects on them are listed in the order they happen.
\<close>

section \<open>Configuration\<close>

definition EXPORT_TIMEOUT :: duration where "EXPORT_TIMEOUT = from_secs 5"
definition MAX_IDENTITY_BYTES :: nat where "MAX_IDENTITY_BYTES = 128"
definition MAX_ENDPOINT_BYTES :: nat where "MAX_ENDPOINT_BYTES = 2048"
definition MAX_ATTRIBUTE_VALUE_BYTES :: nat where "MAX_ATTRIBUTE_VALUE_BYTES = 128"
definition MAX_DESCRIPTION_BYTES :: nat where "MAX_DESCRIPTION_BYTES = 256"
definition MAX_UNIT_BYTES :: nat where "MAX_UNIT_BYTES = 32"

datatype log_level = LevelOff | LevelError | LevelWarn | LevelInfo

fun level_as_str :: "log_level \<Rightarrow> str" where
  "level_as_str LevelOff = ''off''"
| "level_as_str LevelError = ''error''"
| "level_as_str LevelWarn = ''warn''"
| "level_as_str LevelInfo = ''info''"

record telemetry_config =
  tc_service_name :: str
  tc_service_namespace :: str
  tc_service_version :: str
  tc_instrumentation_name :: str
  tc_default_log_level :: log_level
  tc_target_levels :: "(str \<times> log_level) list"
  tc_export_logs :: bool

definition identifier_byte :: "char \<Rightarrow> bool" where
  "identifier_byte c \<longleftrightarrow> is_ascii_alphanumeric c \<or> c = CHR ''.'' \<or> c = CHR ''_'' \<or> c = CHR ''-''"

definition valid_identifier :: "str \<Rightarrow> bool" where
  "valid_identifier value \<longleftrightarrow>
     value \<noteq> [] \<and> length value \<le> MAX_IDENTITY_BYTES \<and> list_all identifier_byte value"

definition validated_identity :: "str \<Rightarrow> str option" where
  "validated_identity value = (if valid_identifier value then Some value else None)"

definition telemetry_config_new :: "str \<Rightarrow> str \<Rightarrow> telemetry_config" where
  "telemetry_config_new service_name service_namespace =
     \<lparr>tc_service_name = service_name, tc_service_namespace = service_namespace,
      tc_service_version = ''unknown'', tc_instrumentation_name = service_name,
      tc_default_log_level = LevelInfo, tc_target_levels = [], tc_export_logs = True\<rparr>"

definition with_service_version :: "str \<Rightarrow> telemetry_config \<Rightarrow> telemetry_config" where
  "with_service_version v config = config\<lparr>tc_service_version := v\<rparr>"

definition with_instrumentation_name :: "str \<Rightarrow> telemetry_config \<Rightarrow> telemetry_config" where
  "with_instrumentation_name name config = config\<lparr>tc_instrumentation_name := name\<rparr>"

definition with_default_log_level :: "log_level \<Rightarrow> telemetry_config \<Rightarrow> telemetry_config" where
  "with_default_log_level level config = config\<lparr>tc_default_log_level := level\<rparr>"

definition with_target_level :: "str \<Rightarrow> log_level \<Rightarrow> telemetry_config \<Rightarrow> telemetry_config" where
  "with_target_level target level config =
     (case validated_identity target of
        None \<Rightarrow> config
      | Some _ \<Rightarrow> config\<lparr>tc_target_levels := tc_target_levels config @ [(target, level)]\<rparr>)"

definition with_otlp_logs :: "bool \<Rightarrow> telemetry_config \<Rightarrow> telemetry_config" where
  "with_otlp_logs enabled config = config\<lparr>tc_export_logs := enabled\<rparr>"

section \<open>Validation\<close>

definition valid_attribute_value :: "str \<Rightarrow> bool" where
  "valid_attribute_value value \<longleftrightarrow>
     value \<noteq> [] \<and> length value \<le> MAX_ATTRIBUTE_VALUE_BYTES \<and> \<not> has_control value"

definition valid_otlp_endpoint :: "(str \<Rightarrow> url option) \<Rightarrow> str \<Rightarrow> bool" where
  "valid_otlp_endpoint parse value =
     (if value = [] \<or> length value > MAX_ENDPOINT_BYTES then False
      else case parse value of
             None \<Rightarrow> False
           | Some u \<Rightarrow>
               (url_scheme u = ''http'' \<or> url_scheme u = ''https'') \<and> url_host u \<noteq> None \<and>
               url_username u = [] \<and> url_password u = None \<and> url_query u = None \<and>
               url_fragment u = None)"

definition otlp_endpoint_from_env :: "(str \<Rightarrow> url option) \<Rightarrow> environment \<Rightarrow> str option" where
  "otlp_endpoint_from_env parse env =
     Option.bind (var_ok env ''OTEL_EXPORTER_OTLP_ENDPOINT'') (\<lambda>value.
       if valid_otlp_endpoint parse value then Some value else None)"

type_synonym resource = "(str \<times> str) list"

definition resource_new :: "environment \<Rightarrow> str \<Rightarrow> str \<Rightarrow> str \<Rightarrow> resource" where
  "resource_new env service_name service_namespace service_version =
     [(''service.name'', service_name), (''service.namespace'', service_namespace),
      (''service.version'', service_version)] @
     (case var_ok env ''DEPLOYMENT_ENV'' of
        None \<Rightarrow> []
      | Some value \<Rightarrow>
          if valid_attribute_value value then [(''deployment.environment.name'', value)] else [])"

section \<open>The log filter\<close>

definition BOUNDED_DEPENDENCY_DIRECTIVES :: str where
  "BOUNDED_DEPENDENCY_DIRECTIVES =
     ''rmcp=off,hyper=warn,hyper_util=warn,h2=warn,reqwest=warn,tonic=warn,tower=warn,tower_http=warn,axum=warn,tungstenite=warn,tokio_tungstenite=warn''"

text \<open>\<open>OsStr::to_str\<close> gives nothing for a value that is not Unicode.\<close>

definition configured_log_level :: "str option \<Rightarrow> log_level \<Rightarrow> log_level" where
  "configured_log_level value fallback =
     (case value of
        None \<Rightarrow> fallback
      | Some v \<Rightarrow>
          if v = ''error'' then LevelError else if v = ''info'' then LevelInfo else LevelWarn)"

definition target_directive :: "str \<times> log_level \<Rightarrow> str" where
  "target_directive entry = (case entry of (target, level) \<Rightarrow> target @ ''='' @ level_as_str level)"

definition safe_log_filter :: "environment \<Rightarrow> telemetry_config \<Rightarrow> str" where
  "safe_log_filter env config =
     (let default_level =
            configured_log_level (var_ok env ''ORES_LOG_LEVEL'') (tc_default_log_level config)
      in join_with '',''
           ([level_as_str default_level] @ map target_directive (tc_target_levels config) @
            [BOUNDED_DEPENDENCY_DIRECTIVES]))"

section \<open>Exporters\<close>

record exporter =
  exp_endpoint :: str
  exp_timeout :: duration

record sdk_provider =
  prov_exporter :: exporter
  prov_resource :: resource

record sdk_tracer =
  tracer_provider_of :: sdk_provider
  tracer_name :: str

text \<open>The options of a \<open>fmt\<close> layer that the code sets, and the stream it writes to.\<close>

datatype log_stream = StandardOutput | StandardError

record fmt_layer =
  fl_json :: bool
  fl_flatten_event :: bool
  fl_ansi :: bool
  fl_current_span :: bool
  fl_span_list :: bool
  fl_target :: bool
  fl_writer :: log_stream

definition stderr_json_layer :: fmt_layer where
  "stderr_json_layer =
     \<lparr>fl_json = True, fl_flatten_event = True, fl_ansi = False, fl_current_span = True,
      fl_span_list = True, fl_target = True, fl_writer = StandardError\<rparr>"

record subscriber =
  sub_filter :: str
  sub_stream :: fmt_layer
  sub_tracer :: "sdk_tracer option"
  sub_logger :: "sdk_provider option"

datatype signal = TraceSignal | MetricSignal | LogSignal

text \<open>
  How \<open>shutdown_with_timeout\<close> of a provider ends: its last batches are out, or it returns an
  error (the timeout passed, the export failed), or it panics.
\<close>

datatype shutdown_outcome = ShutdownOk | ShutdownErr | ShutdownPanics

text \<open>
  The parameter: the URL parser, whether the builder of a signal's exporter succeeds,
  whether \<open>try_init\<close> installs the subscriber, whether a thread can be started, and how the
  shutdown of the provider of a signal ends.
\<close>

record otel_lib =
  ot_parse_url :: "str \<Rightarrow> url option"
  ot_exporter_builds :: "signal \<Rightarrow> exporter \<Rightarrow> bool"
  ot_try_init :: "subscriber \<Rightarrow> bool"
  ot_thread_starts :: bool
  ot_shutdown_with_timeout :: "signal \<Rightarrow> shutdown_outcome"

definition otlp_exporter :: "str \<Rightarrow> exporter" where
  "otlp_exporter endpoint = \<lparr>exp_endpoint = endpoint, exp_timeout = EXPORT_TIMEOUT\<rparr>"

definition build_tracer_provider ::
  "otel_lib \<Rightarrow> str \<Rightarrow> resource \<Rightarrow> str \<Rightarrow> unit + sdk_provider \<times> sdk_tracer" where
  "build_tracer_provider lib endpoint res instrumentation_name =
     (if \<not> ot_exporter_builds lib TraceSignal (otlp_exporter endpoint) then Inl ()
      else let provider = \<lparr>prov_exporter = otlp_exporter endpoint, prov_resource = res\<rparr>
           in Inr (provider, \<lparr>tracer_provider_of = provider, tracer_name = instrumentation_name\<rparr>))"

definition build_meter_provider :: "otel_lib \<Rightarrow> str \<Rightarrow> resource \<Rightarrow> unit + sdk_provider" where
  "build_meter_provider lib endpoint res =
     (if \<not> ot_exporter_builds lib MetricSignal (otlp_exporter endpoint) then Inl ()
      else Inr \<lparr>prov_exporter = otlp_exporter endpoint, prov_resource = res\<rparr>)"

definition build_logger_provider :: "otel_lib \<Rightarrow> str \<Rightarrow> resource \<Rightarrow> unit + sdk_provider" where
  "build_logger_provider lib endpoint res =
     (if \<not> ot_exporter_builds lib LogSignal (otlp_exporter endpoint) then Inl ()
      else Inr \<lparr>prov_exporter = otlp_exporter endpoint, prov_resource = res\<rparr>)"

text \<open>The registry with its four layers, which \<open>try_init\<close> then installs or not.\<close>

definition layered_subscriber ::
  "environment \<Rightarrow> telemetry_config \<Rightarrow> sdk_tracer option \<Rightarrow> sdk_provider option \<Rightarrow> subscriber" where
  "layered_subscriber env config tracer logger_provider =
     \<lparr>sub_filter = safe_log_filter env config, sub_stream = stderr_json_layer, sub_tracer = tracer,
      sub_logger = logger_provider\<rparr>"

definition install_subscriber ::
  "otel_lib \<Rightarrow> environment \<Rightarrow> telemetry_config \<Rightarrow> sdk_tracer option \<Rightarrow> sdk_provider option \<Rightarrow> bool" where
  "install_subscriber lib env config tracer logger_provider =
     ot_try_init lib (layered_subscriber env config tracer logger_provider)"

section \<open>Initialisation\<close>

record telemetry_status =
  ts_subscriber_installed :: bool
  ts_trace_exporter :: bool
  ts_metric_exporter :: bool
  ts_log_exporter :: bool

record telemetry_guard =
  tg_tracer_provider :: "sdk_provider option"
  tg_meter_provider :: "sdk_provider option"
  tg_logger_provider :: "sdk_provider option"
  tg_status :: telemetry_status

datatype telemetry_effect =
    SetTracerProvider sdk_provider
  | SetMeterProvider sdk_provider
  | TryInitSubscriber subscriber
  | Eprintln str
  | LogInitialized str str str telemetry_status
  | ShutdownWithTimeout signal duration

definition unwrap_or :: "'a option \<Rightarrow> 'a \<Rightarrow> 'a" where
  "unwrap_or x d = (case x of None \<Rightarrow> d | Some a \<Rightarrow> a)"

definition effect_of :: "('a \<Rightarrow> telemetry_effect) \<Rightarrow> 'a option \<Rightarrow> telemetry_effect list" where
  "effect_of f x = (case x of None \<Rightarrow> [] | Some a \<Rightarrow> [f a])"

definition init_with_config ::
  "otel_lib \<Rightarrow> environment \<Rightarrow> telemetry_config \<Rightarrow> telemetry_effect list \<times> telemetry_guard" where
  "init_with_config lib env config =
     (let service_name = unwrap_or (validated_identity (tc_service_name config)) ''ores-service'';
          service_namespace = unwrap_or (validated_identity (tc_service_namespace config)) ''unknown'';
          service_version = unwrap_or (validated_identity (tc_service_version config)) ''unknown'';
          instrumentation_name =
            unwrap_or (validated_identity (tc_instrumentation_name config)) service_name;
          res = resource_new env service_name service_namespace service_version;
          endpoint = otlp_endpoint_from_env (ot_parse_url lib) env;
          endpoint_was_requested = var_os_present env ''OTEL_EXPORTER_OTLP_ENDPOINT'';
          traced = Option.bind endpoint (\<lambda>value.
            ok (build_tracer_provider lib value res instrumentation_name));
          tracer_provider = map_option fst traced;
          tracer = map_option snd traced;
          meter_provider = Option.bind endpoint (\<lambda>value. ok (build_meter_provider lib value res));
          logger_provider = (if tc_export_logs config
            then Option.bind endpoint (\<lambda>value. ok (build_logger_provider lib value res)) else None);
          incomplete = endpoint_was_requested \<and>
            (endpoint = None \<or> tracer_provider = None \<or> meter_provider = None \<or>
             tc_export_logs config \<and> logger_provider = None);
          installed = install_subscriber lib env config tracer logger_provider;
          status = \<lparr>ts_subscriber_installed = installed,
                    ts_trace_exporter = tracer_provider \<noteq> None,
                    ts_metric_exporter = meter_provider \<noteq> None,
                    ts_log_exporter = logger_provider \<noteq> None\<rparr>
      in (effect_of SetTracerProvider tracer_provider @
          effect_of SetMeterProvider meter_provider @
          (if incomplete then [Eprintln ''telemetry: one or more OTLP exporters could not be configured; continuing with JSON stderr''] else []) @
          [TryInitSubscriber (layered_subscriber env config tracer logger_provider)] @
          (if \<not> installed then [Eprintln ''telemetry: subscriber already initialized; keeping existing subscriber''] else []) @
          [LogInitialized service_name service_namespace service_version status],
          \<lparr>tg_tracer_provider = tracer_provider, tg_meter_provider = meter_provider,
           tg_logger_provider = logger_provider, tg_status = status\<rparr>))"

definition telemetry_init :: "otel_lib \<Rightarrow> environment \<Rightarrow> str \<Rightarrow> str \<Rightarrow> telemetry_effect list \<times> telemetry_guard" where
  "telemetry_init lib env service_name service_namespace =
     init_with_config lib env (telemetry_config_new service_name service_namespace)"

section \<open>Shutdown\<close>

text \<open>
  The worker shuts the providers down in turn. What a shutdown returns is dropped (\<open>let _ =\<close>),
  so after an error it goes on as after a success, and only a panic ends it.
\<close>

fun run_shutdown :: "otel_lib \<Rightarrow> signal list \<Rightarrow> telemetry_effect list \<times> bool" where
  "run_shutdown lib [] = ([], True)"
| "run_shutdown lib (s # ss) =
     (case ot_shutdown_with_timeout lib s of
        ShutdownPanics \<Rightarrow> ([ShutdownWithTimeout s EXPORT_TIMEOUT], False)
      | _ \<Rightarrow> (let (effects, finished) = run_shutdown lib ss
              in (ShutdownWithTimeout s EXPORT_TIMEOUT # effects, finished)))"

definition guard_drop :: "otel_lib \<Rightarrow> telemetry_guard \<Rightarrow> telemetry_effect list" where
  "guard_drop lib guard =
     (if tg_tracer_provider guard = None \<and> tg_meter_provider guard = None \<and>
         tg_logger_provider guard = None
      then []
      else if ot_thread_starts lib then
        (let (effects, finished) = run_shutdown lib
               ((if tg_logger_provider guard \<noteq> None then [LogSignal] else []) @
                (if tg_meter_provider guard \<noteq> None then [MetricSignal] else []) @
                (if tg_tracer_provider guard \<noteq> None then [TraceSignal] else []))
         in effects @ (if finished then []
              else [Eprintln ''telemetry: shutdown flush panicked; final batches may be incomplete'']))
      else [Eprintln ''telemetry: shutdown worker could not start; final batches were not flushed''])"

section \<open>Metric metadata\<close>

datatype metric_metadata_error = MetricMetadataError (error_field: str)

definition metric_metadata_error_display :: "metric_metadata_error \<Rightarrow> str" where
  "metric_metadata_error_display e = ''invalid static telemetry '' @ error_field e"

datatype attribute_value = AttrString str | AttrBool bool | AttrInt "64 word"

datatype attribute = Attribute (attr_key: str) (attr_value: attribute_value)

definition validate_metric_name :: "str \<Rightarrow> str \<Rightarrow> metric_metadata_error + unit" where
  "validate_metric_name value field =
     (if valid_identifier value then Inr () else Inl (MetricMetadataError field))"

definition validate_instrument_metadata :: "str \<Rightarrow> str \<Rightarrow> str \<Rightarrow> metric_metadata_error + unit" where
  "validate_instrument_metadata name description unit_name =
     and_then (validate_metric_name name ''instrument name'') (\<lambda>_.
       if description = [] \<or> length description > MAX_DESCRIPTION_BYTES \<or> has_control description
       then Inl (MetricMetadataError ''instrument description'')
       else if unit_name = [] \<or> length unit_name > MAX_UNIT_BYTES \<or> has_control unit_name
       then Inl (MetricMetadataError ''instrument unit'')
       else Inr ())"

definition attribute_needles :: "str list" where
  "attribute_needles =
     [''authorization'', ''cookie'', ''password'', ''private_key'', ''secret'', ''session'', ''token'']"

definition validate_attribute_key :: "str \<Rightarrow> metric_metadata_error + unit" where
  "validate_attribute_key key =
     and_then (validate_metric_name key ''attribute key'') (\<lambda>_.
       let normalized = to_ascii_lowercase key
       in if list_ex (\<lambda>sensitive. contains normalized sensitive) attribute_needles
          then Inl (MetricMetadataError ''sensitive attribute key'')
          else Inr ())"

definition attribute_string :: "str \<Rightarrow> str \<Rightarrow> metric_metadata_error + attribute" where
  "attribute_string key value =
     and_then (validate_attribute_key key) (\<lambda>_.
       if \<not> valid_attribute_value value then Inl (MetricMetadataError ''attribute value'')
       else Inr (Attribute key (AttrString value)))"

definition attribute_boolean :: "str \<Rightarrow> bool \<Rightarrow> metric_metadata_error + attribute" where
  "attribute_boolean key value =
     and_then (validate_attribute_key key) (\<lambda>_. Inr (Attribute key (AttrBool value)))"

definition attribute_integer :: "str \<Rightarrow> 64 word \<Rightarrow> metric_metadata_error + attribute" where
  "attribute_integer key value =
     and_then (validate_attribute_key key) (\<lambda>_. Inr (Attribute key (AttrInt value)))"

datatype meter = Meter (meter_scope: str)

record instrument =
  inst_meter :: meter
  inst_name :: str
  inst_description :: str
  inst_unit :: str

definition meter_new :: "str \<Rightarrow> metric_metadata_error + meter" where
  "meter_new name = and_then (validate_metric_name name ''meter name'') (\<lambda>_. Inr (Meter name))"

definition u64_counter :: "meter \<Rightarrow> str \<Rightarrow> str \<Rightarrow> str \<Rightarrow> metric_metadata_error + instrument" where
  "u64_counter m name description unit_name =
     and_then (validate_instrument_metadata name description unit_name) (\<lambda>_.
       Inr \<lparr>inst_meter = m, inst_name = name, inst_description = description, inst_unit = unit_name\<rparr>)"

definition f64_histogram :: "meter \<Rightarrow> str \<Rightarrow> str \<Rightarrow> str \<Rightarrow> metric_metadata_error + instrument" where
  "f64_histogram m name description unit_name =
     and_then (validate_instrument_metadata name description unit_name) (\<lambda>_.
       Inr \<lparr>inst_meter = m, inst_name = name, inst_description = description, inst_unit = unit_name\<rparr>)"

text \<open>
  A measurement handed to the SDK. A histogram value is a duration here; its conversion to a
  floating-point number of milliseconds is not modelled.
\<close>

datatype measurement =
    CounterAdd instrument u64 "(str \<times> attribute_value) list"
  | HistogramRecord instrument duration "(str \<times> attribute_value) list"

definition otel_attributes :: "attribute list \<Rightarrow> (str \<times> attribute_value) list" where
  "otel_attributes attributes = map (\<lambda>a. (attr_key a, attr_value a)) attributes"

definition counter_add :: "instrument \<Rightarrow> u64 \<Rightarrow> attribute list \<Rightarrow> measurement" where
  "counter_add i value attributes = CounterAdd i value (otel_attributes attributes)"

definition histogram_record :: "instrument \<Rightarrow> duration \<Rightarrow> attribute list \<Rightarrow> measurement" where
  "histogram_record i value attributes = HistogramRecord i value (otel_attributes attributes)"

end
