(* ===== verification/Telemetry_Laws.thy ===== *)
theory Telemetry_Laws
  imports Telemetry Redaction
begin

text \<open>
  What the telemetry boundary guarantees: the filter it installs cannot be widened by target
  overrides or the environment, the status it reports is what it built, its shutdown order,
  and how its attribute deny-list relates to the one of the redaction module.
\<close>

section \<open>The log filter\<close>

text \<open>Configurations that the public builders make.\<close>

inductive built_config :: "telemetry_config \<Rightarrow> bool" where
  config_new: "built_config (telemetry_config_new name namespace)"
| config_version: "built_config c \<Longrightarrow> built_config (with_service_version v c)"
| config_instrumentation: "built_config c \<Longrightarrow> built_config (with_instrumentation_name n c)"
| config_default_level: "built_config c \<Longrightarrow> built_config (with_default_log_level l c)"
| config_target: "built_config c \<Longrightarrow> built_config (with_target_level t l c)"
| config_otlp_logs: "built_config c \<Longrightarrow> built_config (with_otlp_logs b c)"

lemma built_config_targets:
  "built_config c \<Longrightarrow> list_all (\<lambda>(target, level). valid_identifier target) (tc_target_levels c)"
  by (induction rule: built_config.induct)
    (auto simp: telemetry_config_new_def with_service_version_def with_instrumentation_name_def
      with_default_log_level_def with_target_level_def with_otlp_logs_def validated_identity_def
      split: option.splits)

lemma identifier_no_delimiter: "valid_identifier v \<Longrightarrow> CHR '','' \<notin> set v \<and> CHR ''='' \<notin> set v"
  by (auto simp: valid_identifier_def list_all_iff identifier_byte_def is_ascii_alphanumeric_def
      is_ascii_digit_def byte_of_def)

lemma level_no_delimiter: "CHR '','' \<notin> set (level_as_str level)"
  by (cases level) simp_all

lemma join_with_last:
  "join_with [d] (xs @ [join_with [d] ys]) = join_with [d] (xs @ ys)" if "ys \<noteq> []"
proof (induction xs)
  case (Cons x xs)
  have "xs @ [join_with [d] ys] \<noteq> []" "xs @ ys \<noteq> []" using that by simp_all
  with Cons show ?case by (simp add: join_with_Cons_nonempty)
qed simp

definition bounded_directives :: "str list" where
  "bounded_directives = split_on (CHR '','') BOUNDED_DEPENDENCY_DIRECTIVES"

definition directive_target :: "str \<Rightarrow> str" where
  "directive_target d = takeWhile (\<lambda>c. c \<noteq> CHR ''='') d"

lemma find_append_Some: "find P xs = Some x \<Longrightarrow> find P (xs @ ys) = Some x"
  by (induction xs) (auto split: if_splits)

lemma find_distinct:
  "distinct (map f xs) \<Longrightarrow> x \<in> set xs \<Longrightarrow> find (\<lambda>y. f y = f x) xs = Some x"
  by (induction xs) (auto simp: rev_image_eqI)

text \<open>
  C32. The installed filter is one default level of the closed set, then one directive per
  validated override, then the fixed dependency directives: no override can smuggle in a
  further directive, the environment can only choose error, warn or info, and for every
  bounded dependency the last directive that names it, the one in force, is the fixed one.
\<close>

theorem log_filter_is_closed:
  assumes "built_config config"
  shows "\<exists>level. split_on (CHR '','') (safe_log_filter env config) =
      level_as_str level # map target_directive (tc_target_levels config) @ bounded_directives \<and>
    (if var_ok env ''ORES_LOG_LEVEL'' = None then level = tc_default_log_level config
     else level \<in> {LevelError, LevelWarn, LevelInfo}) \<and>
    list_all (\<lambda>d. find (\<lambda>d'. directive_target d' = directive_target d)
        (rev (split_on (CHR '','') (safe_log_filter env config))) = Some d) bounded_directives"
proof -
  define level where "level =
    configured_log_level (var_ok env ''ORES_LOG_LEVEL'') (tc_default_log_level config)"
  let ?ds = "level_as_str level # map target_directive (tc_target_levels config) @ bounded_directives"
  have ne: "bounded_directives \<noteq> []" by (simp add: bounded_directives_def)
  have "safe_log_filter env config = join_with '',''
      ((level_as_str level # map target_directive (tc_target_levels config)) @
       [join_with '','' bounded_directives])"
    by (simp add: safe_log_filter_def level_def Let_def bounded_directives_def join_split_on)
  also have "\<dots> = join_with '','' ?ds" by (subst join_with_last [OF ne]) simp
  finally have joined: "safe_log_filter env config = join_with '','' ?ds" .
  have "CHR '','' \<notin> set (target_directive tv)" if "tv \<in> set (tc_target_levels config)" for tv
    using that built_config_targets [OF assms] identifier_no_delimiter level_no_delimiter
    by (cases tv) (auto simp: list_all_iff target_directive_def)
  then have "\<forall>d \<in> set ?ds. CHR '','' \<notin> set d"
    by (auto simp: level_no_delimiter bounded_directives_def dest: split_on_no_delim)
  then have split: "split_on (CHR '','') (safe_log_filter env config) = ?ds"
    unfolding joined by (intro split_on_join) simp_all
  have "distinct (map directive_target (rev bounded_directives))" by code_simp
  then have "find (\<lambda>d'. directive_target d' = directive_target d) (rev ?ds) = Some d"
    if "d \<in> set bounded_directives" for d
    using that by (simp add: find_append_Some find_distinct)
  moreover have "if var_ok env ''ORES_LOG_LEVEL'' = None then level = tc_default_log_level config
     else level \<in> {LevelError, LevelWarn, LevelInfo}"
    by (auto simp: level_def configured_log_level_def split: option.splits)
  ultimately show ?thesis
    unfolding split list_all_iff by blast
qed

theorem log_filter_is_closed_witness:
  "\<exists>level. hd (split_on (CHR '','') (safe_log_filter (\<lambda>_. VarOk ''trace'')
     (with_target_level ''rmcp'' LevelInfo (telemetry_config_new ''s'' ''n'')))) = level_as_str level \<and>
     level \<in> {LevelError, LevelWarn, LevelInfo}"
proof -
  let ?c = "with_target_level ''rmcp'' LevelInfo (telemetry_config_new ''s'' ''n'')"
  have "built_config ?c" by (intro config_target config_new)
  then obtain level where "split_on (CHR '','') (safe_log_filter (\<lambda>_. VarOk ''trace'') ?c) =
      level_as_str level # map target_directive (tc_target_levels ?c) @ bounded_directives"
    "if var_ok (\<lambda>_. VarOk ''trace'') ''ORES_LOG_LEVEL'' = None then level = tc_default_log_level ?c
     else level \<in> {LevelError, LevelWarn, LevelInfo}"
    using log_filter_is_closed [of ?c "\<lambda>_. VarOk ''trace''"] by blast
  then show ?thesis by (intro exI [of _ level]) (simp add: var_ok_def)
qed

section \<open>Initialisation\<close>

definition guard_providers :: "telemetry_guard \<Rightarrow> sdk_provider list" where
  "guard_providers g = List.map_filter (\<lambda>p. p) [tg_tracer_provider g, tg_meter_provider g, tg_logger_provider g]"

text \<open>What is installed writes JSON to standard error and exports by the guard's providers.\<close>

definition stream_kept :: "environment \<Rightarrow> telemetry_config \<Rightarrow> telemetry_guard \<Rightarrow> telemetry_effect \<Rightarrow> bool" where
  "stream_kept env config g e \<longleftrightarrow>
     (case e of TryInitSubscriber s \<Rightarrow>
        fl_writer (sub_stream s) = StandardError \<and> fl_json (sub_stream s) \<and> \<not> fl_ansi (sub_stream s) \<and>
        sub_filter s = safe_log_filter env config \<and> sub_logger s = tg_logger_provider g \<and>
        map_option tracer_provider_of (sub_tracer s) = tg_tracer_provider g
      | _ \<Rightarrow> True)"

definition is_warning :: "telemetry_effect \<Rightarrow> bool" where
  "is_warning e \<longleftrightarrow> (case e of Eprintln _ \<Rightarrow> True | _ \<Rightarrow> False)"

lemma identifier_is_attribute_value: "valid_identifier v \<Longrightarrow> valid_attribute_value v"
proof -
  assume v: "valid_identifier v"
  then have b: "\<forall>c \<in> set v. 45 \<le> byte_of c \<and> byte_of c \<le> 122"
    by (auto simp: valid_identifier_def list_all_iff identifier_byte_def is_ascii_alphanumeric_def
        is_ascii_digit_def byte_of_def)
  then have "ascii v" by (force simp: ascii_def)
  with b have "\<not> has_control v" by (auto simp: has_control_ascii is_control_def)
  with v show ?thesis
    by (simp add: valid_attribute_value_def valid_identifier_def MAX_IDENTITY_BYTES_def
        MAX_ATTRIBUTE_VALUE_BYTES_def)
qed

lemma fallback_identity: "valid_identifier d \<Longrightarrow> valid_identifier (unwrap_or (validated_identity v) d)"
  by (simp add: unwrap_or_def validated_identity_def)

lemma static_identities: "valid_identifier ''ores-service''" "valid_identifier ''unknown''"
  by code_simp+

lemma resource_values_bounded:
  "valid_identifier a \<Longrightarrow> valid_identifier b \<Longrightarrow> valid_identifier c \<Longrightarrow>
     list_all (\<lambda>(k, v). valid_attribute_value v) (resource_new env a b c)"
  by (auto simp: resource_new_def identifier_is_attribute_value split: option.splits)

lemma endpoint_from_env_valid:
  "otlp_endpoint_from_env parse env = Some e \<longleftrightarrow>
     var_ok env ''OTEL_EXPORTER_OTLP_ENDPOINT'' = Some e \<and> valid_otlp_endpoint parse e"
  by (auto simp: otlp_endpoint_from_env_def split: Option.bind_splits)

text \<open>
  C33. Initialisation reports what it built and builds nothing unchecked: a signal is reported
  exactly when its provider exists, every provider exports under the fixed timeout to the
  endpoint of the environment and only if that endpoint is valid (http or https, no
  credentials, query or fragment), its resource attributes are bounded and free of control
  characters, logs are exported only when asked for, and an operator who asked for an
  endpoint is warned whenever a wanted exporter is missing. The subscriber offered for
  installation has the closed filter, exports by the providers of the guard, and writes JSON
  lines to standard error, never to standard output, which belongs to the stdio transport.
\<close>

theorem telemetry_status_is_truthful:
  "let (effects, g) = init_with_config lib env config; st = tg_status g
   in (ts_trace_exporter st \<longleftrightarrow> tg_tracer_provider g \<noteq> None) \<and>
      (ts_metric_exporter st \<longleftrightarrow> tg_meter_provider g \<noteq> None) \<and>
      (ts_log_exporter st \<longleftrightarrow> tg_logger_provider g \<noteq> None) \<and>
      list_all (\<lambda>p. valid_otlp_endpoint (ot_parse_url lib) (exp_endpoint (prov_exporter p)) \<and>
          var_ok env ''OTEL_EXPORTER_OTLP_ENDPOINT'' = Some (exp_endpoint (prov_exporter p)) \<and>
          exp_timeout (prov_exporter p) = from_secs 5 \<and>
          list_all (\<lambda>(k, v). valid_attribute_value v) (prov_resource p)) (guard_providers g) \<and>
      (tg_logger_provider g = None \<or> tc_export_logs config) \<and>
      (list_ex is_warning effects \<longleftrightarrow> \<not> ts_subscriber_installed st \<or>
         var_os_present env ''OTEL_EXPORTER_OTLP_ENDPOINT'' \<and>
         \<not> (ts_trace_exporter st \<and> ts_metric_exporter st \<and>
            (ts_log_exporter st \<longleftrightarrow> tc_export_logs config))) \<and>
      list_all (stream_kept env config g) effects"
proof -
  let ?s = "unwrap_or (validated_identity (tc_service_name config)) ''ores-service''"
  let ?r = "resource_new env ?s
    (unwrap_or (validated_identity (tc_service_namespace config)) ''unknown'')
    (unwrap_or (validated_identity (tc_service_version config)) ''unknown'')"
  have r: "list_all (\<lambda>(k, v). valid_attribute_value v) ?r"
    by (intro resource_values_bounded fallback_identity static_identities)
  show ?thesis
  proof (cases "otlp_endpoint_from_env (ot_parse_url lib) env")
    case None
    then show ?thesis
      by (simp add: init_with_config_def Let_def effect_of_def guard_providers_def
          List.map_filter_simps is_warning_def stream_kept_def layered_subscriber_def stderr_json_layer_def)
  next
    case (Some e)
    then have e: "var_ok env ''OTEL_EXPORTER_OTLP_ENDPOINT'' = Some e"
      "valid_otlp_endpoint (ot_parse_url lib) e"
      by (simp_all add: endpoint_from_env_valid)
    show ?thesis
      using e r
      by (auto simp: init_with_config_def Let_def effect_of_def guard_providers_def Some
          List.map_filter_simps is_warning_def build_tracer_provider_def build_meter_provider_def
          build_logger_provider_def otlp_exporter_def EXPORT_TIMEOUT_def stream_kept_def
          layered_subscriber_def stderr_json_layer_def)
  qed
qed

theorem telemetry_status_is_truthful_witness:
  "list_ex is_warning (fst (init_with_config
       \<lparr>ot_parse_url = (\<lambda>_. None), ot_exporter_builds = (\<lambda>_ _. True), ot_try_init = (\<lambda>_. True),
        ot_thread_starts = True, ot_shutdown_with_timeout = (\<lambda>_. ShutdownOk)\<rparr>
       (\<lambda>_. VarNotUnicode) (telemetry_config_new ''s'' ''n'')))"
proof -
  let ?lib = "\<lparr>ot_parse_url = (\<lambda>_. None), ot_exporter_builds = (\<lambda>_ _. True), ot_try_init = (\<lambda>_. True),
    ot_thread_starts = True, ot_shutdown_with_timeout = (\<lambda>_. ShutdownOk)\<rparr>"
  let ?env = "\<lambda>_ :: str. VarNotUnicode" and ?c = "telemetry_config_new ''s'' ''n''"
  obtain effects g where i: "init_with_config ?lib ?env ?c = (effects, g)"
    by (cases "init_with_config ?lib ?env ?c")
  have env: "var_ok ?env v = None" "var_os_present ?env v" for v
    by (simp_all add: var_ok_def var_os_present_def)
  have "list_all (\<lambda>_. False) (guard_providers g)"
    using telemetry_status_is_truthful [of ?lib ?env ?c] by (simp add: i Let_def env)
  then have "tg_tracer_provider g = None"
    by (cases "tg_tracer_provider g") (auto simp: guard_providers_def List.map_filter_simps)
  then have "list_ex is_warning effects"
    using telemetry_status_is_truthful [of ?lib ?env ?c] by (simp add: i Let_def env)
  then show ?thesis by (simp add: i)
qed

section \<open>Shutdown\<close>

definition present_signals :: "telemetry_guard \<Rightarrow> signal list" where
  "present_signals g =
     filter (\<lambda>s. case s of LogSignal \<Rightarrow> tg_logger_provider g \<noteq> None
                       | MetricSignal \<Rightarrow> tg_meter_provider g \<noteq> None
                       | TraceSignal \<Rightarrow> tg_tracer_provider g \<noteq> None)
       [LogSignal, MetricSignal, TraceSignal]"

definition shutdown_panics :: "otel_lib \<Rightarrow> signal \<Rightarrow> bool" where
  "shutdown_panics lib s \<longleftrightarrow> ot_shutdown_with_timeout lib s = ShutdownPanics"

lemma run_shutdown_eq:
  "run_shutdown lib ss =
     (map (\<lambda>s. ShutdownWithTimeout s EXPORT_TIMEOUT)
        (take (Suc (length (takeWhile (\<lambda>s. \<not> shutdown_panics lib s) ss))) ss),
      list_all (\<lambda>s. \<not> shutdown_panics lib s) ss)"
  by (induction ss) (auto simp: shutdown_panics_def split: prod.splits shutdown_outcome.splits)

text \<open>
  C34. Dropping the guard shuts down exactly the providers that exist, logs before metrics before
  traces, each once and each under the fixed timeout, up to and including the first whose
  shutdown panics, and none when the worker thread cannot start. The operator is told exactly
  when there was a provider and the worker could not start or a shutdown panicked. A shutdown
  that returns an error, because the timeout passed or the export failed, neither stops the
  others nor is reported: the effects are those of a success, so silence does not mean that
  the last batches were delivered.
\<close>

theorem drop_flushes_in_order:
  "guard_drop lib g =
     (let plan = present_signals g;
          panics = (\<lambda>s. ot_shutdown_with_timeout lib s = ShutdownPanics);
          attempted = (if ot_thread_starts lib
            then take (Suc (length (takeWhile (\<lambda>s. \<not> panics s) plan))) plan else [])
      in map (\<lambda>s. ShutdownWithTimeout s (from_secs 5)) attempted @
         (if plan = [] then []
          else if \<not> ot_thread_starts lib
          then [Eprintln ''telemetry: shutdown worker could not start; final batches were not flushed'']
          else if list_ex panics plan
          then [Eprintln ''telemetry: shutdown flush panicked; final batches may be incomplete'']
          else [])) \<and>
   (let errors_ignored = lib\<lparr>ot_shutdown_with_timeout := (\<lambda>s.
          case ot_shutdown_with_timeout lib s of ShutdownErr \<Rightarrow> ShutdownOk | r \<Rightarrow> r)\<rparr>
    in guard_drop lib g = guard_drop errors_ignored g)"
proof -
  have plan: "(if tg_logger_provider g \<noteq> None then [LogSignal] else []) @
      (if tg_meter_provider g \<noteq> None then [MetricSignal] else []) @
      (if tg_tracer_provider g \<noteq> None then [TraceSignal] else []) = present_signals g"
    by (simp add: present_signals_def)
  have none: "tg_tracer_provider g = None \<and> tg_meter_provider g = None \<and> tg_logger_provider g = None
      \<longleftrightarrow> present_signals g = []"
    by (simp add: present_signals_def)
  have drop: "guard_drop l g =
      (let (effects, finished) = (if ot_thread_starts l then run_shutdown l (present_signals g) else ([], True))
       in effects @ (if present_signals g = [] then []
          else if \<not> ot_thread_starts l
          then [Eprintln ''telemetry: shutdown worker could not start; final batches were not flushed'']
          else if finished then []
          else [Eprintln ''telemetry: shutdown flush panicked; final batches may be incomplete'']))" for l
    unfolding guard_drop_def plan none by (simp add: split_beta)
  have panics: "list_ex (\<lambda>s. ot_shutdown_with_timeout lib s = ShutdownPanics) ss \<longleftrightarrow>
      \<not> list_all (\<lambda>s. \<not> shutdown_panics lib s) ss" for ss
    by (simp add: list_ex_iff list_all_iff shutdown_panics_def)
  define same where "same = lib\<lparr>ot_shutdown_with_timeout := (\<lambda>s.
      case ot_shutdown_with_timeout lib s of ShutdownErr \<Rightarrow> ShutdownOk | r \<Rightarrow> r)\<rparr>"
  have "shutdown_panics same = shutdown_panics lib" "ot_thread_starts same = ot_thread_starts lib"
    by (auto simp: fun_eq_iff same_def shutdown_panics_def split: shutdown_outcome.splits)
  then have same: "guard_drop lib g = guard_drop same g" by (simp add: drop run_shutdown_eq)
  have "(\<lambda>s. \<not> shutdown_panics lib s) = (\<lambda>s. ot_shutdown_with_timeout lib s \<noteq> ShutdownPanics)"
    by (simp add: fun_eq_iff shutdown_panics_def)
  then show ?thesis
    unfolding same_def [symmetric] Let_def
    using panics
    by (intro conjI, simp add: drop [of lib] run_shutdown_eq EXPORT_TIMEOUT_def) (rule same)
qed

section \<open>Attribute keys\<close>

text \<open>
  The deny-list for metric attributes is part of the redaction module's: a key refused
  as sensitive here is sensitive there. The converse fails, and not only by vocabulary: the
  test here does not fold dashes and dots, so \<open>private-key\<close> is accepted as a label.
\<close>

theorem attribute_deny_list_gap:
  "(validate_attribute_key key = Inl (MetricMetadataError ''sensitive attribute key'') \<longrightarrow>
      is_sensitive_key key) \<and>
   validate_attribute_key ''private-key'' = Inr () \<and> is_sensitive_key ''private-key''"
proof (intro conjI impI)
  assume "validate_attribute_key key = Inl (MetricMetadataError ''sensitive attribute key'')"
  then obtain n where n: "n \<in> set attribute_needles" "contains (to_ascii_lowercase key) n"
    by (auto simp: validate_attribute_key_def validate_metric_name_def Let_def list_ex_iff
        split: if_splits)
  then obtain u v where "to_ascii_lowercase key = u @ n @ v" by (auto simp: contains_iff)
  then have "normalized_key key = map replace_separator u @ map replace_separator n @ map replace_separator v"
    by (simp add: normalized_key_def)
  moreover have "map replace_separator n = n"
    using n(1) by (auto simp: attribute_needles_def replace_separator_def)
  ultimately have "contains (normalized_key key) n" by (auto simp: contains_iff)
  moreover have "n \<in> set sensitive_needles"
    using n(1) by (auto simp: attribute_needles_def sensitive_needles_def)
  ultimately show "is_sensitive_key key" by (auto simp: is_sensitive_key_def list_ex_iff)
next
  show "validate_attribute_key ''private-key'' = Inr ()" by code_simp
  show "is_sensitive_key ''private-key''" by code_simp
qed

theorem attribute_deny_list_gap_witness: "is_sensitive_key ''Session-Id''"
proof -
  have "validate_attribute_key ''Session-Id'' = Inl (MetricMetadataError ''sensitive attribute key'')"
    by code_simp
  with attribute_deny_list_gap [of "''Session-Id''"] show ?thesis by blast
qed

end
