(* ===== verification/Observability.thy ===== *)
theory Observability
  imports Telemetry
begin

text \<open>
  The tool metrics of \<open>src/observability.rs\<close>. A panic of \<open>expect\<close> is the value \<open>None\<close>; the
  measurements a call hands to the SDK are returned in order. A timer's value is consumed by
  \<open>finish\<close> and dropped at the end of it.
\<close>

datatype tool_class =
  Inventory | Details | HealthClass | DiscoveryClass | RepairPlanClass | OtherClass

fun tool_class_as_str :: "tool_class \<Rightarrow> str" where
  "tool_class_as_str Inventory = ''inventory''"
| "tool_class_as_str Details = ''details''"
| "tool_class_as_str HealthClass = ''health''"
| "tool_class_as_str DiscoveryClass = ''discovery''"
| "tool_class_as_str RepairPlanClass = ''repair_plan''"
| "tool_class_as_str OtherClass = ''other''"

datatype tool_outcome = OutcomeOk | OutcomeRejected | OutcomeError | OutcomeCancelled

fun tool_outcome_as_str :: "tool_outcome \<Rightarrow> str" where
  "tool_outcome_as_str OutcomeOk = ''ok''"
| "tool_outcome_as_str OutcomeRejected = ''rejected''"
| "tool_outcome_as_str OutcomeError = ''error''"
| "tool_outcome_as_str OutcomeCancelled = ''cancelled''"

record tool_metrics =
  tm_calls :: instrument
  tm_duration :: instrument

definition tool_metrics_global :: "tool_metrics option" where
  "tool_metrics_global =
     Option.bind (ok (meter_new ''ores-mcp-server'')) (\<lambda>m.
     Option.bind (ok (u64_counter m ''mcp.server.tool.calls''
         ''Number of MCP tool calls completed'' ''{call}'')) (\<lambda>calls.
     Option.bind (ok (f64_histogram m ''mcp.server.tool.duration'' ''MCP tool-call duration'' ''ms'')) (\<lambda>dur.
       Some \<lparr>tm_calls = calls, tm_duration = dur\<rparr>)))"

definition record_call :: "tool_metrics \<Rightarrow> tool_class \<Rightarrow> tool_outcome \<Rightarrow> duration \<Rightarrow> measurement list option" where
  "record_call metrics cls outcome elapsed =
     Option.bind (ok (attribute_string ''mcp.tool.class'' (tool_class_as_str cls))) (\<lambda>a.
     Option.bind (ok (attribute_string ''mcp.tool.outcome'' (tool_outcome_as_str outcome))) (\<lambda>b.
       Some [counter_add (tm_calls metrics) 1 [a, b],
             histogram_record (tm_duration metrics) elapsed [a, b]]))"

record tool_timer =
  tt_metrics :: tool_metrics
  tt_class :: tool_class
  tt_started :: duration
  tt_finished :: bool

text \<open>Instants are durations since a fixed origin; \<open>now\<close> is the monotonic clock.\<close>

definition timer_start :: "tool_metrics \<Rightarrow> tool_class \<Rightarrow> duration \<Rightarrow> tool_timer" where
  "timer_start metrics cls now =
     \<lparr>tt_metrics = metrics, tt_class = cls, tt_started = now, tt_finished = False\<rparr>"

definition timer_drop :: "tool_timer \<Rightarrow> duration \<Rightarrow> measurement list option" where
  "timer_drop t now =
     (if \<not> tt_finished t
      then record_call (tt_metrics t) (tt_class t) OutcomeCancelled (now - tt_started t)
      else Some [])"

text \<open>\<open>finish(mut self, ..)\<close> records, sets the flag, and drops \<open>self\<close> at its end.\<close>

definition timer_finish :: "tool_timer \<Rightarrow> tool_outcome \<Rightarrow> duration \<Rightarrow> duration \<Rightarrow> measurement list option" where
  "timer_finish t outcome now dropped_at =
     Option.bind (record_call (tt_metrics t) (tt_class t) outcome (now - tt_started t)) (\<lambda>ms.
     Option.bind (timer_drop (t\<lparr>tt_finished := True\<rparr>) dropped_at) (\<lambda>more.
       Some (ms @ more)))"

section \<open>Static metadata\<close>

lemma identifier_byte_lower: "97 \<le> byte_of c \<Longrightarrow> byte_of c \<le> 122 \<Longrightarrow> identifier_byte c"
  by (simp add: identifier_byte_def is_ascii_alphanumeric_def)

lemma class_attribute_ok:
  "attribute_string ''mcp.tool.class'' (tool_class_as_str cls) =
     Inr (Attribute ''mcp.tool.class'' (AttrString (tool_class_as_str cls)))"
  by (cases cls; hypsubst; code_simp)

lemma outcome_attribute_ok:
  "attribute_string ''mcp.tool.outcome'' (tool_outcome_as_str outcome) =
     Inr (Attribute ''mcp.tool.outcome'' (AttrString (tool_outcome_as_str outcome)))"
  by (cases outcome; hypsubst; code_simp)

lemma tool_metrics_global_Some: "tool_metrics_global \<noteq> None"
proof -
  have "case tool_metrics_global of None \<Rightarrow> False | Some m \<Rightarrow> True" by code_simp
  then show ?thesis by (auto split: option.splits)
qed

section \<open>Measurements\<close>

lemma record_call_eq:
  "record_call m cls outcome d =
     (let labels = [(''mcp.tool.class'', AttrString (tool_class_as_str cls)),
                    (''mcp.tool.outcome'', AttrString (tool_outcome_as_str outcome))]
      in Some [CounterAdd (tm_calls m) 1 labels, HistogramRecord (tm_duration m) d labels])"
  by (simp add: record_call_def class_attribute_ok outcome_attribute_ok counter_add_def
      histogram_record_def otel_attributes_def Let_def)

text \<open>
  Every tool call is measured exactly once, with labels from the closed vocabulary only:
  an explicit \<open>finish\<close> gives one count and one duration under its outcome and nothing more
  when the timer is dropped after it, an abandoned timer gives them under \<open>cancelled\<close>, and no
  \<open>expect\<close> on the static metadata can panic.
\<close>

theorem tool_calls_measured_once:
  "tool_metrics_global \<noteq> None \<and>
   timer_finish (timer_start m cls started) outcome ended dropped =
     (let labels = [(''mcp.tool.class'', AttrString (tool_class_as_str cls)),
                    (''mcp.tool.outcome'', AttrString (tool_outcome_as_str outcome))]
      in Some [CounterAdd (tm_calls m) 1 labels,
               HistogramRecord (tm_duration m) (ended - started) labels]) \<and>
   timer_drop (timer_start m cls started) dropped =
     (let labels = [(''mcp.tool.class'', AttrString (tool_class_as_str cls)),
                    (''mcp.tool.outcome'', AttrString ''cancelled'')]
      in Some [CounterAdd (tm_calls m) 1 labels,
               HistogramRecord (tm_duration m) (dropped - started) labels])"
  using tool_metrics_global_Some
  by (auto simp: timer_finish_def timer_drop_def timer_start_def record_call_eq Let_def)

end
