(* ===== verification/Tool_Calls.thy ===== *)
theory Tool_Calls
  imports Observability
begin

text \<open>
  The tool metrics of \<open>src/observability.rs\<close> over a server's life: calls overlap, each with a
  timer of its own, and end in any order, by \<open>finish\<close> or by being dropped. Timers are numbered
  in the order they are started; what they measure goes into one log, as the instruments are
  shared by all clones of the metrics.
\<close>

section \<open>Overlapping calls\<close>

record tool_state =
  tls_timers :: "tool_timer option list"
  tls_log :: "measurement list"

datatype tool_action =
    ToolStarts tool_class duration
  | ToolFinishes nat tool_outcome duration duration
  | ToolDropped nat duration

definition tool_idle :: tool_state where
  "tool_idle = \<lparr>tls_timers = [], tls_log = []\<rparr>"

text \<open>
  \<open>finish\<close> consumes the timer and so does dropping it, hence the slot is emptied; an action on a
  timer that is not there cannot be written in Rust, and a panic of \<open>expect\<close> is \<open>None\<close> too.
\<close>

fun tool_act :: "tool_metrics \<Rightarrow> tool_state \<Rightarrow> tool_action \<Rightarrow> tool_state option" where
  "tool_act m s (ToolStarts cls now) = Some (s\<lparr>tls_timers := tls_timers s @ [Some (timer_start m cls now)]\<rparr>)"
| "tool_act m s (ToolFinishes i outcome now dropped_at) =
     (if i < length (tls_timers s) then
        Option.bind (tls_timers s ! i) (\<lambda>t.
        Option.bind (timer_finish t outcome now dropped_at) (\<lambda>ms.
          Some (s\<lparr>tls_timers := (tls_timers s)[i := None], tls_log := tls_log s @ ms\<rparr>)))
      else None)"
| "tool_act m s (ToolDropped i now) =
     (if i < length (tls_timers s) then
        Option.bind (tls_timers s ! i) (\<lambda>t.
        Option.bind (timer_drop t now) (\<lambda>ms.
          Some (s\<lparr>tls_timers := (tls_timers s)[i := None], tls_log := tls_log s @ ms\<rparr>)))
      else None)"

fun tool_run :: "tool_metrics \<Rightarrow> tool_state \<Rightarrow> tool_action list \<Rightarrow> tool_state option" where
  "tool_run m s [] = Some s"
| "tool_run m s (act # acts) =
     (case tool_act m s act of None \<Rightarrow> None | Some t \<Rightarrow> tool_run m t acts)"

section \<open>What was called\<close>

text \<open>Ownership: a timer is used after it was started and at most once.\<close>

fun owned :: "nat \<Rightarrow> nat set \<Rightarrow> tool_action list \<Rightarrow> bool" where
  "owned n live [] = True"
| "owned n live (ToolStarts _ _ # acts) = owned (Suc n) (insert n live) acts"
| "owned n live (ToolFinishes i _ _ _ # acts) = (i \<in> live \<and> owned n (live - {i}) acts)"
| "owned n live (ToolDropped i _ # acts) = (i \<in> live \<and> owned n (live - {i}) acts)"

definition starts :: "tool_action list \<Rightarrow> (tool_class \<times> duration) list" where
  "starts acts = List.map_filter (\<lambda>act. case act of ToolStarts cls now \<Rightarrow> Some (cls, now) | _ \<Rightarrow> None) acts"

text \<open>The calls that have ended, each with its class, its outcome and how long it took.\<close>

definition ended_call :: "(tool_class \<times> duration) list \<Rightarrow> tool_action \<Rightarrow> (tool_class \<times> tool_outcome \<times> duration) option" where
  "ended_call ss act =
     (case act of
        ToolStarts _ _ \<Rightarrow> None
      | ToolFinishes i outcome now _ \<Rightarrow> Some (fst (ss ! i), outcome, now - snd (ss ! i))
      | ToolDropped i now \<Rightarrow> Some (fst (ss ! i), OutcomeCancelled, now - snd (ss ! i)))"

definition ended_calls :: "tool_action list \<Rightarrow> (tool_class \<times> tool_outcome \<times> duration) list" where
  "ended_calls acts = List.map_filter (ended_call (starts acts)) acts"

definition tool_labels :: "tool_class \<Rightarrow> tool_outcome \<Rightarrow> (str \<times> attribute_value) list" where
  "tool_labels cls outcome =
     [(''mcp.tool.class'', AttrString (tool_class_as_str cls)),
      (''mcp.tool.outcome'', AttrString (tool_outcome_as_str outcome))]"

text \<open>What a counter and a histogram hold under some labels.\<close>

definition counter_total :: "instrument \<Rightarrow> (str \<times> attribute_value) list \<Rightarrow> measurement list \<Rightarrow> nat" where
  "counter_total ins labels log =
     sum_list (List.map_filter (\<lambda>ms. case ms of
        CounterAdd ins' n labels' \<Rightarrow> if ins' = ins \<and> labels' = labels then Some (unat n) else None
      | _ \<Rightarrow> None) log)"

definition histogram_values :: "instrument \<Rightarrow> (str \<times> attribute_value) list \<Rightarrow> measurement list \<Rightarrow> duration list" where
  "histogram_values ins labels log =
     List.map_filter (\<lambda>ms. case ms of
        HistogramRecord ins' d labels' \<Rightarrow> if ins' = ins \<and> labels' = labels then Some d else None
      | _ \<Rightarrow> None) log"

section \<open>The log\<close>

definition measured :: "tool_metrics \<Rightarrow> tool_class \<times> tool_outcome \<times> duration \<Rightarrow> measurement list" where
  "measured m call = (case call of (cls, outcome, d) \<Rightarrow>
     [CounterAdd (tm_calls m) 1 (tool_labels cls outcome), HistogramRecord (tm_duration m) d (tool_labels cls outcome)])"

lemma timer_measures:
  "timer_finish (timer_start m cls started) outcome now dropped_at = Some (measured m (cls, outcome, now - started))"
  "timer_drop (timer_start m cls started) now = Some (measured m (cls, OutcomeCancelled, now - started))"
  by (simp_all add: timer_finish_def timer_drop_def timer_start_def record_call_eq measured_def
      tool_labels_def Let_def)

definition open_timers :: "tool_state \<Rightarrow> nat" where
  "open_timers s = length (filter (\<lambda>t. t \<noteq> None) (tls_timers s))"

lemma open_removed:
  "i < length ts \<Longrightarrow> ts ! i = Some t \<Longrightarrow>
     length (filter (\<lambda>t. t \<noteq> None) ts) = Suc (length (filter (\<lambda>t. t \<noteq> None) (ts[i := None])))"
proof (induction ts arbitrary: i)
  case (Cons x ts)
  then show ?case by (cases i) auto
qed simp

lemma starts_Cons [simp]:
  "starts [] = []" "starts (ToolStarts cls now # acts) = (cls, now) # starts acts"
  "starts (ToolFinishes i outcome now at # acts) = starts acts" "starts (ToolDropped i now # acts) = starts acts"
  by (simp_all add: starts_def List.map_filter_simps)

definition in_flight :: "tool_metrics \<Rightarrow> (tool_class \<times> duration) list \<Rightarrow> nat set \<Rightarrow> tool_state \<Rightarrow> bool" where
  "in_flight m ss live s \<longleftrightarrow> (\<forall>i \<in> live. i < length (tls_timers s) \<and>
     tls_timers s ! i = Some (timer_start m (fst (ss ! i)) (snd (ss ! i))))"

lemma tool_run_log:
  assumes "owned (length (tls_timers s)) live acts" "in_flight m ss live s"
    and "ss = pre @ starts acts" "length pre = length (tls_timers s)"
  shows "\<exists>t. tool_run m s acts = Some t \<and>
    tls_log t = tls_log s @ concat (map (measured m) (List.map_filter (ended_call ss) acts)) \<and>
    open_timers t + length (List.map_filter (ended_call ss) acts) = open_timers s + length (starts acts)"
  using assms
proof (induction acts arbitrary: s live pre)
  case (Cons act acts)
  have go: "\<exists>t. tool_run m s (act # acts) = Some t \<and>
      tls_log t = tls_log s @ concat (map (measured m) (List.map_filter (ended_call ss) (act # acts))) \<and>
      open_timers t + length (List.map_filter (ended_call ss) (act # acts)) = open_timers s + length (starts (act # acts))"
    if i: "i \<in> live" "owned (length (tls_timers s)) (live - {i}) acts" "starts (act # acts) = starts acts"
      and call: "ended_call ss act = Some call" "tool_act m s act =
        Some (s\<lparr>tls_timers := (tls_timers s)[i := None], tls_log := tls_log s @ measured m call\<rparr>)" for i call
  proof -
    let ?u = "s\<lparr>tls_timers := (tls_timers s)[i := None], tls_log := tls_log s @ measured m call\<rparr>"
    have "in_flight m ss (live - {i}) ?u" using Cons.prems(2) by (auto simp: in_flight_def)
    then obtain t where t: "tool_run m ?u acts = Some t"
        "tls_log t = tls_log ?u @ concat (map (measured m) (List.map_filter (ended_call ss) acts))"
        "open_timers t + length (List.map_filter (ended_call ss) acts) = open_timers ?u + length (starts acts)"
      using Cons.IH [of ?u "live - {i}" pre] i(2,3) Cons.prems(3,4) by auto
    have "open_timers s = Suc (open_timers ?u)"
      using open_removed [of i "tls_timers s"] Cons.prems(2) i(1) by (auto simp: open_timers_def in_flight_def)
    with t call i(3) show ?thesis by (auto simp: List.map_filter_simps)
  qed
  show ?case
  proof (cases act)
    case (ToolStarts cls now)
    let ?u = "s\<lparr>tls_timers := tls_timers s @ [Some (timer_start m cls now)]\<rparr>"
    have ss: "ss = (pre @ [(cls, now)]) @ starts acts" "ss ! length (tls_timers s) = (cls, now)"
      using Cons.prems(3,4) ToolStarts by (simp_all add: nth_append)
    have "in_flight m ss (insert (length (tls_timers s)) live) ?u"
      using Cons.prems(2) ss(2) by (auto simp: in_flight_def nth_append)
    then obtain t where t: "tool_run m ?u acts = Some t"
        "tls_log t = tls_log ?u @ concat (map (measured m) (List.map_filter (ended_call ss) acts))"
        "open_timers t + length (List.map_filter (ended_call ss) acts) = open_timers ?u + length (starts acts)"
      using Cons.IH [of ?u "insert (length (tls_timers s)) live" "pre @ [(cls, now)]"] Cons.prems(1,4) ss(1) ToolStarts
      by auto
    moreover have "open_timers ?u = Suc (open_timers s)" by (simp add: open_timers_def)
    moreover have "ended_call ss act = None" by (simp add: ToolStarts ended_call_def)
    ultimately show ?thesis by (simp add: ToolStarts List.map_filter_simps)
  next
    case (ToolFinishes i outcome now at)
    with Cons.prems(1,2) timer_measures(1) show ?thesis
      by (intro go [of i]) (auto simp: ended_call_def in_flight_def)
  next
    case (ToolDropped i now)
    with Cons.prems(1,2) timer_measures(2) show ?thesis
      by (intro go [of i]) (auto simp: ended_call_def in_flight_def)
  qed
qed (simp add: List.map_filter_simps)

section \<open>Counts\<close>

lemma labels_inject:
  "tool_labels cls outcome = tool_labels cls' outcome' \<longleftrightarrow> cls = cls' \<and> outcome = outcome'"
proof -
  have "tool_class_as_str cls = tool_class_as_str cls' \<longleftrightarrow> cls = cls'" by (cases cls; cases cls') simp_all
  moreover have "tool_outcome_as_str outcome = tool_outcome_as_str outcome' \<longleftrightarrow> outcome = outcome'"
    by (cases outcome; cases outcome') simp_all
  ultimately show ?thesis by (simp add: tool_labels_def)
qed

lemma totals_append [simp]:
  "counter_total ins labels (a @ b) = counter_total ins labels a + counter_total ins labels b"
  "histogram_values ins labels (a @ b) = histogram_values ins labels a @ histogram_values ins labels b"
  by (simp_all add: counter_total_def histogram_values_def List.map_filter_def)

lemma totals_measured:
  "counter_total (tm_calls m) (tool_labels cls outcome) (concat (map (measured m) calls)) =
     length (filter (\<lambda>(c, r, _). c = cls \<and> r = outcome) calls)"
  "histogram_values (tm_duration m) (tool_labels cls outcome) (concat (map (measured m) calls)) =
     [d. (c, r, d) \<leftarrow> calls, c = cls \<and> r = outcome]"
proof (induction calls)
  case (Cons call calls)
  obtain c r d where call: "call = (c, r, d)" by (cases call)
  {
    case 1
    show ?case using Cons(1)
      by (auto simp: call measured_def counter_total_def List.map_filter_simps labels_inject)
  next
    case 2
    show ?case using Cons(2)
      by (auto simp: call measured_def histogram_values_def List.map_filter_simps labels_inject)
  }
qed (simp_all add: counter_total_def histogram_values_def List.map_filter_simps)

text \<open>
  C27. The tool metrics count calls, however they overlap and in whichever order they end. No
  \<open>expect\<close> panics; for each class and outcome the counter holds exactly the number of calls of
  that class that ended so, an abandoned one as \<open>cancelled\<close>; the histogram holds their
  durations, each from its own call's start, in the order they ended; and the calls that have
  not ended are the timers still open.
\<close>

theorem tool_metrics_count_calls:
  assumes "owned 0 {} acts"
  shows "\<exists>s. tool_run m tool_idle acts = Some s \<and>
    (\<forall>cls outcome.
       counter_total (tm_calls m) (tool_labels cls outcome) (tls_log s) =
         length (filter (\<lambda>(c, r, _). c = cls \<and> r = outcome) (ended_calls acts)) \<and>
       histogram_values (tm_duration m) (tool_labels cls outcome) (tls_log s) =
         [d. (c, r, d) \<leftarrow> ended_calls acts, c = cls \<and> r = outcome]) \<and>
    open_timers s + length (ended_calls acts) = length (starts acts)"
proof -
  obtain s where s: "tool_run m tool_idle acts = Some s"
      "tls_log s = concat (map (measured m) (ended_calls acts))"
      "open_timers s + length (ended_calls acts) = length (starts acts)"
    using tool_run_log [of tool_idle "{}" acts m "starts acts" "[]"] assms
    by (auto simp: tool_idle_def in_flight_def open_timers_def ended_calls_def)
  then show ?thesis using totals_measured [of m _ _ "ended_calls acts"] by (intro exI [of _ s]) simp
qed

text \<open>Two overlapping inventory calls, the second one abandoned before the first one ends.\<close>

theorem tool_metrics_count_calls_witness:
  "\<forall>m. let acts = [ToolStarts Inventory 5, ToolStarts Inventory 6, ToolDropped 1 8, ToolStarts Details 8,
      ToolFinishes 0 OutcomeOk 9 9]
   in \<exists>s. tool_run m tool_idle acts = Some s \<and>
     counter_total (tm_calls m) (tool_labels Inventory OutcomeCancelled) (tls_log s) = 1 \<and>
     histogram_values (tm_duration m) (tool_labels Inventory OutcomeOk) (tls_log s) = [4] \<and>
     open_timers s = 1"
proof
  fix m
  let ?acts = "[ToolStarts Inventory 5, ToolStarts Inventory 6, ToolDropped 1 8, ToolStarts Details 8,
      ToolFinishes 0 OutcomeOk 9 9]"
  have ended: "ended_calls ?acts = [(Inventory, OutcomeCancelled, 2), (Inventory, OutcomeOk, 4)]"
    by (simp add: ended_calls_def ended_call_def List.map_filter_simps)
  have "owned 0 {} ?acts" by simp
  from tool_metrics_count_calls [OF this, of m]
  show "let acts = ?acts in \<exists>s. tool_run m tool_idle acts = Some s \<and>
     counter_total (tm_calls m) (tool_labels Inventory OutcomeCancelled) (tls_log s) = 1 \<and>
     histogram_values (tm_duration m) (tool_labels Inventory OutcomeOk) (tls_log s) = [4] \<and>
     open_timers s = 1"
    unfolding ended Let_def by (elim exE) (auto intro!: exI)
qed

end
