(* ===== verification/Header_Policy.thy ===== *)
theory Header_Policy
  imports Environment
begin

text \<open>
  The \<open>Host\<close> and \<open>Origin\<close> policy of \<open>src/transport.rs\<close>. \<open>Authority\<close> and \<open>Uri\<close> belong to the
  \<open>http\<close> crate: their parsers are the parameter \<open>http_types\<close>, a parsed value is the record
  of its accessors. A header map gives, per name, the first value's \<open>to_str\<close>, which is
  nothing for a value that is not visible ASCII.
\<close>

record authority =
  auth_host :: str
  auth_port :: "u16 option"

record uri =
  uri_path :: str
  uri_query :: "str option"
  uri_scheme :: "str option"
  uri_authority :: "authority option"

record http_types =
  ht_authority :: "str \<Rightarrow> authority option"
  ht_uri :: "str \<Rightarrow> uri option"

type_synonym header_map = "str \<Rightarrow> str option option"

record normalized_host =
  nh_host :: str
  nh_port :: "u16 option"

record normalized_origin =
  no_scheme :: str
  no_host :: str
  no_effective_port :: u16

record header_policy =
  hp_hosts :: "normalized_host list"
  hp_origins :: "normalized_origin list"
  hp_require_origin :: bool

datatype header_rejection = BadRequest | Forbidden

definition rejection_response :: "header_rejection \<Rightarrow> nat \<times> str" where
  "rejection_response r =
     (case r of
        BadRequest \<Rightarrow> (400, ''invalid transport headers'')
      | Forbidden \<Rightarrow> (403, ''transport headers are not allowed''))"

definition invalid_config :: "str \<Rightarrow> io_error" where
  "invalid_config message = IoError InvalidInput message"

definition normalize_ip_or_name :: "str \<Rightarrow> str" where
  "normalize_ip_or_name value =
     (let front = dropWhile (\<lambda>c. c = CHR ''['') value;
          inner = rev (dropWhile (\<lambda>c. c = CHR '']'') (rev front))
      in to_ascii_lowercase inner)"

definition parse_host :: "http_types \<Rightarrow> str \<Rightarrow> normalized_host option" where
  "parse_host ht value =
     Option.bind (ht_authority ht (trim value)) (\<lambda>a.
       Some \<lparr>nh_host = normalize_ip_or_name (auth_host a), nh_port = auth_port a\<rparr>)"

definition default_port :: "str \<Rightarrow> u16 option" where
  "default_port scheme =
     (if scheme = ''http'' then Some 80 else if scheme = ''https'' then Some 443 else None)"

definition parse_origin :: "http_types \<Rightarrow> str \<Rightarrow> normalized_origin option" where
  "parse_origin ht value =
     Option.bind (ht_uri ht (trim value)) (\<lambda>u.
       if uri_path u \<noteq> ''/'' \<or> uri_query u \<noteq> None then None
       else Option.bind (uri_scheme u) (\<lambda>scheme0.
         let scheme = to_ascii_lowercase scheme0
         in Option.bind (default_port scheme) (\<lambda>port.
            Option.bind (uri_authority u) (\<lambda>a.
              Some \<lparr>no_scheme = scheme, no_host = normalize_ip_or_name (auth_host a),
                    no_effective_port = (case auth_port a of None \<Rightarrow> port | Some p \<Rightarrow> p)\<rparr>))))"

definition header_policy_new ::
  "http_types \<Rightarrow> str list \<Rightarrow> str list \<Rightarrow> bool \<Rightarrow> io_error + header_policy" where
  "header_policy_new ht hosts origins require_origin =
     (if hosts = [] \<or> origins = []
      then Inl (invalid_config ''Host and Origin allowlists must not be empty'')
      else
        and_then (collect_results
            (\<lambda>value. ok_or (invalid_config ''invalid allowed Host'') (parse_host ht value)) hosts) (\<lambda>hs.
        and_then (collect_results
            (\<lambda>value. ok_or (invalid_config ''invalid allowed Origin'') (parse_origin ht value)) origins)
          (\<lambda>os. Inr \<lparr>hp_hosts = hs, hp_origins = os, hp_require_origin = require_origin\<rparr>)))"

definition policy_validate :: "http_types \<Rightarrow> header_policy \<Rightarrow> header_map \<Rightarrow> header_rejection + unit" where
  "policy_validate ht policy headers =
     and_then (ok_or BadRequest (headers ''host'')) (\<lambda>value.
     and_then (ok_or BadRequest (Option.bind value (parse_host ht))) (\<lambda>host.
       if host \<notin> set (hp_hosts policy) then Inl Forbidden
       else case headers ''origin'' of
              Some value \<Rightarrow>
                and_then (ok_or BadRequest (Option.bind value (parse_origin ht))) (\<lambda>origin.
                  if origin \<notin> set (hp_origins policy) then Inl Forbidden else Inr ())
            | None \<Rightarrow> if hp_require_origin policy then Inl BadRequest else Inr ()))"

text \<open>The middleware answers a rejected request itself and hands the rest to \<open>next\<close>.\<close>

datatype middleware_response = Answered "nat \<times> str" | PassedOn

definition strict_header_middleware ::
  "http_types \<Rightarrow> header_policy \<Rightarrow> header_map \<Rightarrow> middleware_response" where
  "strict_header_middleware ht policy headers =
     (case policy_validate ht policy headers of
        Inl rejection \<Rightarrow> Answered (rejection_response rejection)
      | Inr _ \<Rightarrow> PassedOn)"

section \<open>Facts\<close>

lemma header_policy_new_Inr:
  "header_policy_new ht hosts origins req = Inr p \<longleftrightarrow>
     hosts \<noteq> [] \<and> origins \<noteq> [] \<and>
     list_all2 (\<lambda>v h. parse_host ht v = Some h) hosts (hp_hosts p) \<and>
     list_all2 (\<lambda>v q. parse_origin ht v = Some q) origins (hp_origins p) \<and>
     hp_require_origin p = req"
  by (cases p) (auto simp: header_policy_new_def collect_results_Inr)

lemma header_policy_new_ok:
  "is_ok (header_policy_new ht hosts origins req) \<longleftrightarrow>
     hosts \<noteq> [] \<and> origins \<noteq> [] \<and>
     list_all (\<lambda>v. parse_host ht v \<noteq> None) hosts \<and> list_all (\<lambda>v. parse_origin ht v \<noteq> None) origins"
proof -
  have c: "(\<exists>ys. collect_results (\<lambda>v. ok_or e (f v)) xs = Inr ys) \<longleftrightarrow> list_all (\<lambda>v. f v \<noteq> None) xs"
    for e and f :: "'a \<Rightarrow> 'b option" and xs
  proof (induction xs)
    case (Cons x xs)
    then show ?case by (cases "f x") (auto simp del: collect_results.simps(2))
  qed simp
  have "is_ok (header_policy_new ht hosts origins req) \<longleftrightarrow> hosts \<noteq> [] \<and> origins \<noteq> [] \<and>
      (\<exists>hs. collect_results
        (\<lambda>v. ok_or (invalid_config ''invalid allowed Host'') (parse_host ht v)) hosts = Inr hs) \<and>
      (\<exists>os. collect_results
        (\<lambda>v. ok_or (invalid_config ''invalid allowed Origin'') (parse_origin ht v)) origins = Inr os)"
    by (auto simp: is_ok_iff header_policy_new_def)
  then show ?thesis by (simp only: c)
qed

lemma allowed_member:
  "list_all2 (\<lambda>v h. f v = Some h) vs hs \<Longrightarrow> h \<in> set hs \<longleftrightarrow> (\<exists>v \<in> set vs. f v = Some h)"
  by (induction rule: list_all2_induct) auto

lemma policy_admits_iff:
  assumes "header_policy_new ht hosts origins require_origin = Inr policy"
  shows "policy_validate ht policy headers = Inr () \<longleftrightarrow>
    (\<exists>h allowed. headers ''host'' = Some (Some h) \<and> allowed \<in> set hosts \<and>
       parse_host ht h \<noteq> None \<and> parse_host ht h = parse_host ht allowed) \<and>
    (headers ''origin'' = None \<and> \<not> require_origin \<or>
     (\<exists>q allowed. headers ''origin'' = Some (Some q) \<and> allowed \<in> set origins \<and>
        parse_origin ht q \<noteq> None \<and> parse_origin ht q = parse_origin ht allowed))"
proof -
  have p: "h \<in> set (hp_hosts policy) \<longleftrightarrow> (\<exists>v \<in> set hosts. parse_host ht v = Some h)"
    "q \<in> set (hp_origins policy) \<longleftrightarrow> (\<exists>v \<in> set origins. parse_origin ht v = Some q)"
    "hp_require_origin policy = require_origin" for h q
    using assms by (auto simp: header_policy_new_Inr allowed_member)
  have listed: "(\<exists>x. y = Some x \<and> (\<exists>v \<in> set vs. f v = Some x)) \<longleftrightarrow>
      (\<exists>allowed. allowed \<in> set vs \<and> y \<noteq> None \<and> y = f allowed)"
    for y :: "'k option" and f :: "str \<Rightarrow> 'k option" and vs
    by (cases y) auto
  have host: "and_then (ok_or BadRequest (Option.bind hv (parse_host ht)))
        (\<lambda>host. if host \<notin> set (hp_hosts policy) then Inl Forbidden else r) = Inr () \<longleftrightarrow>
      r = Inr () \<and> (\<exists>h allowed. hv = Some h \<and> allowed \<in> set hosts \<and>
        parse_host ht h \<noteq> None \<and> parse_host ht h = parse_host ht allowed)" for hv r
    using listed [of "Option.bind hv (parse_host ht)" hosts "parse_host ht"]
    by (cases hv) (auto simp: p)
  have origin: "and_then (ok_or BadRequest (Option.bind hv (parse_origin ht)))
        (\<lambda>origin. if origin \<notin> set (hp_origins policy) then Inl Forbidden else Inr ()) = Inr () \<longleftrightarrow>
      (\<exists>q allowed. hv = Some q \<and> allowed \<in> set origins \<and>
        parse_origin ht q \<noteq> None \<and> parse_origin ht q = parse_origin ht allowed)" for hv
    using listed [of "Option.bind hv (parse_origin ht)" origins "parse_origin ht"]
    by (cases hv) (auto simp: p)
  show ?thesis
    unfolding policy_validate_def
    by (cases "headers ''host''"; cases "headers ''origin''";
        simp add: host origin p(3) del: and_then_Inr; blast)
qed

text \<open>
  C17. The header policy admits a request exactly when its \<open>Host\<close> equals an allow-listed host
  and its \<open>Origin\<close>, which only plain HTTP may omit, equals an allow-listed origin, both after
  the normalisation that the lists went through themselves. Everything else (a missing,
  undecodable, unparsable or unlisted header) is answered by the middleware and never
  reaches the protocol handler.
\<close>

theorem policy_admits_exactly_allow_listed:
  assumes "header_policy_new ht hosts origins require_origin = Inr policy"
  shows "strict_header_middleware ht policy headers = PassedOn \<longleftrightarrow>
    (\<exists>h allowed. headers ''host'' = Some (Some h) \<and> allowed \<in> set hosts \<and>
       parse_host ht h \<noteq> None \<and> parse_host ht h = parse_host ht allowed) \<and>
    (headers ''origin'' = None \<and> \<not> require_origin \<or>
     (\<exists>q allowed. headers ''origin'' = Some (Some q) \<and> allowed \<in> set origins \<and>
        parse_origin ht q \<noteq> None \<and> parse_origin ht q = parse_origin ht allowed))"
proof -
  have "strict_header_middleware ht policy headers = PassedOn \<longleftrightarrow>
      policy_validate ht policy headers = Inr ()"
    by (simp add: strict_header_middleware_def split: sum.splits)
  with policy_admits_iff [OF assms] show ?thesis by simp
qed

section \<open>A concrete parser\<close>

text \<open>A small instance of the parameter: \<open>host[:port]\<close> and \<open>http://authority\<close>.\<close>

definition example_authority :: "str \<Rightarrow> authority option" where
  "example_authority s =
     (case split_on (CHR '':'') s of
        [h] \<Rightarrow> Some \<lparr>auth_host = h, auth_port = None\<rparr>
      | [h, p] \<Rightarrow> map_option (\<lambda>n. \<lparr>auth_host = h, auth_port = Some (of_nat n)\<rparr>) (parse_unsigned 65536 p)
      | _ \<Rightarrow> None)"

definition example_types :: http_types where
  "example_types =
     \<lparr>ht_authority = example_authority,
      ht_uri = (\<lambda>s. if starts_with s ''http://''
        then map_option (\<lambda>a. \<lparr>uri_path = ''/'', uri_query = None, uri_scheme = Some ''http'',
               uri_authority = Some a\<rparr>) (example_authority (drop 7 s))
        else None)\<rparr>"

lemma trim_printable: "list_all (\<lambda>c. 33 \<le> byte_of c \<and> byte_of c < 127) s \<Longrightarrow> trim s = s"
proof -
  assume s: "list_all (\<lambda>c. 33 \<le> byte_of c \<and> byte_of c < 127) s"
  then have "ascii s" by (auto simp: list_all_iff ascii_def)
  then have c: "utf8_chunks s = map (\<lambda>c. [c]) s" by (rule utf8_chunks_ascii)
  have d: "dropWhile (\<lambda>c. is_whitespace (code_point c)) (map (\<lambda>c. [c]) t) = map (\<lambda>c. [c]) t"
    if "set t \<subseteq> set s" for t
    using that s by (cases t) (auto simp: list_all_iff is_whitespace_def)
  have "trim s = concat (rev (dropWhile (\<lambda>c. is_whitespace (code_point c)) (rev (map (\<lambda>c. [c]) s))))"
    by (simp add: trim_def c d)
  also have "\<dots> = concat (map (\<lambda>c. [c]) s)"
    using d [of "rev s"] by (simp flip: rev_map)
  finally show ?thesis by simp
qed

lemma example_headers:
  "parse_host example_types ''localhost'' = Some \<lparr>nh_host = ''localhost'', nh_port = None\<rparr>"
  "parse_host example_types ''LOCALHOST'' = Some \<lparr>nh_host = ''localhost'', nh_port = None\<rparr>"
  "parse_host example_types ''evil'' = Some \<lparr>nh_host = ''evil'', nh_port = None\<rparr>"
  "parse_origin example_types ''http://localhost'' \<noteq> None"
proof -
  have t: "trim ''localhost'' = ''localhost''" "trim ''LOCALHOST'' = ''LOCALHOST''" "trim ''evil'' = ''evil''"
    "trim ''http://localhost'' = ''http://localhost''"
    by (rule trim_printable, simp add: byte_of_def)+
  have n: "normalize_ip_or_name ''localhost'' = ''localhost''"
    "normalize_ip_or_name ''LOCALHOST'' = ''localhost''" "normalize_ip_or_name ''evil'' = ''evil''"
    by code_simp+
  show "parse_host example_types ''localhost'' = Some \<lparr>nh_host = ''localhost'', nh_port = None\<rparr>"
    "parse_host example_types ''LOCALHOST'' = Some \<lparr>nh_host = ''localhost'', nh_port = None\<rparr>"
    "parse_host example_types ''evil'' = Some \<lparr>nh_host = ''evil'', nh_port = None\<rparr>"
    by (simp_all add: parse_host_def t example_types_def example_authority_def n)
  show "parse_origin example_types ''http://localhost'' \<noteq> None"
    by (simp add: parse_origin_def t example_types_def example_authority_def default_port_def
        to_ascii_lowercase_def to_lower_byte_def byte_of_def)
qed

lemma example_policy:
  "\<exists>policy. header_policy_new example_types [''localhost''] [''http://localhost''] r = Inr policy"
  using example_headers
  by (simp add: header_policy_new_ok flip: is_ok_iff)

theorem policy_admits_exactly_allow_listed_witness:
  "\<exists>policy. header_policy_new example_types [''localhost''] [''http://localhost''] False = Inr policy \<and>
     strict_header_middleware example_types policy
       (\<lambda>name. if name = ''host'' then Some (Some ''LOCALHOST'') else None) = PassedOn \<and>
     strict_header_middleware example_types policy
       (\<lambda>name. if name = ''host'' then Some (Some ''evil'') else None) \<noteq> PassedOn"
proof -
  obtain policy where p:
      "header_policy_new example_types [''localhost''] [''http://localhost''] False = Inr policy"
    using example_policy by blast
  show ?thesis
    using policy_admits_exactly_allow_listed [OF p] example_headers p by (intro exI [of _ policy]) simp
qed

end
