(* ===== verification/Socket_Addr.thy ===== *)
theory Socket_Addr
  imports Texts
begin

text \<open>
  The parts of \<open>std::net\<close> that the transports use: socket addresses with their textual form,
  the parser behind \<open>FromStr\<close>, and the loopback test.
\<close>

type_synonym u8 = "8 word"

datatype ip_addr = V4 u8 u8 u8 u8 | V6 "u16 list"

text \<open>An IPv6 address has eight segments. A V6 socket address also has flow information and a
  scope identifier, in this order; both count for equality, and only the scope is displayed.\<close>

datatype socket_addr =
    SocketV4 ip_addr u16
  | SocketV6 ip_addr u16 u32 u32

fun addr_ip :: "socket_addr \<Rightarrow> ip_addr" where
  "addr_ip (SocketV4 i _) = i"
| "addr_ip (SocketV6 i _ _ _) = i"

fun addr_port :: "socket_addr \<Rightarrow> u16" where
  "addr_port (SocketV4 _ p) = p"
| "addr_port (SocketV6 _ p _ _) = p"

fun is_loopback :: "ip_addr \<Rightarrow> bool" where
  "is_loopback (V4 a _ _ _) = (a = 127)"
| "is_loopback (V6 segs) = (segs = [0, 0, 0, 0, 0, 0, 0, 1])"

section \<open>Display\<close>

definition show_digit :: "nat \<Rightarrow> char" where
  "show_digit d = char_of (if d < 10 then 48 + d else 87 + d)"

fun show_hex :: "nat \<Rightarrow> str" where
  "show_hex n = (if n < 16 then [show_digit n] else show_hex (n div 16) @ [show_digit (n mod 16)])"

declare show_hex.simps [simp del]

definition show_v4 :: "u8 \<Rightarrow> u8 \<Rightarrow> u8 \<Rightarrow> u8 \<Rightarrow> str" where
  "show_v4 a b c d =
     show_nat (unat a) @ ''.'' @ show_nat (unat b) @ ''.'' @ show_nat (unat c) @ ''.'' @ show_nat (unat d)"

fun longest_zeros :: "nat \<Rightarrow> u16 list \<Rightarrow> nat \<times> nat \<Rightarrow> nat \<times> nat \<Rightarrow> nat \<times> nat" where
  "longest_zeros i [] current longest = longest"
| "longest_zeros i (s # ss) (start, len) longest =
     (if s = 0 then
        (let current = ((if len = 0 then i else start), len + 1)
         in longest_zeros (i + 1) ss current (if snd current > snd longest then current else longest))
      else longest_zeros (i + 1) ss (0, 0) longest)"

definition show_segments :: "u16 list \<Rightarrow> str" where
  "show_segments ss = join_with '':'' (map (\<lambda>s. show_hex (unat s)) ss)"

definition high_byte :: "u16 \<Rightarrow> u8" where "high_byte s = of_nat (unat s div 256)"
definition low_byte :: "u16 \<Rightarrow> u8" where "low_byte s = of_nat (unat s mod 256)"

definition show_v6 :: "u16 list \<Rightarrow> str" where
  "show_v6 segs =
     (if take 6 segs = [0, 0, 0, 0, 0, 65535] \<and> length segs = 8
      then ''::ffff:'' @ show_v4 (high_byte (segs ! 6)) (low_byte (segs ! 6))
             (high_byte (segs ! 7)) (low_byte (segs ! 7))
      else let (start, len) = longest_zeros 0 segs (0, 0) (0, 0)
           in if len > 1
              then show_segments (take start segs) @ ''::'' @ show_segments (drop (start + len) segs)
              else show_segments segs)"

fun show_ip :: "ip_addr \<Rightarrow> str" where
  "show_ip (V4 a b c d) = show_v4 a b c d"
| "show_ip (V6 segs) = show_v6 segs"

fun show_socket_addr :: "socket_addr \<Rightarrow> str" where
  "show_socket_addr (SocketV4 i p) = show_ip i @ '':'' @ show_nat (unat p)"
| "show_socket_addr (SocketV6 i p flowinfo scope) =
     ''['' @ show_ip i @ (if scope = 0 then [] else ''%'' @ show_nat (unat scope)) @ '']:'' @ show_nat (unat p)"

section \<open>Parsing\<close>

definition digit_in :: "nat \<Rightarrow> char \<Rightarrow> nat option" where
  "digit_in radix c =
     (let n = byte_of c;
          d = (if 48 \<le> n \<and> n \<le> 57 then Some (n - 48)
               else if 97 \<le> n \<and> n \<le> 122 then Some (n - 87)
               else if 65 \<le> n \<and> n \<le> 90 then Some (n - 55) else None)
      in case d of None \<Rightarrow> None | Some v \<Rightarrow> if v < radix then Some v else None)"

definition is_digit_in :: "nat \<Rightarrow> char \<Rightarrow> bool" where
  "is_digit_in radix c = (case digit_in radix c of None \<Rightarrow> False | Some _ \<Rightarrow> True)"

fun value_in :: "nat \<Rightarrow> nat \<Rightarrow> str \<Rightarrow> nat" where
  "value_in radix acc [] = acc"
| "value_in radix acc (c # cs) =
     value_in radix (acc * radix + (case digit_in radix c of None \<Rightarrow> 0 | Some d \<Rightarrow> d)) cs"

definition read_number :: "nat \<Rightarrow> nat option \<Rightarrow> bool \<Rightarrow> nat \<Rightarrow> str \<Rightarrow> (nat \<times> str) option" where
  "read_number radix max_digits allow_zero_prefix limit s =
     (let ds = takeWhile (is_digit_in radix) s; v = value_in radix 0 ds
      in if ds = [] \<or> (case max_digits of None \<Rightarrow> False | Some m \<Rightarrow> length ds > m) \<or> v \<ge> limit \<or>
            (\<not> allow_zero_prefix \<and> hd ds = CHR ''0'' \<and> length ds > 1)
         then None
         else Some (v, drop (length ds) s))"

fun read_char :: "char \<Rightarrow> str \<Rightarrow> str option" where
  "read_char c [] = None"
| "read_char c (x # xs) = (if x = c then Some xs else None)"

definition read_separator :: "char \<Rightarrow> nat \<Rightarrow> (str \<Rightarrow> ('a \<times> str) option) \<Rightarrow> str \<Rightarrow> ('a \<times> str) option" where
  "read_separator sep index inner s = (if index > 0 then Option.bind (read_char sep s) inner else inner s)"

definition read_octet :: "str \<Rightarrow> (nat \<times> str) option" where
  "read_octet s = read_number 10 (Some 3) False 256 s"

definition read_ipv4 :: "str \<Rightarrow> ((nat \<times> nat \<times> nat \<times> nat) \<times> str) option" where
  "read_ipv4 s0 =
     Option.bind (read_octet s0) (\<lambda>(a, s1).
     Option.bind (read_separator (CHR ''.'') 1 read_octet s1) (\<lambda>(b, s2).
     Option.bind (read_separator (CHR ''.'') 2 read_octet s2) (\<lambda>(c, s3).
     Option.bind (read_separator (CHR ''.'') 3 read_octet s3) (\<lambda>(d, s4).
       Some ((a, b, c, d), s4)))))"

fun read_groups :: "nat \<Rightarrow> nat \<Rightarrow> str \<Rightarrow> nat list \<times> bool \<times> str" where
  "read_groups i 0 s = ([], False, s)"
| "read_groups i (Suc k) s =
     (case (if 0 < k then read_separator (CHR '':'') i read_ipv4 s else None) of
        Some ((a, b, c, d), rest) \<Rightarrow> ([a * 256 + b, c * 256 + d], True, rest)
      | None \<Rightarrow>
          (case read_separator (CHR '':'') i (read_number 16 (Some 4) True 65536) s of
             None \<Rightarrow> ([], False, s)
           | Some (g, rest) \<Rightarrow>
               (case read_groups (i + 1) k rest of (gs, v4, rest') \<Rightarrow> (g # gs, v4, rest'))))"

definition read_ipv6 :: "str \<Rightarrow> (nat list \<times> str) option" where
  "read_ipv6 s =
     (case read_groups 0 8 s of
        (head, head_ipv4, rest) \<Rightarrow>
          if length head = 8 then Some (head, rest)
          else if head_ipv4 then None
          else Option.bind (read_char (CHR '':'') rest) (\<lambda>rest1.
               Option.bind (read_char (CHR '':'') rest1) (\<lambda>rest2.
                 case read_groups 0 (8 - (length head + 1)) rest2 of
                   (tail, _, rest3) \<Rightarrow>
                     Some (head @ replicate (8 - length head - length tail) 0 @ tail, rest3))))"

definition read_port :: "str \<Rightarrow> (nat \<times> str) option" where
  "read_port s = Option.bind (read_char (CHR '':'') s) (read_number 10 None True 65536)"

definition read_scope :: "str \<Rightarrow> nat \<times> str" where
  "read_scope s =
     (case Option.bind (read_char (CHR ''%'') s) (read_number 10 None True 4294967296) of
        None \<Rightarrow> (0, s) | Some r \<Rightarrow> r)"

definition read_socket_v4 :: "str \<Rightarrow> (socket_addr \<times> str) option" where
  "read_socket_v4 s =
     Option.bind (read_ipv4 s) (\<lambda>((a, b, c, d), rest).
     Option.bind (read_port rest) (\<lambda>(p, rest').
       Some (SocketV4 (V4 (of_nat a) (of_nat b) (of_nat c) (of_nat d)) (of_nat p), rest')))"

definition read_socket_v6 :: "str \<Rightarrow> (socket_addr \<times> str) option" where
  "read_socket_v6 s =
     Option.bind (read_char (CHR ''['') s) (\<lambda>s1.
     Option.bind (read_ipv6 s1) (\<lambda>(segs, s2).
       case read_scope s2 of (scope, s3) \<Rightarrow>
     Option.bind (read_char (CHR '']'') s3) (\<lambda>s4.
     Option.bind (read_port s4) (\<lambda>(p, s5).
       Some (SocketV6 (V6 (map of_nat segs)) (of_nat p) 0 (of_nat scope), s5)))))"

definition parse_socket_addr :: "str \<Rightarrow> socket_addr option" where
  "parse_socket_addr s =
     (case (case read_socket_v4 s of None \<Rightarrow> read_socket_v6 s | Some r \<Rightarrow> Some r) of
        Some (a, []) \<Rightarrow> Some a
      | _ \<Rightarrow> None)"

section \<open>Facts\<close>

lemma digit_in_10: "digit_in 10 c = (if is_ascii_digit c then Some (byte_of c - 48) else None)"
  by (auto simp: digit_in_def is_ascii_digit_def Let_def)

lemma value_in_append: "value_in r a (s @ t) = value_in r (value_in r a s) t"
  by (induction s arbitrary: a) simp_all

lemma value_in_show: "value_in 10 0 (show_nat n) = n"
proof (induction n rule: show_nat.induct)
  case (1 n)
  then show ?case
    by (subst show_nat.simps) (auto simp: value_in_append digit_in_10 is_ascii_digit_def)
qed

lemma is_digit_in_10 [simp]: "is_digit_in 10 = is_ascii_digit"
  by (rule ext) (simp add: is_digit_in_def digit_in_10)

lemma takeWhile_show:
  assumes "\<And>c cs. rest = c # cs \<Longrightarrow> \<not> is_ascii_digit c"
  shows "takeWhile is_ascii_digit (show_nat n @ rest) = show_nat n"
proof -
  have "takeWhile is_ascii_digit (show_nat n @ rest) = show_nat n @ takeWhile is_ascii_digit rest"
    by (rule takeWhile_append2) (rule show_nat_digits)
  moreover have "takeWhile is_ascii_digit rest = []" using assms by (cases rest) auto
  ultimately show ?thesis by simp
qed

lemma show_nat_leading: "0 < n \<Longrightarrow> hd (show_nat n) \<noteq> CHR ''0''"
proof (induction n rule: show_nat.induct)
  case (1 n)
  have d: "char_of (48 + n) \<noteq> CHR ''0''" if "0 < n" "n < 10" for n :: nat
  proof
    assume "char_of (48 + n) = CHR ''0''"
    then have "byte_of (char_of (48 + n)) = byte_of (CHR ''0'')" by simp
    with that show False by (simp add: byte_of_def)
  qed
  show ?case
  proof (cases "n < 10")
    case True
    with d [of n] 1(2) show ?thesis by (subst show_nat.simps) simp
  next
    case False
    with 1 have "hd (show_nat (n div 10)) \<noteq> CHR ''0''" by simp
    with False show ?thesis by (subst show_nat.simps) simp
  qed
qed

lemma show_nat_length: "n < 10 ^ k \<Longrightarrow> 0 < k \<Longrightarrow> length (show_nat n) \<le> k"
proof (induction k arbitrary: n)
  case (Suc k)
  show ?case
  proof (cases "n < 10")
    case True
    then show ?thesis by (subst show_nat.simps) simp
  next
    case False
    with Suc.prems have "n div 10 < 10 ^ k" "0 < k" by (auto intro!: gr0I simp: div_less_iff_less_mult)
    then have "length (show_nat (n div 10)) \<le> k" by (rule Suc.IH)
    with False show ?thesis by (subst show_nat.simps) simp
  qed
qed simp

lemma read_show_nat:
  assumes "n < limit" and "\<And>c cs. rest = c # cs \<Longrightarrow> \<not> is_ascii_digit c"
    and "\<And>m. max_digits = Some m \<Longrightarrow> length (show_nat n) \<le> m"
  shows "read_number 10 max_digits z limit (show_nat n @ rest) = Some (n, rest)"
proof -
  have "length (show_nat n) > 1 \<Longrightarrow> 0 < n" by (cases n) (subst (asm) show_nat.simps, auto)
  then have "hd (show_nat n) = CHR ''0'' \<Longrightarrow> \<not> length (show_nat n) > 1" using show_nat_leading by blast
  moreover have "takeWhile is_ascii_digit (show_nat n @ rest) = show_nat n"
    using assms(2) by (rule takeWhile_show)
  moreover have "case max_digits of None \<Rightarrow> True | Some m \<Rightarrow> \<not> length (show_nat n) > m"
    using assms(3) by (cases max_digits) (simp_all add: not_less)
  ultimately show ?thesis
    using assms(1) by (auto simp: read_number_def value_in_show Let_def split: option.splits)
qed

lemma unat_u8_less [simp]: "unat (w :: u8) < 256"
  using unsigned_less [of w, where 'a = nat] by simp

lemma unat_u16_less [simp]: "unat (w :: u16) < 65536"
  using unsigned_less [of w, where 'a = nat] by simp

text \<open>An IPv4 socket address is read back from its display.\<close>

lemma read_octet_show:
  assumes "\<And>c cs. rest = c # cs \<Longrightarrow> \<not> is_ascii_digit c"
  shows "read_octet (show_nat (unat (w :: u8)) @ rest) = Some (unat w, rest)"
  unfolding read_octet_def
proof (rule read_show_nat)
  show "unat w < 256" by simp
  have "unat w < 10 ^ 3" by (rule less_trans [OF unat_u8_less]) simp
  then show "length (show_nat (unat w)) \<le> m" if "Some 3 = Some m" for m
    using show_nat_length [of "unat w" 3] that by simp
qed (use assms in auto)

lemma read_octet_delimited:
  "\<not> is_ascii_digit x \<Longrightarrow> read_octet (show_nat (unat (w :: u8)) @ x # rest) = Some (unat w, x # rest)"
  by (rule read_octet_show) simp

lemma delimiters [simp]: "\<not> is_ascii_digit (CHR ''.'')" "\<not> is_ascii_digit (CHR '':'')"
  by (simp_all add: is_ascii_digit_def byte_of_def)

lemma parse_show_socket_v4: "parse_socket_addr (show_socket_addr (SocketV4 (V4 a b c d) p)) = Some (SocketV4 (V4 a b c d) p)"
proof -
  have ip: "read_ipv4 (show_v4 a b c d @ '':'' @ show_nat (unat p)) =
      Some ((unat a, unat b, unat c, unat d), '':'' @ show_nat (unat p))"
    by (simp add: read_ipv4_def show_v4_def read_separator_def read_octet_delimited byte_of_def)
  have "read_number 10 None True 65536 (show_nat (unat p) @ []) = Some (unat p, [])"
    by (rule read_show_nat) simp_all
  then have port: "read_port ('':'' @ show_nat (unat p)) = Some (unat p, [])"
    by (simp add: read_port_def)
  show ?thesis
    using ip port by (simp add: parse_socket_addr_def read_socket_v4_def)
qed

end
