(* ===== verification/Transport_Config.thy ===== *)
theory Transport_Config
  imports Header_Policy Socket_Addr
begin

text \<open>
  Transport configuration of \<open>src/transport.rs\<close>: defaults, environment overrides and
  validation of the three network transports.
\<close>

definition MAX_MESSAGE_BYTES :: nat where "MAX_MESSAGE_BYTES = 256 * 1024"
definition STREAMABLE_HTTP_PATH :: str where "STREAMABLE_HTTP_PATH = ''/mcp''"
definition WEBSOCKET_PATH :: str where "WEBSOCKET_PATH = ''/mcp/ws''"
definition DEFAULT_SHUTDOWN_GRACE :: duration where "DEFAULT_SHUTDOWN_GRACE = from_secs 10"
definition MAX_SHUTDOWN_GRACE :: duration where "MAX_SHUTDOWN_GRACE = from_secs 300"
definition DEFAULT_MAX_CONNECTIONS :: nat where "DEFAULT_MAX_CONNECTIONS = 64"
definition MAX_CONNECTIONS :: nat where "MAX_CONNECTIONS = 4096"

record http_transport_config =
  hc_bind :: socket_addr
  hc_allowed_hosts :: "str list"
  hc_allowed_origins :: "str list"
  hc_max_body_bytes :: nat
  hc_allow_remote :: bool
  hc_shutdown_grace :: duration

record tcp_transport_config =
  tcp_bind :: socket_addr
  tcp_max_connections :: nat
  tcp_max_message_bytes :: nat
  tcp_allow_remote :: bool
  tcp_shutdown_grace :: duration

record websocket_transport_config =
  ws_bind :: socket_addr
  ws_allowed_hosts :: "str list"
  ws_allowed_origins :: "str list"
  ws_max_connections :: nat
  ws_max_message_bytes :: nat
  ws_allow_remote :: bool
  ws_shutdown_grace :: duration

section \<open>Defaults\<close>

definition local_header_defaults :: "socket_addr \<Rightarrow> str list \<times> str list" where
  "local_header_defaults bind =
     (let localhost_port = (if is_loopback (addr_ip bind) then [addr_port bind] else []);
          hosts = [show_socket_addr bind] @
            map (\<lambda>port. ''localhost:'' @ show_nat (unat port)) localhost_port;
          origins = [''http://'' @ show_socket_addr bind] @
            map (\<lambda>port. ''http://localhost:'' @ show_nat (unat port)) localhost_port
      in (hosts, origins))"

definition http_for_bind :: "socket_addr \<Rightarrow> http_transport_config" where
  "http_for_bind bind =
     (let (hosts, origins) = local_header_defaults bind
      in \<lparr>hc_bind = bind, hc_allowed_hosts = hosts, hc_allowed_origins = origins,
          hc_max_body_bytes = MAX_MESSAGE_BYTES, hc_allow_remote = False,
          hc_shutdown_grace = DEFAULT_SHUTDOWN_GRACE\<rparr>)"

definition tcp_for_bind :: "socket_addr \<Rightarrow> tcp_transport_config" where
  "tcp_for_bind bind =
     \<lparr>tcp_bind = bind, tcp_max_connections = DEFAULT_MAX_CONNECTIONS,
      tcp_max_message_bytes = MAX_MESSAGE_BYTES, tcp_allow_remote = False,
      tcp_shutdown_grace = DEFAULT_SHUTDOWN_GRACE\<rparr>"

definition websocket_for_bind :: "socket_addr \<Rightarrow> websocket_transport_config" where
  "websocket_for_bind bind =
     (let (hosts, origins) = local_header_defaults bind
      in \<lparr>ws_bind = bind, ws_allowed_hosts = hosts, ws_allowed_origins = origins,
          ws_max_connections = DEFAULT_MAX_CONNECTIONS, ws_max_message_bytes = MAX_MESSAGE_BYTES,
          ws_allow_remote = False, ws_shutdown_grace = DEFAULT_SHUTDOWN_GRACE\<rparr>)"

definition localhost_v4 :: "u16 \<Rightarrow> socket_addr" where
  "localhost_v4 port = SocketV4 (V4 127 0 0 1) port"

definition http_default :: http_transport_config where "http_default = http_for_bind (localhost_v4 3000)"
definition tcp_default :: tcp_transport_config where "tcp_default = tcp_for_bind (localhost_v4 3001)"
definition websocket_default :: websocket_transport_config where
  "websocket_default = websocket_for_bind (localhost_v4 3002)"

section \<open>Validation\<close>

definition validate_network_bind :: "socket_addr \<Rightarrow> bool \<Rightarrow> io_error + unit" where
  "validate_network_bind bind allow_remote =
     (if \<not> is_loopback (addr_ip bind) \<and> \<not> allow_remote
      then Inl (invalid_config ''non-loopback bind requires explicit allow_remote=true'')
      else Inr ())"

definition validate_message_limit :: "nat \<Rightarrow> io_error + unit" where
  "validate_message_limit value =
     (if value = 0 \<or> value > MAX_MESSAGE_BYTES
      then Inl (invalid_config ''message limit must be in 1..=262144'') else Inr ())"

definition validate_connections :: "nat \<Rightarrow> io_error + unit" where
  "validate_connections value =
     (if value = 0 \<or> value > MAX_CONNECTIONS
      then Inl (invalid_config ''connection cap must be in 1..=4096'') else Inr ())"

definition validate_grace :: "duration \<Rightarrow> io_error + unit" where
  "validate_grace value =
     (if value = 0 \<or> value > MAX_SHUTDOWN_GRACE
      then Inl (invalid_config ''shutdown grace must be in 1..=300 seconds'') else Inr ())"

definition http_validate :: "http_types \<Rightarrow> http_transport_config \<Rightarrow> io_error + unit" where
  "http_validate ht c =
     and_then (validate_network_bind (hc_bind c) (hc_allow_remote c)) (\<lambda>_.
     and_then (validate_message_limit (hc_max_body_bytes c)) (\<lambda>_.
     and_then (validate_grace (hc_shutdown_grace c)) (\<lambda>_.
     and_then (header_policy_new ht (hc_allowed_hosts c) (hc_allowed_origins c) False) (\<lambda>_.
       Inr ()))))"

definition tcp_validate :: "tcp_transport_config \<Rightarrow> io_error + unit" where
  "tcp_validate c =
     and_then (validate_network_bind (tcp_bind c) (tcp_allow_remote c)) (\<lambda>_.
     and_then (validate_connections (tcp_max_connections c)) (\<lambda>_.
     and_then (validate_message_limit (tcp_max_message_bytes c)) (\<lambda>_.
       validate_grace (tcp_shutdown_grace c))))"

definition websocket_validate :: "http_types \<Rightarrow> websocket_transport_config \<Rightarrow> io_error + unit" where
  "websocket_validate ht c =
     and_then (validate_network_bind (ws_bind c) (ws_allow_remote c)) (\<lambda>_.
     and_then (validate_connections (ws_max_connections c)) (\<lambda>_.
     and_then (validate_message_limit (ws_max_message_bytes c)) (\<lambda>_.
     and_then (validate_grace (ws_shutdown_grace c)) (\<lambda>_.
     and_then (header_policy_new ht (ws_allowed_hosts c) (ws_allowed_origins c) True) (\<lambda>_.
       Inr ())))))"

section \<open>Environment overrides\<close>

definition env_value_of :: "environment \<Rightarrow> str \<Rightarrow> io_error + str option" where
  "env_value_of env name =
     (case env name of
        VarOk v \<Rightarrow> Inr (Some v)
      | VarNotPresent \<Rightarrow> Inr None
      | VarNotUnicode \<Rightarrow> Inl (invalid_config ''transport environment value is not UTF-8''))"

definition env_socket :: "environment \<Rightarrow> str \<Rightarrow> io_error + socket_addr option" where
  "env_socket env name =
     and_then (env_value_of env name) (\<lambda>v.
       case v of
         None \<Rightarrow> Inr None
       | Some value \<Rightarrow>
           and_then (ok_or (invalid_config ''transport bind environment value is invalid'')
               (parse_socket_addr value)) (\<lambda>a. Inr (Some a)))"

definition env_list :: "environment \<Rightarrow> str \<Rightarrow> str list \<Rightarrow> io_error + str list" where
  "env_list env name fallback =
     and_then (env_value_of env name) (\<lambda>v.
       case v of
         None \<Rightarrow> Inr fallback
       | Some value \<Rightarrow>
           let parsed = filter (\<lambda>item. item \<noteq> []) (map trim (split_on (CHR '','') value))
           in if parsed = [] then Inl (invalid_config ''transport allowlist must not be empty'')
              else Inr parsed)"

definition env_usize :: "environment \<Rightarrow> str \<Rightarrow> nat \<Rightarrow> io_error + nat" where
  "env_usize env name fallback =
     and_then (env_value_of env name) (\<lambda>v.
       case v of
         None \<Rightarrow> Inr fallback
       | Some value \<Rightarrow>
           ok_or (invalid_config ''transport numeric environment value is invalid'')
             (parse_unsigned usize_limit value))"

definition env_bool :: "environment \<Rightarrow> str \<Rightarrow> bool \<Rightarrow> io_error + bool" where
  "env_bool env name fallback =
     and_then (env_value_of env name) (\<lambda>v.
       case v of
         None \<Rightarrow> Inr fallback
       | Some value \<Rightarrow>
           if value = ''1'' \<or> value = ''true'' \<or> value = ''TRUE'' then Inr True
           else if value = ''0'' \<or> value = ''false'' \<or> value = ''FALSE'' then Inr False
           else Inl (invalid_config ''transport boolean environment value is invalid''))"

definition env_duration :: "environment \<Rightarrow> str \<Rightarrow> duration \<Rightarrow> io_error + duration" where
  "env_duration env name fallback =
     and_then (env_value_of env name) (\<lambda>v.
       case v of
         None \<Rightarrow> Inr fallback
       | Some value \<Rightarrow>
           map_err (\<lambda>_. invalid_config ''transport duration environment value is invalid'')
             (and_then (ok_or () (parse_unsigned (2 ^ 64) value)) (\<lambda>n. Inr (from_secs n))))"

definition unwrap_bind :: "socket_addr option \<Rightarrow> socket_addr \<Rightarrow> socket_addr" where
  "unwrap_bind x d = (case x of None \<Rightarrow> d | Some a \<Rightarrow> a)"

definition http_from_env :: "http_types \<Rightarrow> environment \<Rightarrow> io_error + http_transport_config" where
  "http_from_env ht env =
     and_then (env_socket env ''MCP_HTTP_BIND'') (\<lambda>bound.
     let bind = unwrap_bind bound (hc_bind http_default); defaults = http_for_bind bind in
     and_then (env_list env ''MCP_HTTP_ALLOWED_HOSTS'' (hc_allowed_hosts defaults)) (\<lambda>hosts.
     and_then (env_list env ''MCP_HTTP_ALLOWED_ORIGINS'' (hc_allowed_origins defaults)) (\<lambda>origins.
     and_then (env_usize env ''MCP_HTTP_MAX_BODY_BYTES'' (hc_max_body_bytes defaults)) (\<lambda>max_body.
     and_then (env_bool env ''MCP_HTTP_ALLOW_REMOTE'' (hc_allow_remote defaults)) (\<lambda>remote.
     and_then (env_duration env ''MCP_HTTP_SHUTDOWN_GRACE_SECONDS'' (hc_shutdown_grace defaults)) (\<lambda>grace.
     let config = defaults\<lparr>hc_allowed_hosts := hosts, hc_allowed_origins := origins,
                    hc_max_body_bytes := max_body, hc_allow_remote := remote,
                    hc_shutdown_grace := grace\<rparr> in
     and_then (http_validate ht config) (\<lambda>_. Inr config)))))))"

definition tcp_from_env :: "environment \<Rightarrow> io_error + tcp_transport_config" where
  "tcp_from_env env =
     and_then (env_socket env ''MCP_TCP_BIND'') (\<lambda>bound.
     let bind = unwrap_bind bound (tcp_bind tcp_default); defaults = tcp_for_bind bind in
     and_then (env_usize env ''MCP_TCP_MAX_CONNECTIONS'' (tcp_max_connections defaults)) (\<lambda>conns.
     and_then (env_usize env ''MCP_TCP_MAX_MESSAGE_BYTES'' (tcp_max_message_bytes defaults)) (\<lambda>max_msg.
     and_then (env_bool env ''MCP_TCP_ALLOW_REMOTE'' (tcp_allow_remote defaults)) (\<lambda>remote.
     and_then (env_duration env ''MCP_TCP_SHUTDOWN_GRACE_SECONDS'' (tcp_shutdown_grace defaults)) (\<lambda>grace.
     let config = defaults\<lparr>tcp_max_connections := conns, tcp_max_message_bytes := max_msg,
                    tcp_allow_remote := remote, tcp_shutdown_grace := grace\<rparr> in
     and_then (tcp_validate config) (\<lambda>_. Inr config))))))"

definition websocket_from_env :: "http_types \<Rightarrow> environment \<Rightarrow> io_error + websocket_transport_config" where
  "websocket_from_env ht env =
     and_then (env_socket env ''MCP_WS_BIND'') (\<lambda>bound.
     let bind = unwrap_bind bound (ws_bind websocket_default); defaults = websocket_for_bind bind in
     and_then (env_list env ''MCP_WS_ALLOWED_HOSTS'' (ws_allowed_hosts defaults)) (\<lambda>hosts.
     and_then (env_list env ''MCP_WS_ALLOWED_ORIGINS'' (ws_allowed_origins defaults)) (\<lambda>origins.
     and_then (env_usize env ''MCP_WS_MAX_CONNECTIONS'' (ws_max_connections defaults)) (\<lambda>conns.
     and_then (env_usize env ''MCP_WS_MAX_MESSAGE_BYTES'' (ws_max_message_bytes defaults)) (\<lambda>max_msg.
     and_then (env_bool env ''MCP_WS_ALLOW_REMOTE'' (ws_allow_remote defaults)) (\<lambda>remote.
     and_then (env_duration env ''MCP_WS_SHUTDOWN_GRACE_SECONDS'' (ws_shutdown_grace defaults)) (\<lambda>grace.
     let config = defaults\<lparr>ws_allowed_hosts := hosts, ws_allowed_origins := origins,
                    ws_max_connections := conns, ws_max_message_bytes := max_msg,
                    ws_allow_remote := remote, ws_shutdown_grace := grace\<rparr> in
     and_then (websocket_validate ht config) (\<lambda>_. Inr config))))))))"

end
