(* ===== verification/Transport_Config_Laws.thy ===== *)
theory Transport_Config_Laws
  imports Transport_Config
begin

text \<open>
  What validation and the environment readers guarantee for every network transport.
\<close>

section \<open>Validation\<close>

lemma validate_network_bind_Inr [simp]:
  "validate_network_bind b r = Inr u \<longleftrightarrow> is_loopback (addr_ip b) \<or> r"
  by (simp add: validate_network_bind_def)

lemma validate_message_limit_Inr [simp]: "validate_message_limit n = Inr u \<longleftrightarrow> 0 < n \<and> n \<le> 262144"
  by (simp add: validate_message_limit_def MAX_MESSAGE_BYTES_def not_less)

lemma validate_connections_Inr [simp]: "validate_connections n = Inr u \<longleftrightarrow> 0 < n \<and> n \<le> 4096"
  by (simp add: validate_connections_def MAX_CONNECTIONS_def not_less)

lemma validate_grace_Inr [simp]: "validate_grace d = Inr u \<longleftrightarrow> 0 < d \<and> d \<le> from_secs 300"
  by (simp add: validate_grace_def MAX_SHUTDOWN_GRACE_def not_less)

lemma http_validate_Inr:
  "http_validate ht c = Inr u \<longleftrightarrow>
     (is_loopback (addr_ip (hc_bind c)) \<or> hc_allow_remote c) \<and>
     0 < hc_max_body_bytes c \<and> hc_max_body_bytes c \<le> 262144 \<and>
     0 < hc_shutdown_grace c \<and> hc_shutdown_grace c \<le> from_secs 300 \<and>
     is_ok (header_policy_new ht (hc_allowed_hosts c) (hc_allowed_origins c) False)"
  by (auto simp: http_validate_def is_ok_iff)

lemma tcp_validate_Inr:
  "tcp_validate c = Inr u \<longleftrightarrow>
     (is_loopback (addr_ip (tcp_bind c)) \<or> tcp_allow_remote c) \<and>
     0 < tcp_max_connections c \<and> tcp_max_connections c \<le> 4096 \<and>
     0 < tcp_max_message_bytes c \<and> tcp_max_message_bytes c \<le> 262144 \<and>
     0 < tcp_shutdown_grace c \<and> tcp_shutdown_grace c \<le> from_secs 300"
  by (auto simp: tcp_validate_def)

lemma websocket_validate_Inr:
  "websocket_validate ht c = Inr u \<longleftrightarrow>
     (is_loopback (addr_ip (ws_bind c)) \<or> ws_allow_remote c) \<and>
     0 < ws_max_connections c \<and> ws_max_connections c \<le> 4096 \<and>
     0 < ws_max_message_bytes c \<and> ws_max_message_bytes c \<le> 262144 \<and>
     0 < ws_shutdown_grace c \<and> ws_shutdown_grace c \<le> from_secs 300 \<and>
     is_ok (header_policy_new ht (ws_allowed_hosts c) (ws_allowed_origins c) True)"
  by (auto simp: websocket_validate_def is_ok_iff)

section \<open>Environment readers\<close>

definition remote_opt_in :: "environment \<Rightarrow> str \<Rightarrow> bool" where
  "remote_opt_in env name \<longleftrightarrow>
     env name = VarOk ''1'' \<or> env name = VarOk ''true'' \<or> env name = VarOk ''TRUE''"

lemma env_bool_True: "env_bool env name False = Inr True \<longleftrightarrow> remote_opt_in env name"
  by (auto simp: env_bool_def env_value_of_def remote_opt_in_def split: var_result.splits)

lemma env_bool_Inr: "env_bool env name False = Inr b \<longleftrightarrow> is_ok (env_bool env name False) \<and> b = remote_opt_in env name"
proof (cases "env_bool env name False")
  case (Inr b')
  then show ?thesis using env_bool_True [of env name] by (cases b'; cases b) auto
qed simp

lemma env_duration_whole:
  "env_duration env name fallback = Inr d \<Longrightarrow> d = fallback \<or> (\<exists>n. d = from_secs n)"
  by (auto simp: env_duration_def env_value_of_def split: var_result.splits)

lemma from_secs_mono: "from_secs m \<le> from_secs n \<longleftrightarrow> m \<le> n"
  by (simp add: from_secs_def)

lemma from_secs_whole: "0 < from_secs n \<Longrightarrow> from_secs 1 \<le> from_secs n"
  by (simp add: from_secs_def)

lemma env_grace_whole:
  "env_duration env name DEFAULT_SHUTDOWN_GRACE = Inr d \<Longrightarrow> 0 < d \<Longrightarrow> from_secs 1 \<le> d"
  using env_duration_whole [of env name DEFAULT_SHUTDOWN_GRACE d]
  by (auto simp: DEFAULT_SHUTDOWN_GRACE_def from_secs_def)

text \<open>
  C18. A configuration read from the environment is safe on every transport: it serves a
  non-loopback address only if the operator set that transport's own opt-in variable to an
  affirmative value, its message and connection bounds are inside the hard ceilings, and its
  shutdown grace is between one second and five minutes.
\<close>

theorem environment_configs_are_safe:
  "(http_from_env ht env = Inr h \<longrightarrow>
     (is_loopback (addr_ip (hc_bind h)) \<or> remote_opt_in env ''MCP_HTTP_ALLOW_REMOTE'') \<and>
     0 < hc_max_body_bytes h \<and> hc_max_body_bytes h \<le> 262144 \<and>
     from_secs 1 \<le> hc_shutdown_grace h \<and> hc_shutdown_grace h \<le> from_secs 300) \<and>
   (tcp_from_env env = Inr t \<longrightarrow>
     (is_loopback (addr_ip (tcp_bind t)) \<or> remote_opt_in env ''MCP_TCP_ALLOW_REMOTE'') \<and>
     0 < tcp_max_connections t \<and> tcp_max_connections t \<le> 4096 \<and>
     0 < tcp_max_message_bytes t \<and> tcp_max_message_bytes t \<le> 262144 \<and>
     from_secs 1 \<le> tcp_shutdown_grace t \<and> tcp_shutdown_grace t \<le> from_secs 300) \<and>
   (websocket_from_env ht env = Inr w \<longrightarrow>
     (is_loopback (addr_ip (ws_bind w)) \<or> remote_opt_in env ''MCP_WS_ALLOW_REMOTE'') \<and>
     0 < ws_max_connections w \<and> ws_max_connections w \<le> 4096 \<and>
     0 < ws_max_message_bytes w \<and> ws_max_message_bytes w \<le> 262144 \<and>
     from_secs 1 \<le> ws_shutdown_grace w \<and> ws_shutdown_grace w \<le> from_secs 300)"
proof (intro conjI impI)
  assume "http_from_env ht env = Inr h"
  then obtain remote where r: "env_bool env ''MCP_HTTP_ALLOW_REMOTE'' False = Inr remote"
      "hc_allow_remote h = remote" "http_validate ht h = Inr ()"
      "env_duration env ''MCP_HTTP_SHUTDOWN_GRACE_SECONDS'' DEFAULT_SHUTDOWN_GRACE = Inr (hc_shutdown_grace h)"
    by (auto simp: http_from_env_def Let_def http_for_bind_def split_beta)
  then show "is_loopback (addr_ip (hc_bind h)) \<or> remote_opt_in env ''MCP_HTTP_ALLOW_REMOTE''"
    "0 < hc_max_body_bytes h" "hc_max_body_bytes h \<le> 262144" "hc_shutdown_grace h \<le> from_secs 300"
    "from_secs 1 \<le> hc_shutdown_grace h"
    using env_bool_Inr [of env "''MCP_HTTP_ALLOW_REMOTE''" remote] env_grace_whole
    by (auto simp: http_validate_Inr)
next
  assume "tcp_from_env env = Inr t"
  then obtain remote where r: "env_bool env ''MCP_TCP_ALLOW_REMOTE'' False = Inr remote"
      "tcp_allow_remote t = remote" "tcp_validate t = Inr ()"
      "env_duration env ''MCP_TCP_SHUTDOWN_GRACE_SECONDS'' DEFAULT_SHUTDOWN_GRACE = Inr (tcp_shutdown_grace t)"
    by (auto simp: tcp_from_env_def Let_def tcp_for_bind_def)
  then show "is_loopback (addr_ip (tcp_bind t)) \<or> remote_opt_in env ''MCP_TCP_ALLOW_REMOTE''"
    "0 < tcp_max_connections t" "tcp_max_connections t \<le> 4096"
    "0 < tcp_max_message_bytes t" "tcp_max_message_bytes t \<le> 262144"
    "tcp_shutdown_grace t \<le> from_secs 300" "from_secs 1 \<le> tcp_shutdown_grace t"
    using env_bool_Inr [of env "''MCP_TCP_ALLOW_REMOTE''" remote] env_grace_whole
    by (auto simp: tcp_validate_Inr)
next
  assume "websocket_from_env ht env = Inr w"
  then obtain remote where r: "env_bool env ''MCP_WS_ALLOW_REMOTE'' False = Inr remote"
      "ws_allow_remote w = remote" "websocket_validate ht w = Inr ()"
      "env_duration env ''MCP_WS_SHUTDOWN_GRACE_SECONDS'' DEFAULT_SHUTDOWN_GRACE = Inr (ws_shutdown_grace w)"
    by (auto simp: websocket_from_env_def Let_def websocket_for_bind_def split_beta)
  then show "is_loopback (addr_ip (ws_bind w)) \<or> remote_opt_in env ''MCP_WS_ALLOW_REMOTE''"
    "0 < ws_max_connections w" "ws_max_connections w \<le> 4096"
    "0 < ws_max_message_bytes w" "ws_max_message_bytes w \<le> 262144"
    "ws_shutdown_grace w \<le> from_secs 300" "from_secs 1 \<le> ws_shutdown_grace w"
    using env_bool_Inr [of env "''MCP_WS_ALLOW_REMOTE''" remote] env_grace_whole
    by (auto simp: websocket_validate_Inr)
qed

theorem environment_configs_are_safe_witness:
  "\<exists>t. tcp_from_env (\<lambda>_. VarNotPresent) = Inr t \<and> is_loopback (addr_ip (tcp_bind t)) \<and>
     tcp_max_message_bytes t \<le> 262144"
proof -
  let ?env = "\<lambda>_ :: str. VarNotPresent"
  have "tcp_validate tcp_default = Inr ()"
    by (simp add: tcp_validate_Inr tcp_default_def tcp_for_bind_def localhost_v4_def
        DEFAULT_MAX_CONNECTIONS_def MAX_MESSAGE_BYTES_def DEFAULT_SHUTDOWN_GRACE_def from_secs_def)
  then have t: "tcp_from_env ?env = Inr tcp_default"
    by (simp add: tcp_from_env_def env_socket_def env_value_of_def env_usize_def env_bool_def
        env_duration_def unwrap_bind_def tcp_default_def tcp_for_bind_def Let_def)
  have "\<not> remote_opt_in ?env ''MCP_TCP_ALLOW_REMOTE''" by (simp add: remote_opt_in_def)
  with t environment_configs_are_safe [of example_types ?env http_default tcp_default websocket_default]
  show ?thesis by blast
qed

section \<open>Defaults\<close>

text \<open>
  Documented behaviour of the \<open>http\<close> crate: it parses an IPv4 authority with a port and the
  \<open>localhost\<close> authority, and an \<open>http\<close> origin made of one, whose path it reports as a slash.
\<close>

definition documented_types :: "http_types \<Rightarrow> bool" where
  "documented_types ht \<longleftrightarrow>
     (\<forall>authority_text a b c d p. authority_text = show_socket_addr (SocketV4 (V4 a b c d) p) \<or>
          authority_text = ''localhost:'' @ show_nat (unat p) \<longrightarrow>
        ht_authority ht authority_text \<noteq> None \<and>
        (\<exists>u. ht_uri ht (''http://'' @ authority_text) = Some u \<and> uri_path u = ''/'' \<and> uri_query u = None \<and>
           uri_scheme u = Some ''http'' \<and> uri_authority u \<noteq> None))"

lemma show_nat_printable: "list_all (\<lambda>c. 33 \<le> byte_of c \<and> byte_of c < 127) (show_nat n)"
  by (auto simp: list_all_iff is_ascii_digit_def dest!: show_nat_digits)

lemma trim_authority:
  "trim (show_socket_addr (SocketV4 (V4 a b c d) p)) = show_socket_addr (SocketV4 (V4 a b c d) p)"
  "trim (''localhost:'' @ show_nat n) = ''localhost:'' @ show_nat n"
  "trim (''http://'' @ show_socket_addr (SocketV4 (V4 a b c d) p)) =
     ''http://'' @ show_socket_addr (SocketV4 (V4 a b c d) p)"
  "trim (''http://localhost:'' @ show_nat n) = ''http://localhost:'' @ show_nat n"
  by (rule trim_printable, simp add: show_v4_def byte_of_def show_nat_printable [unfolded byte_of_def])+

lemma lower_http: "to_ascii_lowercase ''http'' = ''http''"
  by code_simp

lemma local_headers_ok:
  assumes "documented_types ht"
  shows "is_ok (header_policy_new ht (fst (local_header_defaults (SocketV4 (V4 a b c d) p)))
    (snd (local_header_defaults (SocketV4 (V4 a b c d) p))) r)"
proof -
  have doc: "ht_authority ht authority_text \<noteq> None \<and>
        (\<exists>u. ht_uri ht (''http://'' @ authority_text) = Some u \<and> uri_path u = ''/'' \<and> uri_query u = None \<and>
           uri_scheme u = Some ''http'' \<and> uri_authority u \<noteq> None)"
    if "authority_text = show_socket_addr (SocketV4 (V4 a b c d) p) \<or> authority_text = ''localhost:'' @ show_nat (unat p)"
    for authority_text
    using assms that unfolding documented_types_def by blast
  have ok: "parse_host ht s \<noteq> None \<and> parse_origin ht (''http://'' @ s) \<noteq> None"
    if "s = show_socket_addr (SocketV4 (V4 a b c d) p) \<or> s = ''localhost:'' @ show_nat (unat p)" for s
  proof -
    note that0 = that
    have t: "trim s = s" "trim (''http://'' @ s) = ''http://'' @ s"
      using that trim_authority by auto
    obtain u where u: "ht_authority ht s \<noteq> None" "ht_uri ht (''http://'' @ s) = Some u" "uri_path u = ''/''"
        "uri_query u = None" "uri_scheme u = Some ''http''" "uri_authority u \<noteq> None"
      using doc [of s] that0 by blast
    have "parse_host ht s \<noteq> None" using t(1) u(1) by (auto simp: parse_host_def)
    moreover have "parse_origin ht (''http://'' @ s) \<noteq> None"
      unfolding parse_origin_def t(2) u(2) using u(3-) by (auto simp: lower_http default_port_def)
    ultimately show ?thesis by blast
  qed
  show ?thesis
    using ok [of "show_socket_addr (SocketV4 (V4 a b c d) p)"] ok [of "''localhost:'' @ show_nat (unat p)"]
    by (simp add: header_policy_new_ok local_header_defaults_def Let_def del: show_socket_addr.simps)
qed

text \<open>
  Over the documented parsers the configuration built for an IPv4 address is accepted
  on every transport exactly when the address is a loopback address: the generated
  allow-lists always parse, and nothing but the missing opt-in stands against a remote bind.
\<close>

theorem defaults_validate_exactly_on_loopback:
  assumes "documented_types ht"
  shows "(is_ok (http_validate ht (http_for_bind (SocketV4 (V4 a b c d) p))) \<longleftrightarrow> a = 127) \<and>
    (is_ok (websocket_validate ht (websocket_for_bind (SocketV4 (V4 a b c d) p))) \<longleftrightarrow> a = 127) \<and>
    (is_ok (tcp_validate (tcp_for_bind bind)) \<longleftrightarrow> is_loopback (addr_ip bind))"
  using local_headers_ok [OF assms]
  by (auto simp: is_ok_iff http_validate_Inr websocket_validate_Inr tcp_validate_Inr http_for_bind_def
      websocket_for_bind_def tcp_for_bind_def split_beta MAX_MESSAGE_BYTES_def DEFAULT_SHUTDOWN_GRACE_def
      DEFAULT_MAX_CONNECTIONS_def from_secs_def)

lemma example_authority_port: "CHR '':'' \<notin> set h \<Longrightarrow>
    example_authority (h @ '':'' @ show_nat (unat (p :: u16))) = Some \<lparr>auth_host = h, auth_port = Some p\<rparr>"
proof -
  assume h: "CHR '':'' \<notin> set h"
  have "CHR '':'' \<notin> set (show_nat (unat p))" by (auto dest: show_nat_digits)
  with h have "split_on (CHR '':'') (h @ '':'' @ show_nat (unat p)) = [h, show_nat (unat p)]"
    by (simp add: split_on_append split_on_id)
  then show ?thesis by (simp add: example_authority_def parse_show_nat)
qed

lemma example_types_documented: "documented_types example_types"
proof -
  have "CHR '':'' \<notin> set (show_v4 a b c d)" for a b c d
    by (auto simp: show_v4_def dest: show_nat_digits)
  then have v4: "\<exists>x. example_authority (show_socket_addr (SocketV4 (V4 a b c d) p)) = Some x" for a b c d p
    by (simp add: example_authority_port del: append_Cons)
  have "\<exists>x. example_authority (''localhost'' @ '':'' @ show_nat (unat (p :: u16))) = Some x" for p
    by (subst example_authority_port) simp_all
  then have local: "\<exists>x. example_authority (''localhost:'' @ show_nat (unat (p :: u16))) = Some x" for p
    by simp
  show ?thesis
    unfolding documented_types_def using v4 local by (fastforce simp: example_types_def)
qed

theorem defaults_validate_exactly_on_loopback_witness:
  "is_ok (http_validate example_types http_default) \<and>
   \<not> is_ok (http_validate example_types (http_for_bind (SocketV4 (V4 0 0 0 0) 3000)))"
  using defaults_validate_exactly_on_loopback [OF example_types_documented, of 127 0 0 1 3000]
    defaults_validate_exactly_on_loopback [OF example_types_documented, of 0 0 0 0 3000]
  by (simp add: http_default_def localhost_v4_def)

lemma example_defaults_valid:
  "http_validate example_types http_default = Inr ()"
  "websocket_validate example_types websocket_default = Inr ()"
  "tcp_validate tcp_default = Inr ()"
  using local_headers_ok [OF example_types_documented, of 127 0 0 1]
  by (simp_all add: http_validate_Inr websocket_validate_Inr tcp_validate_Inr http_default_def
      websocket_default_def tcp_default_def http_for_bind_def websocket_for_bind_def tcp_for_bind_def
      localhost_v4_def split_beta MAX_MESSAGE_BYTES_def DEFAULT_SHUTDOWN_GRACE_def
      DEFAULT_MAX_CONNECTIONS_def from_secs_def)

end
