(* ===== verification/Socket_Roundtrip.thy ===== *)
theory Socket_Roundtrip
  imports Socket_Addr
begin

text \<open>
  Every socket address is read back from its display: the dotted form, and for IPv6 the full
  form, the form with the longest run of zeros compressed, the IPv4-mapped form, and a scope.
\<close>

section \<open>Hexadecimal numbers\<close>

lemma show_digit_byte: "d < 16 \<Longrightarrow> byte_of (show_digit d) = (if d < 10 then 48 + d else 87 + d)"
  by (simp add: show_digit_def)

lemma digit_in_show: "d < 16 \<Longrightarrow> digit_in 16 (show_digit d) = Some d"
  by (auto simp: digit_in_def show_digit_byte Let_def)

lemma value_in_show_hex: "value_in 16 0 (show_hex n) = n"
proof (induction n rule: show_hex.induct)
  case (1 n)
  then show ?case by (subst show_hex.simps) (simp add: value_in_append digit_in_show)
qed

definition is_hex :: "char \<Rightarrow> bool" where
  "is_hex c \<longleftrightarrow> (48 \<le> byte_of c \<and> byte_of c \<le> 57) \<or> (97 \<le> byte_of c \<and> byte_of c \<le> 102)"

lemma show_hex_chars: "c \<in> set (show_hex n) \<Longrightarrow> is_hex c"
proof (induction n arbitrary: c rule: show_hex.induct)
  case (1 n)
  then show ?case
    by (subst (asm) show_hex.simps) (auto simp: is_hex_def show_digit_byte split: if_splits)
qed

lemma is_hex_digit: "is_hex c \<Longrightarrow> is_digit_in 16 c"
  by (auto simp: is_hex_def is_digit_in_def digit_in_def Let_def)

lemma show_hex_nonempty [simp]: "show_hex n \<noteq> []"
  by (subst show_hex.simps) simp

lemma show_hex_length: "n < 16 ^ k \<Longrightarrow> 0 < k \<Longrightarrow> length (show_hex n) \<le> k"
proof (induction k arbitrary: n)
  case (Suc k)
  show ?case
  proof (cases "n < 16")
    case True
    then show ?thesis by (subst show_hex.simps) simp
  next
    case False
    with Suc.prems have "n div 16 < 16 ^ k" "0 < k" by (auto intro!: gr0I simp: div_less_iff_less_mult)
    then have "length (show_hex (n div 16)) \<le> k" by (rule Suc.IH)
    with False show ?thesis by (subst show_hex.simps) simp
  qed
qed simp

text \<open>What may follow a number: nothing, or a character that is no digit of it.\<close>

definition stops :: "nat \<Rightarrow> str \<Rightarrow> bool" where
  "stops radix rest \<longleftrightarrow> (case rest of [] \<Rightarrow> True | c # _ \<Rightarrow> \<not> is_digit_in radix c)"

lemma stops_delimiters [simp]:
  "stops 16 []" "stops 16 (CHR '':'' # s)" "stops 16 (CHR '']'' # s)" "stops 16 (CHR ''%'' # s)"
  by (simp_all add: stops_def is_digit_in_def digit_in_def byte_of_def)

lemma read_show_hex:
  assumes "n < 65536" "stops 16 rest"
  shows "read_number 16 (Some 4) True 65536 (show_hex n @ rest) = Some (n, rest)"
proof -
  have "takeWhile (is_digit_in 16) (show_hex n @ rest) = show_hex n @ takeWhile (is_digit_in 16) rest"
    by (rule takeWhile_append2) (simp add: show_hex_chars is_hex_digit)
  also have "takeWhile (is_digit_in 16) rest = []" using assms(2) by (cases rest) (simp_all add: stops_def)
  finally have "takeWhile (is_digit_in 16) (show_hex n @ rest) = show_hex n" by simp
  moreover have "length (show_hex n) \<le> 4" using show_hex_length [of n 4] assms(1) by simp
  ultimately show ?thesis using assms(1) by (simp add: read_number_def value_in_show_hex Let_def)
qed

section \<open>Where no dotted address stands\<close>

lemma read_number_suffix: "read_number r m z l s = Some (n, t) \<Longrightarrow> set t \<subseteq> set s"
  by (auto simp: read_number_def Let_def split: if_splits dest: in_set_dropD)

lemma read_ipv4_needs_dot: "CHR ''.'' \<notin> set s \<Longrightarrow> read_ipv4 s = None"
proof (cases "read_octet s")
  case (Some r)
  obtain a t where r: "r = (a, t)" by (cases r)
  assume "CHR ''.'' \<notin> set s"
  then have "CHR ''.'' \<notin> set t"
    using read_number_suffix [of 10 "Some 3" False 256 s a t] Some by (auto simp: r read_octet_def)
  then have "read_char (CHR ''.'') t = None" by (cases t) auto
  with Some show ?thesis by (simp add: read_ipv4_def r read_separator_def)
qed (simp add: read_ipv4_def)

lemma read_char_suffix: "read_char c s = Some t \<Longrightarrow> set t \<subseteq> set s"
  by (cases s) (auto split: if_splits)

lemma separated_ipv4_needs_dot: "CHR ''.'' \<notin> set s \<Longrightarrow> read_separator c i read_ipv4 s = None"
  using read_char_suffix [of c s]
  by (cases "read_char c s") (auto simp: read_separator_def intro!: read_ipv4_needs_dot)

lemma show_hex_no_dot [simp]: "CHR ''.'' \<notin> set (show_hex n)"
  using show_hex_chars [of "CHR ''.''" n] by (auto simp: is_hex_def byte_of_def)

section \<open>Groups\<close>

definition group_text :: "nat \<Rightarrow> nat list \<Rightarrow> str" where
  "group_text i gs =
     (if i = 0 then join_with '':'' (map show_hex gs) else concat (map (\<lambda>g. '':'' @ show_hex g) gs))"

lemma group_text_simps [simp]:
  "group_text i [] = []"
  "group_text 0 (g # gs) = show_hex g @ group_text (Suc 0) gs"
  "group_text (Suc i) (g # gs) = CHR '':'' # show_hex g @ group_text (Suc (Suc i)) gs"
proof -
  show "group_text 0 (g # gs) = show_hex g @ group_text (Suc 0) gs"
  proof (induction gs arbitrary: g)
    case (Cons h gs)
    then show ?case by (simp add: group_text_def)
  qed (simp add: group_text_def)
qed (simp_all add: group_text_def)

lemma group_text_no_dot [simp]: "CHR ''.'' \<notin> set (group_text i gs)"
proof (cases i)
  case 0
  then show ?thesis
    by (induction gs rule: induct_list012) (auto simp: group_text_def)
qed (auto simp: group_text_def)

lemma group_text_Suc: "group_text (Suc (Suc i)) gs = group_text (Suc 0) gs"
  by (simp add: group_text_def)

text \<open>The reader stops after the groups where no further group follows.\<close>

definition no_group :: "nat \<Rightarrow> str \<Rightarrow> bool" where
  "no_group i rest \<longleftrightarrow> read_separator (CHR '':'') i (read_number 16 (Some 4) True 65536) rest = None"

lemma read_groups_text:
  assumes "length gs \<le> k" "list_all (\<lambda>g. g < 65536) gs" "CHR ''.'' \<notin> set rest" "stops 16 rest"
    "length gs = k \<or> no_group (i + length gs) rest"
  shows "read_groups i k (group_text i gs @ rest) = (gs, False, rest)"
  using assms
proof (induction gs arbitrary: i k)
  case Nil
  then show ?case
    by (cases k) (auto simp: no_group_def separated_ipv4_needs_dot)
next
  case (Cons g gs)
  then obtain k' where k: "k = Suc k'" by (cases k) auto
  have st: "stops 16 (group_text (Suc i) gs @ rest)"
    using Cons.prems(4) by (cases gs) simp_all
  have "read_separator (CHR '':'') i (read_number 16 (Some 4) True 65536) (group_text i (g # gs) @ rest) =
      Some (g, group_text (Suc i) gs @ rest)"
    using Cons.prems(2) st by (cases i) (simp_all add: read_separator_def read_show_hex group_text_Suc)
  moreover have "read_separator (CHR '':'') i read_ipv4 (group_text i (g # gs) @ rest) = None"
    using Cons.prems(3) by (intro separated_ipv4_needs_dot) simp
  moreover have "read_groups (i + 1) k' (group_text (Suc i) gs @ rest) = (gs, False, rest)"
    using Cons.IH [of k' "Suc i"] Cons.prems by (simp add: k)
  ultimately show ?case by (cases k') (auto simp: k)
qed

section \<open>The compressed run\<close>

definition zero_run :: "u16 list \<Rightarrow> nat \<times> nat \<Rightarrow> bool" where
  "zero_run segs r \<longleftrightarrow> fst r + snd r \<le> length segs \<and> (\<forall>j < snd r. segs ! (fst r + j) = 0)"

lemma longest_zeros_run:
  assumes "zero_run pre (start, len)" "len = 0 \<or> start + len = length pre" "zero_run pre best"
  shows "zero_run (pre @ ss) (longest_zeros (length pre) ss (start, len) best)"
  using assms
proof (induction ss arbitrary: pre start len best)
  case (Cons s ss)
  have grow: "zero_run (pre @ [s]) r" if "zero_run pre r" for r
    using that by (auto simp: zero_run_def nth_append)
  show ?case
  proof (cases "s = 0")
    case True
    let ?c = "((if len = 0 then length pre else start), len + 1)"
    have c: "zero_run (pre @ [s]) ?c"
      using Cons.prems(1,2) True by (auto simp: zero_run_def nth_append less_Suc_eq)
    let ?b = "if snd ?c > snd best then ?c else best"
    have "zero_run (pre @ [s]) ?b" using c grow [OF Cons.prems(3)] by simp
    moreover have "fst ?c + (len + 1) = length (pre @ [s])" using Cons.prems(2) by auto
    moreover have "longest_zeros (length pre) (s # ss) (start, len) best =
        longest_zeros (length (pre @ [s])) ss ?c ?b"
      by (simp add: True Let_def)
    ultimately show ?thesis
      using Cons.IH [of "pre @ [s]" "fst ?c" "len + 1" ?b] c by simp
  next
    case False
    have "zero_run (pre @ [s]) (0, 0)" by (simp add: zero_run_def)
    then show ?thesis
      using Cons.IH [of "pre @ [s]" 0 0 best] grow [OF Cons.prems(3)] False by simp
  qed
qed simp

lemma zero_run_split:
  assumes "zero_run segs (a, n)"
  shows "segs = take a segs @ replicate n 0 @ drop (a + n) segs"
proof -
  have "take n (drop a segs) = replicate n 0"
    using assms by (auto simp: zero_run_def intro!: nth_equalityI)
  then show ?thesis by (metis append_take_drop_id drop_drop add.commute)
qed

section \<open>IPv6\<close>

lemma segments_text: "show_segments segs = group_text 0 (map unat segs)"
  by (simp add: show_segments_def group_text_def comp_def)

lemma segments_bound [simp]: "list_all (\<lambda>g. g < 65536) (map unat (segs :: u16 list))"
  by (simp add: list_all_iff)

lemma no_group_colons [simp]: "no_group i (CHR '':'' # CHR '':'' # s)"
  by (cases i) (simp_all add: no_group_def read_separator_def read_number_def is_digit_in_def
      digit_in_def byte_of_def Let_def)

definition closes :: "str \<Rightarrow> bool" where
  "closes rest \<longleftrightarrow> CHR ''.'' \<notin> set rest \<and>
     (\<exists>c s. rest = c # s \<and> (c = CHR '']'' \<or> c = CHR ''%''))"

lemma closes_simps:
  assumes "closes rest"
  shows "CHR ''.'' \<notin> set rest" "stops 16 rest" "no_group i rest"
  using assms
  by (auto simp: closes_def no_group_def read_separator_def read_number_def is_digit_in_def
      digit_in_def byte_of_def Let_def)

lemma read_full:
  assumes "length segs = 8" "closes rest"
  shows "read_ipv6 (show_segments segs @ rest) = Some (map unat segs, rest)"
  using read_groups_text [of "map unat segs" 8 rest 0] closes_simps [OF assms(2)] assms(1)
  by (simp add: read_ipv6_def segments_text)

lemma read_compressed:
  assumes "length segs = 8" "zero_run segs (a, n)" "1 < n" "closes rest"
  shows "read_ipv6 (show_segments (take a segs) @ ''::'' @ show_segments (drop (a + n) segs) @ rest) =
    Some (map unat segs, rest)"
proof -
  let ?h = "map unat (take a segs)" and ?t = "map unat (drop (a + n) segs)"
  have an: "a + n \<le> 8" using assms(1,2) by (simp add: zero_run_def)
  then have len: "length ?h = a" "length ?t = 8 - (a + n)" using assms(1) by simp_all
  have head: "read_groups 0 8 (group_text 0 ?h @ ''::'' @ group_text 0 ?t @ rest) =
      (?h, False, ''::'' @ group_text 0 ?t @ rest)"
    using an assms(3) closes_simps(1) [OF assms(4)]
    by (intro read_groups_text) (simp_all add: len assms(1))
  have tail: "read_groups 0 (7 - a) (group_text 0 ?t @ rest) = (?t, False, rest)"
    using an assms(3) closes_simps [OF assms(4)]
    by (intro read_groups_text) (simp_all add: len assms(1))
  have "map unat segs = ?h @ replicate n 0 @ ?t"
    using arg_cong [OF zero_run_split [OF assms(2)], of "map unat"] by simp
  moreover have "8 - a - length ?t = n" using an by (simp only: len)
  ultimately show ?thesis
    using head tail an assms(3) len by (simp add: read_ipv6_def segments_text)
qed

lemma read_dotted:
  assumes "stops 10 rest"
  shows "read_ipv4 (show_v4 a b c d @ rest) = Some ((unat a, unat b, unat c, unat d), rest)"
proof -
  have "read_octet (show_nat (unat d) @ rest) = Some (unat d, rest)"
    using assms by (intro read_octet_show) (simp add: stops_def)
  then show ?thesis
    by (simp add: read_ipv4_def show_v4_def read_separator_def read_octet_delimited byte_of_def)
qed

lemma read_groups_stop:
  "read_separator (CHR '':'') i read_ipv4 s = None \<Longrightarrow> no_group i s \<Longrightarrow> read_groups i k s = ([], False, s)"
  by (cases k) (simp_all add: no_group_def)

lemma read_groups_number:
  "read_separator (CHR '':'') i read_ipv4 s = None \<Longrightarrow>
     read_separator (CHR '':'') i (read_number 16 (Some 4) True 65536) s = Some (g, t) \<Longrightarrow> 0 < k \<Longrightarrow>
     read_groups i k s = (case read_groups (Suc i) (k - 1) t of (gs, v4, u) \<Rightarrow> (g # gs, v4, u))"
  by (cases k) simp_all

lemma read_groups_dotted:
  "read_separator (CHR '':'') i read_ipv4 s = Some ((a, b, c, d), t) \<Longrightarrow> 1 < k \<Longrightarrow>
     read_groups i k s = ([a * 256 + b, c * 256 + d], True, t)"
  by (cases k) simp_all

lemma read_mapped:
  assumes "stops 10 rest"
  shows "read_ipv6 (''::ffff:'' @ show_v4 a b c d @ rest) =
    Some ([0, 0, 0, 0, 0, 65535, unat a * 256 + unat b, unat c * 256 + unat d], rest)"
proof -
  let ?v4 = "show_v4 a b c d @ rest"
  have octet: "read_octet (c # s) = None" if "\<not> is_ascii_digit c" for c s
    using that by (simp add: read_octet_def read_number_def)
  have f: "read_number 16 (Some 4) True 65536 (''ffff:'' @ ?v4) = Some (65535, '':'' @ ?v4)"
  proof -
    have "show_digit 15 = CHR ''f''" by code_simp
    then have "show_hex 65535 = ''ffff''"
      by (simp add: show_hex.simps [of 65535] show_hex.simps [of 4095] show_hex.simps [of 255]
          show_hex.simps [of 15])
    then show ?thesis using read_show_hex [of 65535 "'':'' @ ?v4"] by simp
  qed
  have head: "read_groups 0 8 (''::ffff:'' @ ?v4) = ([], False, ''::ffff:'' @ ?v4)"
    by (rule read_groups_stop) (simp_all add: read_separator_def read_ipv4_def octet)
  have dotted: "read_groups (Suc 0) (7 - 1) ('':'' @ ?v4) =
      ([unat a * 256 + unat b, unat c * 256 + unat d], True, rest)"
    by (rule read_groups_dotted) (simp_all add: read_separator_def read_dotted [OF assms])
  have "\<not> is_ascii_digit (CHR ''f'')" by (simp add: is_ascii_digit_def byte_of_def)
  then have "read_groups 0 7 (''ffff:'' @ ?v4) =
      (case read_groups (Suc 0) (7 - 1) ('':'' @ ?v4) of (gs, v4, u) \<Rightarrow> (65535 # gs, v4, u))"
    using f by (intro read_groups_number) (simp_all add: read_separator_def read_ipv4_def octet)
  then have "read_groups 0 7 (''ffff:'' @ ?v4) =
      ([65535, unat a * 256 + unat b, unat c * 256 + unat d], True, rest)"
    by (simp only: dotted prod.case)
  moreover have "replicate 5 (0::nat) = [0, 0, 0, 0, 0]" by code_simp
  ultimately show ?thesis using head by (simp add: read_ipv6_def)
qed

text \<open>What the display prints, \<open>Ipv6Addr\<close> reads back.\<close>

lemma bytes_of_segment:
  "unat (high_byte s) * 256 + unat (low_byte s) = unat s"
proof -
  have "unat s div 256 < 256" using unat_u16_less [of s] by (simp add: div_less_iff_less_mult)
  then show ?thesis by (simp add: high_byte_def low_byte_def unat_of_nat take_bit_eq_mod)
qed

lemma read_show_v6:
  assumes "length segs = 8" "closes rest"
  shows "read_ipv6 (show_v6 segs @ rest) = Some (map unat segs, rest)"
proof (cases "take 6 segs = [0, 0, 0, 0, 0, 65535]")
  case True
  have two: "drop 6 segs = [segs ! 6, segs ! 7]"
    using assms(1) by (intro nth_equalityI) (auto simp: less_Suc_eq numeral_2_eq_2 nth_append)
  have "segs = take 6 segs @ drop 6 segs" by simp
  then have segs: "segs = [0, 0, 0, 0, 0, 65535, segs ! 6, segs ! 7]"
    unfolding True two by simp
  have "map unat segs = [0, 0, 0, 0, 0, 65535, unat (segs ! 6), unat (segs ! 7)]"
    by (subst segs) simp
  moreover have "stops 10 rest" using assms(2) by (auto simp: closes_def stops_def is_ascii_digit_def byte_of_def)
  ultimately show ?thesis
    using True assms(1) read_mapped [of rest "high_byte (segs ! 6)" "low_byte (segs ! 6)"
        "high_byte (segs ! 7)" "low_byte (segs ! 7)"]
    by (simp add: show_v6_def bytes_of_segment)
next
  case False
  obtain a n where z: "longest_zeros 0 segs (0, 0) (0, 0) = (a, n)" by force
  have "zero_run segs (a, n)" using longest_zeros_run [of "[]" 0 0 "(0, 0)" segs] z by (simp add: zero_run_def)
  with False z assms show ?thesis
    using read_compressed [of segs a n rest] by (simp add: show_v6_def read_full)
qed

section \<open>Socket addresses\<close>

text \<open>The addresses the standard library can hold: eight segments in an IPv6 address.\<close>

fun wf_addr :: "socket_addr \<Rightarrow> bool" where
  "wf_addr (SocketV4 (V4 _ _ _ _) _) = True"
| "wf_addr (SocketV6 (V6 segs) _ _ _) = (length segs = 8)"
| "wf_addr _ = False"

text \<open>The text of an address has no place for the flow information: the parser sets it to zero.\<close>

fun without_flowinfo :: "socket_addr \<Rightarrow> socket_addr" where
  "without_flowinfo (SocketV4 i p) = SocketV4 i p"
| "without_flowinfo (SocketV6 i p flowinfo scope) = SocketV6 i p 0 scope"

fun flowinfo_of :: "socket_addr \<Rightarrow> u32" where
  "flowinfo_of (SocketV4 _ _) = 0"
| "flowinfo_of (SocketV6 _ _ flowinfo _) = flowinfo"

lemma without_flowinfo_same: "without_flowinfo a = a \<longleftrightarrow> flowinfo_of a = 0"
  by (cases a) auto

lemma read_port_show: "read_port ('':'' @ show_nat (unat (p :: u16))) = Some (unat p, [])"
proof -
  have "read_number 10 None True 65536 (show_nat (unat p) @ []) = Some (unat p, [])"
    by (rule read_show_nat) simp_all
  then show ?thesis by (simp add: read_port_def)
qed

lemma read_scope_show:
  "read_scope ((if scope = 0 then [] else ''%'' @ show_nat (unat (scope :: u32))) @ CHR '']'' # s) =
    (unat scope, CHR '']'' # s)"
proof -
  have "unat scope < 4294967296" using unsigned_less [of scope, where 'a = nat] by simp
  moreover have "\<not> is_ascii_digit (CHR '']'')" by (simp add: is_ascii_digit_def byte_of_def)
  ultimately have "read_number 10 None True 4294967296 (show_nat (unat scope) @ CHR '']'' # s) =
      Some (unat scope, CHR '']'' # s)"
    by (intro read_show_nat) simp_all
  then show ?thesis by (simp add: read_scope_def)
qed

lemma parse_show_socket_addr: "wf_addr a \<Longrightarrow> parse_socket_addr (show_socket_addr a) = Some (without_flowinfo a)"
proof (induction a rule: wf_addr.induct)
  case (2 segs p flowinfo scope)
  let ?port = "'']:'' @ show_nat (unat p)"
  let ?rest = "(if scope = 0 then [] else ''%'' @ show_nat (unat scope)) @ ?port"
  have "CHR ''.'' \<notin> set (show_nat n)" for n
    using show_nat_digits [of _ n] delimiters(1) by blast
  then have "closes ?rest" by (auto simp: closes_def)
  with 2 have "read_ipv6 (show_v6 segs @ ?rest) = Some (map unat segs, ?rest)"
    by (intro read_show_v6) simp_all
  moreover have "read_scope ?rest = (unat scope, ?port)" by (simp add: read_scope_show)
  moreover have "read_octet (CHR ''['' # s) = None" for s
    by (simp add: read_octet_def read_number_def is_ascii_digit_def byte_of_def)
  ultimately show ?case
    using read_port_show [of p]
    by (simp add: parse_socket_addr_def read_socket_v4_def read_ipv4_def read_socket_v6_def comp_def)
qed (use parse_show_socket_v4 in simp_all)

end
