(* ===== verification/Config_Roundtrip.thy ===== *)
theory Config_Roundtrip
  imports Transport_Config_Laws Socket_Roundtrip
begin

text \<open>
  The environment readers are complete: a configuration written out as environment variables
  is read back as far as the variables can carry it. Two parts of a configuration have no
  place in them and are lost in a definite way: the flow information of an IPv6 socket address
  becomes zero, and a grace is cut down to whole seconds. Allow lists are written with commas,
  so their entries must be trimmed, not empty and free of commas; for other lists nothing is
  claimed.
\<close>

section \<open>Writing a configuration as variables\<close>

definition of_variables :: "(str \<times> str) list \<Rightarrow> environment" where
  "of_variables vs name = (case map_of vs name of None \<Rightarrow> VarNotPresent | Some v \<Rightarrow> VarOk v)"

definition show_flag :: "bool \<Rightarrow> str" where
  "show_flag b = (if b then ''1'' else ''0'')"

definition show_seconds :: "duration \<Rightarrow> str" where
  "show_seconds d = show_nat (d div from_secs 1)"

definition http_variables :: "http_transport_config \<Rightarrow> (str \<times> str) list" where
  "http_variables c =
     [(''MCP_HTTP_BIND'', show_socket_addr (hc_bind c)),
      (''MCP_HTTP_ALLOWED_HOSTS'', join_with '','' (hc_allowed_hosts c)),
      (''MCP_HTTP_ALLOWED_ORIGINS'', join_with '','' (hc_allowed_origins c)),
      (''MCP_HTTP_MAX_BODY_BYTES'', show_nat (hc_max_body_bytes c)),
      (''MCP_HTTP_ALLOW_REMOTE'', show_flag (hc_allow_remote c)),
      (''MCP_HTTP_SHUTDOWN_GRACE_SECONDS'', show_seconds (hc_shutdown_grace c))]"

definition tcp_variables :: "tcp_transport_config \<Rightarrow> (str \<times> str) list" where
  "tcp_variables c =
     [(''MCP_TCP_BIND'', show_socket_addr (tcp_bind c)),
      (''MCP_TCP_MAX_CONNECTIONS'', show_nat (tcp_max_connections c)),
      (''MCP_TCP_MAX_MESSAGE_BYTES'', show_nat (tcp_max_message_bytes c)),
      (''MCP_TCP_ALLOW_REMOTE'', show_flag (tcp_allow_remote c)),
      (''MCP_TCP_SHUTDOWN_GRACE_SECONDS'', show_seconds (tcp_shutdown_grace c))]"

definition websocket_variables :: "websocket_transport_config \<Rightarrow> (str \<times> str) list" where
  "websocket_variables c =
     [(''MCP_WS_BIND'', show_socket_addr (ws_bind c)),
      (''MCP_WS_ALLOWED_HOSTS'', join_with '','' (ws_allowed_hosts c)),
      (''MCP_WS_ALLOWED_ORIGINS'', join_with '','' (ws_allowed_origins c)),
      (''MCP_WS_MAX_CONNECTIONS'', show_nat (ws_max_connections c)),
      (''MCP_WS_MAX_MESSAGE_BYTES'', show_nat (ws_max_message_bytes c)),
      (''MCP_WS_ALLOW_REMOTE'', show_flag (ws_allow_remote c)),
      (''MCP_WS_SHUTDOWN_GRACE_SECONDS'', show_seconds (ws_shutdown_grace c))]"

text \<open>
  What a comma-separated variable can carry, the range of a \<open>Duration\<close> (its seconds are a
  \<open>u64\<close>), and what a count of seconds keeps of a duration.
\<close>

definition listable :: "str list \<Rightarrow> bool" where
  "listable items \<longleftrightarrow> items \<noteq> [] \<and> (\<forall>i \<in> set items. i \<noteq> [] \<and> trim i = i \<and> CHR '','' \<notin> set i)"

definition duration_in_range :: "duration \<Rightarrow> bool" where
  "duration_in_range d \<longleftrightarrow> d div from_secs 1 < 2 ^ 64"

definition whole_seconds :: "duration \<Rightarrow> bool" where
  "whole_seconds d \<longleftrightarrow> d mod from_secs 1 = 0"

definition cut_to_seconds :: "duration \<Rightarrow> duration" where
  "cut_to_seconds d = d - d mod from_secs 1"

lemma cut_to_seconds_same: "cut_to_seconds d = d \<longleftrightarrow> whole_seconds d"
proof -
  have "d mod from_secs 1 \<le> d" by simp
  then show ?thesis unfolding cut_to_seconds_def whole_seconds_def by linarith
qed

text \<open>
  A configuration with values in the range of their Rust types and with lists that a variable
  can carry, and what its variables carry of it.
\<close>

definition http_writable :: "http_transport_config \<Rightarrow> bool" where
  "http_writable c \<longleftrightarrow> wf_addr (hc_bind c) \<and> listable (hc_allowed_hosts c) \<and> listable (hc_allowed_origins c) \<and>
     hc_max_body_bytes c < usize_limit \<and> duration_in_range (hc_shutdown_grace c)"

definition tcp_writable :: "tcp_transport_config \<Rightarrow> bool" where
  "tcp_writable c \<longleftrightarrow> wf_addr (tcp_bind c) \<and> tcp_max_connections c < usize_limit \<and>
     tcp_max_message_bytes c < usize_limit \<and> duration_in_range (tcp_shutdown_grace c)"

definition websocket_writable :: "websocket_transport_config \<Rightarrow> bool" where
  "websocket_writable c \<longleftrightarrow> wf_addr (ws_bind c) \<and> listable (ws_allowed_hosts c) \<and> listable (ws_allowed_origins c) \<and>
     ws_max_connections c < usize_limit \<and> ws_max_message_bytes c < usize_limit \<and>
     duration_in_range (ws_shutdown_grace c)"

definition http_carried :: "http_transport_config \<Rightarrow> http_transport_config" where
  "http_carried c = c\<lparr>hc_bind := without_flowinfo (hc_bind c),
                      hc_shutdown_grace := cut_to_seconds (hc_shutdown_grace c)\<rparr>"

definition tcp_carried :: "tcp_transport_config \<Rightarrow> tcp_transport_config" where
  "tcp_carried c = c\<lparr>tcp_bind := without_flowinfo (tcp_bind c),
                     tcp_shutdown_grace := cut_to_seconds (tcp_shutdown_grace c)\<rparr>"

definition websocket_carried :: "websocket_transport_config \<Rightarrow> websocket_transport_config" where
  "websocket_carried c = c\<lparr>ws_bind := without_flowinfo (ws_bind c),
                           ws_shutdown_grace := cut_to_seconds (ws_shutdown_grace c)\<rparr>"

lemma carried_same:
  "http_carried h = h \<longleftrightarrow> flowinfo_of (hc_bind h) = 0 \<and> whole_seconds (hc_shutdown_grace h)"
  "tcp_carried t = t \<longleftrightarrow> flowinfo_of (tcp_bind t) = 0 \<and> whole_seconds (tcp_shutdown_grace t)"
  "websocket_carried w = w \<longleftrightarrow> flowinfo_of (ws_bind w) = 0 \<and> whole_seconds (ws_shutdown_grace w)"
  subgoal by (cases h) (simp add: http_carried_def without_flowinfo_same cut_to_seconds_same)
  subgoal by (cases t) (simp add: tcp_carried_def without_flowinfo_same cut_to_seconds_same)
  subgoal by (cases w) (simp add: websocket_carried_def without_flowinfo_same cut_to_seconds_same)
  done

section \<open>Reading one variable back\<close>

lemma of_variables_simps [simp]:
  "of_variables [] name = VarNotPresent"
  "of_variables ((n, v) # vs) name = (if n = name then VarOk v else of_variables vs name)"
  by (simp_all add: of_variables_def)

lemma read_back_socket:
  "env name = VarOk (show_socket_addr a) \<Longrightarrow> wf_addr a \<Longrightarrow> env_socket env name = Inr (Some (without_flowinfo a))"
  by (simp add: env_socket_def env_value_of_def parse_show_socket_addr ok_or_def)

lemma read_back_list:
  assumes "env name = VarOk (join_with '','' items)" "listable items"
  shows "env_list env name fallback = Inr items"
proof -
  have "split_on (CHR '','') (join_with '','' items) = items"
    using assms(2) by (intro split_on_join) (auto simp: listable_def)
  moreover have "map trim items = items" using assms(2) by (intro map_idI) (simp add: listable_def)
  moreover have "filter (\<lambda>i. i \<noteq> []) items = items" using assms(2) by (simp add: filter_id_conv listable_def)
  ultimately show ?thesis
    using assms by (simp add: listable_def env_list_def env_value_of_def Let_def)
qed

lemma read_back_usize:
  "env name = VarOk (show_nat n) \<Longrightarrow> n < usize_limit \<Longrightarrow> env_usize env name fallback = Inr n"
  by (simp add: env_usize_def env_value_of_def parse_show_nat ok_or_def)

lemma read_back_bool:
  "env name = VarOk (show_flag b) \<Longrightarrow> env_bool env name fallback = Inr b"
  by (simp add: env_bool_def env_value_of_def show_flag_def)

lemma read_back_duration:
  assumes "env name = VarOk (show_seconds d)" "duration_in_range d"
  shows "env_duration env name fallback = Inr (cut_to_seconds d)"
proof -
  have n: "parse_unsigned (2 ^ 64) (show_seconds d) = Some (d div from_secs 1)"
    using assms(2) by (simp add: show_seconds_def duration_in_range_def parse_show_nat)
  have "from_secs (d div from_secs 1) = cut_to_seconds d"
    by (simp add: cut_to_seconds_def from_secs_def mult.commute minus_mod_eq_mult_div [symmetric])
  then show ?thesis
    using assms(1) n by (simp add: env_duration_def env_value_of_def ok_or_def map_err_def)
qed

section \<open>Reading a configuration back\<close>

lemma http_read_back:
  assumes "http_writable c"
  shows "http_from_env ht (of_variables (http_variables c)) =
    and_then (http_validate ht (http_carried c)) (\<lambda>_. Inr (http_carried c))"
proof -
  let ?env = "of_variables (http_variables c)"
  note w = assms [unfolded http_writable_def]
  have "env_socket ?env ''MCP_HTTP_BIND'' = Inr (Some (without_flowinfo (hc_bind c)))"
    using w by (intro read_back_socket) (simp_all add: http_variables_def)
  moreover have "env_list ?env ''MCP_HTTP_ALLOWED_HOSTS'' d = Inr (hc_allowed_hosts c)" for d
    using w by (intro read_back_list) (simp_all add: http_variables_def)
  moreover have "env_list ?env ''MCP_HTTP_ALLOWED_ORIGINS'' d = Inr (hc_allowed_origins c)" for d
    using w by (intro read_back_list) (simp_all add: http_variables_def)
  moreover have "env_usize ?env ''MCP_HTTP_MAX_BODY_BYTES'' d = Inr (hc_max_body_bytes c)" for d
    using w by (intro read_back_usize) (simp_all add: http_variables_def)
  moreover have "env_bool ?env ''MCP_HTTP_ALLOW_REMOTE'' d = Inr (hc_allow_remote c)" for d
    using w by (intro read_back_bool) (simp_all add: http_variables_def)
  moreover have "env_duration ?env ''MCP_HTTP_SHUTDOWN_GRACE_SECONDS'' d = Inr (cut_to_seconds (hc_shutdown_grace c))" for d
    using w by (intro read_back_duration) (simp_all add: http_variables_def)
  ultimately show ?thesis
    by (cases c) (simp add: http_carried_def http_from_env_def Let_def http_for_bind_def split_beta unwrap_bind_def)
qed

lemma tcp_read_back:
  assumes "tcp_writable c"
  shows "tcp_from_env (of_variables (tcp_variables c)) =
    and_then (tcp_validate (tcp_carried c)) (\<lambda>_. Inr (tcp_carried c))"
proof -
  let ?env = "of_variables (tcp_variables c)"
  note w = assms [unfolded tcp_writable_def]
  have "env_socket ?env ''MCP_TCP_BIND'' = Inr (Some (without_flowinfo (tcp_bind c)))"
    using w by (intro read_back_socket) (simp_all add: tcp_variables_def)
  moreover have "env_usize ?env ''MCP_TCP_MAX_CONNECTIONS'' d = Inr (tcp_max_connections c)" for d
    using w by (intro read_back_usize) (simp_all add: tcp_variables_def)
  moreover have "env_usize ?env ''MCP_TCP_MAX_MESSAGE_BYTES'' d = Inr (tcp_max_message_bytes c)" for d
    using w by (intro read_back_usize) (simp_all add: tcp_variables_def)
  moreover have "env_bool ?env ''MCP_TCP_ALLOW_REMOTE'' d = Inr (tcp_allow_remote c)" for d
    using w by (intro read_back_bool) (simp_all add: tcp_variables_def)
  moreover have "env_duration ?env ''MCP_TCP_SHUTDOWN_GRACE_SECONDS'' d = Inr (cut_to_seconds (tcp_shutdown_grace c))" for d
    using w by (intro read_back_duration) (simp_all add: tcp_variables_def)
  ultimately show ?thesis
    by (cases c) (simp add: tcp_carried_def tcp_from_env_def Let_def tcp_for_bind_def unwrap_bind_def)
qed

lemma websocket_read_back:
  assumes "websocket_writable c"
  shows "websocket_from_env ht (of_variables (websocket_variables c)) =
    and_then (websocket_validate ht (websocket_carried c)) (\<lambda>_. Inr (websocket_carried c))"
proof -
  let ?env = "of_variables (websocket_variables c)"
  note w = assms [unfolded websocket_writable_def]
  have "env_socket ?env ''MCP_WS_BIND'' = Inr (Some (without_flowinfo (ws_bind c)))"
    using w by (intro read_back_socket) (simp_all add: websocket_variables_def)
  moreover have "env_list ?env ''MCP_WS_ALLOWED_HOSTS'' d = Inr (ws_allowed_hosts c)" for d
    using w by (intro read_back_list) (simp_all add: websocket_variables_def)
  moreover have "env_list ?env ''MCP_WS_ALLOWED_ORIGINS'' d = Inr (ws_allowed_origins c)" for d
    using w by (intro read_back_list) (simp_all add: websocket_variables_def)
  moreover have "env_usize ?env ''MCP_WS_MAX_CONNECTIONS'' d = Inr (ws_max_connections c)" for d
    using w by (intro read_back_usize) (simp_all add: websocket_variables_def)
  moreover have "env_usize ?env ''MCP_WS_MAX_MESSAGE_BYTES'' d = Inr (ws_max_message_bytes c)" for d
    using w by (intro read_back_usize) (simp_all add: websocket_variables_def)
  moreover have "env_bool ?env ''MCP_WS_ALLOW_REMOTE'' d = Inr (ws_allow_remote c)" for d
    using w by (intro read_back_bool) (simp_all add: websocket_variables_def)
  moreover have "env_duration ?env ''MCP_WS_SHUTDOWN_GRACE_SECONDS'' d = Inr (cut_to_seconds (ws_shutdown_grace c))" for d
    using w by (intro read_back_duration) (simp_all add: websocket_variables_def)
  ultimately show ?thesis
    by (cases c) (simp add: websocket_carried_def websocket_from_env_def Let_def websocket_for_bind_def split_beta unwrap_bind_def)
qed

text \<open>
  C19. Written as environment variables, a configuration is read back on every transport as
  what its variables carry. For a configuration whose values are in the range of their Rust
  types (eight segments in an IPv6 address, sizes in a \<open>usize\<close>, seconds in a \<open>u64\<close>) and whose
  allow lists are not empty and hold trimmed, non-empty entries without commas, the readers
  return exactly the carried configuration when validation accepts that one, and its validation
  error otherwise. What is carried is everything but the flow information of an IPv6 socket
  address, read back as zero, and the part of the grace below a second, cut off; so the
  configuration comes back as it was exactly when there is neither.
\<close>

theorem configs_survive_the_environment:
  "(http_writable h \<longrightarrow>
     http_from_env ht (of_variables (http_variables h)) =
       and_then (http_validate ht (http_carried h)) (\<lambda>_. Inr (http_carried h)) \<and>
     (http_carried h = h \<longleftrightarrow> flowinfo_of (hc_bind h) = 0 \<and> whole_seconds (hc_shutdown_grace h))) \<and>
   (tcp_writable t \<longrightarrow>
     tcp_from_env (of_variables (tcp_variables t)) =
       and_then (tcp_validate (tcp_carried t)) (\<lambda>_. Inr (tcp_carried t)) \<and>
     (tcp_carried t = t \<longleftrightarrow> flowinfo_of (tcp_bind t) = 0 \<and> whole_seconds (tcp_shutdown_grace t))) \<and>
   (websocket_writable w \<longrightarrow>
     websocket_from_env ht (of_variables (websocket_variables w)) =
       and_then (websocket_validate ht (websocket_carried w)) (\<lambda>_. Inr (websocket_carried w)) \<and>
     (websocket_carried w = w \<longleftrightarrow>
       flowinfo_of (ws_bind w) = 0 \<and> whole_seconds (ws_shutdown_grace w)))"
  by (simp add: http_read_back tcp_read_back websocket_read_back carried_same)

text \<open>
  A server on an IPv6 address with a scope, the same with flow information and a grace of two
  and a half seconds, and the default HTTP configuration.
\<close>

definition scoped_tcp :: tcp_transport_config where
  "scoped_tcp = (tcp_for_bind (SocketV6 (V6 [65152, 0, 0, 0, 0, 0, 0, 1]) 3001 0 3))
     \<lparr>tcp_allow_remote := True, tcp_shutdown_grace := from_secs 2\<rparr>"

definition labelled_tcp :: tcp_transport_config where
  "labelled_tcp = scoped_tcp\<lparr>tcp_bind := SocketV6 (V6 [65152, 0, 0, 0, 0, 0, 0, 1]) 3001 7 3,
     tcp_shutdown_grace := from_secs 2 + from_secs 1 div 2\<rparr>"

lemma default_http_writable: "http_writable http_default"
proof -
  have "CHR '','' \<notin> set (show_nat n)" "CHR '','' \<notin> set (show_v4 a b c d)" for n a b c d
    by (auto simp: show_v4_def is_ascii_digit_def byte_of_def dest!: show_nat_digits)
  moreover have "trim i = i" if "i \<in> set (hc_allowed_hosts http_default) \<union> set (hc_allowed_origins http_default)" for i
    using that trim_authority(1) [of 127 0 0 1 3000] trim_authority(2) [of 3000]
      trim_authority(3) [of 127 0 0 1 3000] trim_authority(4) [of 3000]
    by (auto simp: http_default_def localhost_v4_def http_for_bind_def local_header_defaults_def Let_def)
  ultimately show ?thesis
    by (auto simp: http_writable_def listable_def http_default_def localhost_v4_def http_for_bind_def
        local_header_defaults_def Let_def duration_in_range_def from_secs_def usize_limit_def
        MAX_MESSAGE_BYTES_def DEFAULT_SHUTDOWN_GRACE_def)
qed

theorem configs_survive_the_environment_witness:
  "show_socket_addr (tcp_bind labelled_tcp) = ''[fe80::1%3]:3001'' \<and>
   tcp_from_env (of_variables (tcp_variables scoped_tcp)) = Inr scoped_tcp \<and>
   tcp_from_env (of_variables (tcp_variables labelled_tcp)) = Inr scoped_tcp \<and>
   http_from_env example_types (of_variables (http_variables http_default)) = Inr http_default"
proof (intro conjI)
  have "show_digit 15 = CHR ''f''" "show_digit 14 = CHR ''e''" "show_digit 8 = CHR ''8''"
    "show_digit 0 = CHR ''0''" "show_digit 1 = CHR ''1''"
    "char_of (51 :: nat) = CHR ''3''" "char_of (48 :: nat) = CHR ''0''" "char_of (49 :: nat) = CHR ''1''"
    by code_simp+
  moreover have "longest_zeros 0 [65152, 0, 0, 0, 0, 0, 0, 1] (0, 0) (0, 0) = (1, 6)"
    by (simp add: Let_def)
  ultimately show "show_socket_addr (tcp_bind labelled_tcp) = ''[fe80::1%3]:3001''"
    by (simp add: labelled_tcp_def show_v6_def show_segments_def
        show_hex.simps [of 65152] show_hex.simps [of 4072] show_hex.simps [of 254] show_hex.simps [of 15]
        show_hex.simps [of 1] show_hex.simps [of "Suc 0"]
        show_nat.simps [of 3001] show_nat.simps [of 300] show_nat.simps [of 30] show_nat.simps [of 3])
  have w: "tcp_writable scoped_tcp" "tcp_writable labelled_tcp"
    by (simp_all add: tcp_writable_def labelled_tcp_def scoped_tcp_def tcp_for_bind_def duration_in_range_def
        from_secs_def usize_limit_def DEFAULT_MAX_CONNECTIONS_def MAX_MESSAGE_BYTES_def)
  have c: "tcp_carried labelled_tcp = scoped_tcp" "tcp_carried scoped_tcp = scoped_tcp"
    by (simp_all add: tcp_carried_def labelled_tcp_def scoped_tcp_def tcp_for_bind_def cut_to_seconds_def
        from_secs_def)
  have v: "tcp_validate scoped_tcp = Inr ()"
    by (simp add: tcp_validate_Inr scoped_tcp_def tcp_for_bind_def
        DEFAULT_MAX_CONNECTIONS_def MAX_MESSAGE_BYTES_def from_secs_def)
  show "tcp_from_env (of_variables (tcp_variables scoped_tcp)) = Inr scoped_tcp"
    using configs_survive_the_environment [of http_default example_types scoped_tcp websocket_default] w c v
    by simp
  show "tcp_from_env (of_variables (tcp_variables labelled_tcp)) = Inr scoped_tcp"
    using configs_survive_the_environment [of http_default example_types labelled_tcp websocket_default] w c v
    by simp
  have "http_carried http_default = http_default"
    by (simp add: carried_same http_default_def localhost_v4_def http_for_bind_def
        local_header_defaults_def Let_def whole_seconds_def from_secs_def DEFAULT_SHUTDOWN_GRACE_def)
  then show "http_from_env example_types (of_variables (http_variables http_default)) = Inr http_default"
    using configs_survive_the_environment [of http_default example_types scoped_tcp websocket_default]
      default_http_writable example_defaults_valid(1) by simp
qed

end
