(* ===== verification/Wire.thy ===== *)
theory Wire
  imports Transport_Config
begin

text \<open>
  The two byte-stream transports of \<open>src/transport.rs\<close>: newline-delimited JSON over any
  reader and writer, and WebSocket text frames. The codec, the socket and JSON are
  parameters: the line codec is a function of its maximal line length and of the reader, which
  gives the events the framed reader yields; those of a WebSocket are a list. The answers of the
  sink to successive operations are a list of booleans (an exhausted list answers yes), encoding
  and decoding are functions. A transport keeps the frames its sink accepted, in order. The
  asynchronous mutex around the writer makes each operation on it atomic.
\<close>

datatype wire_error = WireIo | WireSerialization | MessageTooLarge | WebSocketFailed

definition next_answer :: "bool list \<Rightarrow> bool \<times> bool list" where
  "next_answer answers = (case answers of [] \<Rightarrow> (True, []) | a # rest \<Rightarrow> (a, rest))"

section \<open>Newline-delimited JSON\<close>

datatype line_event = LineOk str | LineErr

text \<open>
  \<open>LinesCodec::new_with_max_length\<close>: the lines of a reader under a maximal length. What is
  documented of it is that no line it yields is longer; a longer one is an error.
\<close>

type_synonym 'r lines_codec = "nat \<Rightarrow> 'r \<Rightarrow> line_event list"

definition documented_lines :: "'r lines_codec \<Rightarrow> bool" where
  "documented_lines codec \<longleftrightarrow> (\<forall>n r line. LineOk line \<in> set (codec n r) \<longrightarrow> length line \<le> n)"

record ndjson_transport =
  nd_reader :: "line_event list"
  nd_writer :: "bool list option"
  nd_max_message_bytes :: nat
  nd_out :: "str list"

definition ndjson_new :: "'r lines_codec \<Rightarrow> 'r \<Rightarrow> bool list \<Rightarrow> nat \<Rightarrow> ndjson_transport" where
  "ndjson_new codec reader writer max_message_bytes =
     \<lparr>nd_reader = codec max_message_bytes reader, nd_writer = Some writer, nd_max_message_bytes = max_message_bytes, nd_out = []\<rparr>"

definition ndjson_send ::
  "('m \<Rightarrow> str option) \<Rightarrow> ndjson_transport \<Rightarrow> 'm \<Rightarrow> ndjson_transport \<times> (wire_error + unit)" where
  "ndjson_send to_string t item =
     (case to_string item of
        None \<Rightarrow> (t, Inl WireSerialization)
      | Some encoded \<Rightarrow>
          if length encoded > nd_max_message_bytes t then (t, Inl MessageTooLarge)
          else case nd_writer t of
                 None \<Rightarrow> (t, Inl WireIo)
               | Some answers \<Rightarrow>
                   (case next_answer answers of
                      (True, rest) \<Rightarrow>
                        (t\<lparr>nd_writer := Some rest, nd_out := nd_out t @ [encoded]\<rparr>, Inr ())
                    | (False, rest) \<Rightarrow> (t\<lparr>nd_writer := Some rest\<rparr>, Inl WireIo)))"

definition ndjson_receive ::
  "(str \<Rightarrow> 'c option) \<Rightarrow> ndjson_transport \<Rightarrow> ndjson_transport \<times> 'c option" where
  "ndjson_receive from_str t =
     (case nd_reader t of
        [] \<Rightarrow> (t, None)
      | LineErr # rest \<Rightarrow> (t\<lparr>nd_reader := rest\<rparr>, None)
      | LineOk frame # rest \<Rightarrow> (t\<lparr>nd_reader := rest\<rparr>, from_str frame))"

definition ndjson_close :: "ndjson_transport \<Rightarrow> ndjson_transport \<times> (wire_error + unit)" where
  "ndjson_close t =
     (case nd_writer t of
        None \<Rightarrow> (t, Inr ())
      | Some answers \<Rightarrow>
          (t\<lparr>nd_writer := None\<rparr>, if fst (next_answer answers) then Inr () else Inl WireIo))"

section \<open>WebSocket\<close>

datatype ws_message = WsText str | WsBinary str | WsPing str | WsPong str | WsClose

datatype ws_event = WsOk ws_message | WsErr

record websocket_transport =
  wst_reader :: "ws_event list"
  wst_writer :: "bool list option"
  wst_max_message_bytes :: nat
  wst_out :: "ws_message list"

definition websocket_new :: "ws_event list \<Rightarrow> bool list \<Rightarrow> nat \<Rightarrow> websocket_transport" where
  "websocket_new reader writer max_message_bytes =
     \<lparr>wst_reader = reader, wst_writer = Some writer, wst_max_message_bytes = max_message_bytes,
      wst_out = []\<rparr>"

definition websocket_send ::
  "('m \<Rightarrow> str option) \<Rightarrow> websocket_transport \<Rightarrow> 'm \<Rightarrow> websocket_transport \<times> (wire_error + unit)" where
  "websocket_send to_string t item =
     (case to_string item of
        None \<Rightarrow> (t, Inl WireSerialization)
      | Some encoded \<Rightarrow>
          if length encoded > wst_max_message_bytes t then (t, Inl MessageTooLarge)
          else case wst_writer t of
                 None \<Rightarrow> (t, Inl WebSocketFailed)
               | Some answers \<Rightarrow>
                   (case next_answer answers of
                      (True, rest) \<Rightarrow>
                        (t\<lparr>wst_writer := Some rest, wst_out := wst_out t @ [WsText encoded]\<rparr>, Inr ())
                    | (False, rest) \<Rightarrow> (t\<lparr>wst_writer := Some rest\<rparr>, Inl WebSocketFailed)))"

fun websocket_next :: "(str \<Rightarrow> 'c option) \<Rightarrow> nat \<Rightarrow> ws_event list \<Rightarrow> ws_event list \<times> 'c option" where
  "websocket_next from_str max_bytes [] = ([], None)"
| "websocket_next from_str max_bytes (WsOk (WsText frame) # rest) =
     (if length frame > max_bytes then (rest, None) else (rest, from_str frame))"
| "websocket_next from_str max_bytes (WsOk (WsPing _) # rest) = websocket_next from_str max_bytes rest"
| "websocket_next from_str max_bytes (WsOk (WsPong _) # rest) = websocket_next from_str max_bytes rest"
| "websocket_next from_str max_bytes (WsOk WsClose # rest) = (rest, None)"
| "websocket_next from_str max_bytes (WsErr # rest) = (rest, None)"
| "websocket_next from_str max_bytes (WsOk (WsBinary _) # rest) = (rest, None)"

definition websocket_receive ::
  "(str \<Rightarrow> 'c option) \<Rightarrow> websocket_transport \<Rightarrow> websocket_transport \<times> 'c option" where
  "websocket_receive from_str t =
     (case websocket_next from_str (wst_max_message_bytes t) (wst_reader t) of
        (rest, message) \<Rightarrow> (t\<lparr>wst_reader := rest\<rparr>, message))"

definition websocket_close :: "websocket_transport \<Rightarrow> websocket_transport \<times> (wire_error + unit)" where
  "websocket_close t =
     (case wst_writer t of
        None \<Rightarrow> (t, Inr ())
      | Some answers \<Rightarrow>
          (case next_answer answers of
             (False, _) \<Rightarrow> (t\<lparr>wst_writer := None\<rparr>, Inl WebSocketFailed)
           | (True, rest) \<Rightarrow>
               (t\<lparr>wst_writer := None, wst_out := wst_out t @ [WsClose]\<rparr>,
                if fst (next_answer rest) then Inr () else Inl WebSocketFailed)))"

section \<open>The sending contract\<close>

text \<open>
  What the MCP service relies on in a transport's sending side: a send appends exactly the
  encoded message or nothing, never beyond the cap, and closing is final.
\<close>

locale wire_sender =
  fixes send :: "'t \<Rightarrow> 'm \<Rightarrow> 't \<times> (wire_error + unit)"
    and close :: "'t \<Rightarrow> 't \<times> (wire_error + unit)"
    and sent :: "'t \<Rightarrow> str list"
    and opened :: "'t \<Rightarrow> bool"
    and cap :: "'t \<Rightarrow> nat"
    and to_string :: "'m \<Rightarrow> str option"
  assumes send_ok: "send t m = (t', Inr ()) \<Longrightarrow>
      opened t \<and> (\<exists>e. to_string m = Some e \<and> length e \<le> cap t \<and> sent t' = sent t @ [e])"
    and send_err: "send t m = (t', Inl e) \<Longrightarrow> sent t' = sent t"
    and send_keeps: "send t m = (t', r) \<Longrightarrow> opened t' = opened t \<and> cap t' = cap t"
    and close_final: "close t = (t', r) \<Longrightarrow> \<not> opened t' \<and> cap t' = cap t \<and> sent t' = sent t"
begin

definition step :: "'t \<Rightarrow> 'm option \<Rightarrow> 't" where
  "step t op = (case op of Some m \<Rightarrow> fst (send t m) | None \<Rightarrow> fst (close t))"

lemma step_simps [simp]: "step t (Some m) = fst (send t m)" "step t None = fst (close t)"
  by (simp_all add: step_def)

definition wf :: "'m list \<Rightarrow> 't \<Rightarrow> bool" where
  "wf ms t \<longleftrightarrow> list_all (\<lambda>e. length e \<le> cap t \<and> (\<exists>m \<in> set ms. to_string m = Some e)) (sent t)"

lemma step_send:
  "(sent (fst (send t m)) = sent t \<or>
    (\<exists>e. opened t \<and> to_string m = Some e \<and> length e \<le> cap t \<and> sent (fst (send t m)) = sent t @ [e])) \<and>
   opened (fst (send t m)) = opened t \<and> cap (fst (send t m)) = cap t"
proof (cases "send t m")
  case (Pair t' r)
  then show ?thesis
    using send_ok [of t m t'] send_err [of t m t'] send_keeps [of t m t' r] by (cases r) auto
qed

lemma run_wf: "sent t = [] \<Longrightarrow> set ops \<subseteq> insert None (Some ` set ms) \<Longrightarrow> wf ms (foldl step t ops)"
proof (induction ops rule: rev_induct)
  case (snoc op ops)
  let ?t = "foldl step t ops"
  have IH: "wf ms ?t" using snoc by simp
  show ?case
  proof (cases op)
    case None
    obtain t' r where "close ?t = (t', r)" by (cases "close ?t") auto
    with close_final [of ?t t' r] IH None show ?thesis by (simp add: wf_def)
  next
    case (Some m)
    with snoc.prems have "m \<in> set ms" by auto
    with step_send [of ?t m] IH Some show ?thesis by (auto simp: wf_def)
  qed
qed (simp add: wf_def)

lemma run_cap: "cap (foldl step t ops) = cap t"
proof (induction ops rule: rev_induct)
  case (snoc op ops)
  let ?t = "foldl step t ops"
  show ?case
  proof (cases op)
    case None
    obtain t' r where "close ?t = (t', r)" by (cases "close ?t") auto
    with close_final [of ?t t' r] snoc None show ?thesis by simp
  next
    case (Some m)
    with step_send [of ?t m] snoc show ?thesis by simp
  qed
qed simp

lemma closed_stays: "\<not> opened t \<Longrightarrow> \<not> opened (foldl step t ops) \<and> sent (foldl step t ops) = sent t"
proof (induction ops rule: rev_induct)
  case (snoc op ops)
  let ?t = "foldl step t ops"
  show ?case
  proof (cases op)
    case None
    obtain t' r where "close ?t = (t', r)" by (cases "close ?t") auto
    with close_final [of ?t t' r] snoc None show ?thesis by simp
  next
    case (Some m)
    with step_send [of ?t m] snoc show ?thesis by auto
  qed
qed simp

lemma nothing_after_close:
  "sent (foldl step t (us @ None # vs)) = sent (foldl step t us)"
proof -
  obtain t' r where "close (foldl step t us) = (t', r)" by (cases "close (foldl step t us)") auto
  with close_final [of _ t' r] closed_stays [of t' vs] show ?thesis by simp
qed

end

definition ws_texts :: "ws_message list \<Rightarrow> str list" where
  "ws_texts ms = List.map_filter (\<lambda>m. case m of WsText s \<Rightarrow> Some s | _ \<Rightarrow> None) ms"

lemma ws_texts_append [simp]: "ws_texts (a @ b) = ws_texts a @ ws_texts b"
  by (simp add: ws_texts_def List.map_filter_def)

lemma ws_texts_simps [simp]: "ws_texts [] = []" "ws_texts [WsText s] = [s]" "ws_texts [WsClose] = []"
  by (simp_all add: ws_texts_def List.map_filter_simps)

interpretation ndjson: wire_sender "ndjson_send to_string" ndjson_close nd_out
    "\<lambda>t. nd_writer t \<noteq> None" nd_max_message_bytes to_string
  for to_string :: "'m \<Rightarrow> str option"
  by unfold_locales
    (auto simp: ndjson_send_def ndjson_close_def split: option.splits if_splits prod.splits bool.splits)

interpretation websocket: wire_sender "websocket_send to_string" websocket_close
    "\<lambda>t. ws_texts (wst_out t)" "\<lambda>t. wst_writer t \<noteq> None" wst_max_message_bytes to_string
  for to_string :: "'m \<Rightarrow> str option"
  by unfold_locales
    (auto simp: websocket_send_def websocket_close_def
      split: option.splits if_splits prod.splits bool.splits)

text \<open>A run of operations on a transport, \<open>None\<close> standing for \<open>close\<close>.\<close>

definition ndjson_run :: "('m \<Rightarrow> str option) \<Rightarrow> ndjson_transport \<Rightarrow> 'm option list \<Rightarrow> ndjson_transport" where
  "ndjson_run to_string t ops = foldl (\<lambda>t op. case op of
     Some m \<Rightarrow> fst (ndjson_send to_string t m) | None \<Rightarrow> fst (ndjson_close t)) t ops"

definition websocket_run ::
  "('m \<Rightarrow> str option) \<Rightarrow> websocket_transport \<Rightarrow> 'm option list \<Rightarrow> websocket_transport" where
  "websocket_run to_string t ops = foldl (\<lambda>t op. case op of
     Some m \<Rightarrow> fst (websocket_send to_string t m) | None \<Rightarrow> fst (websocket_close t)) t ops"

lemma ndjson_run_step: "ndjson_run to_string t ops = foldl (ndjson.step to_string) t ops"
  by (simp add: ndjson_run_def ndjson.step_def [abs_def])

lemma websocket_run_step: "websocket_run to_string t ops = foldl (websocket.step to_string) t ops"
  by (simp add: websocket_run_def websocket.step_def [abs_def])

lemma option_list_bound: "set ops \<subseteq> insert None (Some ` set (List.map_filter (\<lambda>op. op) ops))"
proof
  fix x assume "x \<in> set ops"
  moreover have "set (List.map_filter (\<lambda>op. op) ops) = {y. Some y \<in> set ops}"
    by (simp only: set_map_filter) auto
  ultimately show "x \<in> insert None (Some ` set (List.map_filter (\<lambda>op. op) ops))"
    by (metis insert_iff image_eqI mem_Collect_eq option.exhaust)
qed

text \<open>
  C26. Whatever is sent and closed in whatever order on a new transport, every frame that
  leaves is the encoding of a message that was sent and at most the configured size, and
  once the transport was closed no further message leaves.
\<close>

theorem wire_output_is_bounded:
  "list_all (\<lambda>e. length e \<le> cap \<and> Some e \<in> set (map to_string (List.map_filter (\<lambda>op. op) ops)))
     (nd_out (ndjson_run to_string (ndjson_new codec r w cap) ops)) \<and>
   list_all (\<lambda>e. length e \<le> cap \<and> Some e \<in> set (map to_string (List.map_filter (\<lambda>op. op) ops)))
     (ws_texts (wst_out (websocket_run to_string (websocket_new r' w' cap) ops))) \<and>
   nd_out (ndjson_run to_string (ndjson_new codec r w cap) (us @ None # vs)) =
     nd_out (ndjson_run to_string (ndjson_new codec r w cap) us) \<and>
   ws_texts (wst_out (websocket_run to_string (websocket_new r' w' cap) (us @ None # vs))) =
     ws_texts (wst_out (websocket_run to_string (websocket_new r' w' cap) us))"
proof (intro conjI)
  let ?ms = "List.map_filter (\<lambda>op. op) ops"
  let ?n = "ndjson_new codec r w cap" and ?w = "websocket_new r' w' cap"
  have img: "(\<exists>m \<in> set ?ms. to_string m = Some e) \<longleftrightarrow> Some e \<in> set (map to_string ?ms)" for e
    by force
  have "ndjson.wf to_string ?ms (foldl (ndjson.step to_string) ?n ops)"
    by (rule ndjson.run_wf) (simp add: ndjson_new_def, rule option_list_bound)
  then show "list_all (\<lambda>e. length e \<le> cap \<and> Some e \<in> set (map to_string ?ms))
     (nd_out (ndjson_run to_string ?n ops))"
    using ndjson.run_cap [of to_string ?n ops] img
    by (simp add: ndjson.wf_def ndjson_run_step) (simp add: ndjson_new_def)
  have "websocket.wf to_string ?ms (foldl (websocket.step to_string) ?w ops)"
    by (rule websocket.run_wf) (simp add: websocket_new_def, rule option_list_bound)
  then show "list_all (\<lambda>e. length e \<le> cap \<and> Some e \<in> set (map to_string ?ms))
     (ws_texts (wst_out (websocket_run to_string ?w ops)))"
    using websocket.run_cap [of to_string ?w ops] img
    by (simp add: websocket.wf_def websocket_run_step) (simp add: websocket_new_def)
qed (simp_all only: ndjson_run_step websocket_run_step ndjson.nothing_after_close
    websocket.nothing_after_close)

section \<open>A codec\<close>

text \<open>
  A codec for readers that are lists of lines: each line within the length, and an error in the
  place of a longer one.
\<close>

definition line_list_codec :: "str list lines_codec" where
  "line_list_codec n lines = map (\<lambda>line. if length line \<le> n then LineOk line else LineErr) lines"

lemma line_list_codec_documented [simp]: "documented_lines line_list_codec"
  by (auto simp: documented_lines_def line_list_codec_def split: if_splits)

end
