(* ===== verification/Wire_Sessions.thy ===== *)
theory Wire_Sessions
  imports Wire
begin

text \<open>
  A service on its transport: receives, sends and closes in any order, as the protocol library
  interleaves them. The two halves of a transport do not disturb each other: what is received is
  a function of what the peer sent alone, in order and without gaps, and what leaves is a
  function of what was sent and closed alone.
\<close>

section \<open>Two halves\<close>

datatype 'm wire_op = OpReceive | OpSend 'm | OpClose

text \<open>
  The reading half is what is still to be answered to \<open>receive\<close>, the writing half whatever
  decides the output.
\<close>

locale wire_transport =
  fixes receive :: "'t \<Rightarrow> 't \<times> 'c option"
    and send :: "'t \<Rightarrow> 'm \<Rightarrow> 't \<times> (wire_error + unit)"
    and close :: "'t \<Rightarrow> 't \<times> (wire_error + unit)"
    and pending :: "'t \<Rightarrow> 'c option list"
    and outbox :: "'t \<Rightarrow> 'o"
  assumes receive_some: "pending t = a # rest \<Longrightarrow> snd (receive t) = a \<and> pending (fst (receive t)) = rest"
    and receive_none: "pending t = [] \<Longrightarrow> snd (receive t) = None \<and> pending (fst (receive t)) = []"
    and receive_outbox: "outbox (fst (receive t)) = outbox t"
    and send_pending: "pending (fst (send t m)) = pending t"
    and close_pending: "pending (fst (close t)) = pending t"
    and send_outbox: "outbox t = outbox u \<Longrightarrow> outbox (fst (send t m)) = outbox (fst (send u m))"
    and close_outbox: "outbox t = outbox u \<Longrightarrow> outbox (fst (close t)) = outbox (fst (close u))"
begin

definition act :: "'t \<Rightarrow> 'm wire_op \<Rightarrow> 't" where
  "act t op = (case op of OpReceive \<Rightarrow> fst (receive t) | OpSend m \<Rightarrow> fst (send t m) | OpClose \<Rightarrow> fst (close t))"

lemma act_simps [simp]:
  "act t OpReceive = fst (receive t)" "act t (OpSend m) = fst (send t m)" "act t OpClose = fst (close t)"
  by (simp_all add: act_def)

primrec answers :: "'m wire_op list \<Rightarrow> 't \<Rightarrow> 'c option list" where
  "answers [] t = []"
| "answers (op # ops) t = (case op of OpReceive \<Rightarrow> [snd (receive t)] | _ \<Rightarrow> []) @ answers ops (act t op)"

lemma answers_exhausted: "pending t = [] \<Longrightarrow> answers ops t = replicate (count_list ops OpReceive) None"
proof (induction ops arbitrary: t)
  case (Cons op ops)
  then show ?case by (cases op) (auto simp: receive_none send_pending close_pending)
qed simp

lemma answers_pending:
  "answers ops t = take (count_list ops OpReceive) (pending t @ replicate (count_list ops OpReceive) None)"
proof (induction ops arbitrary: t)
  case (Cons op ops)
  show ?case
  proof (cases op)
    case OpReceive
    show ?thesis
    proof (cases "pending t")
      case Nil
      then show ?thesis using answers_exhausted [of t "op # ops"] OpReceive by simp
    next
      case (Cons a rest)
      have "take n (rest @ replicate (Suc n) None) = take n (rest @ replicate n (None :: 'c option))" for n
        by (cases "n \<le> length rest") (simp_all add: replicate_append_same [symmetric] del: replicate_Suc)
      with Cons.IH [of "act t op"] receive_some [OF Cons] OpReceive Cons show ?thesis
        by (simp add: replicate_append_same del: replicate_Suc)
    qed
  qed (use Cons.IH [of "act t op"] in \<open>simp_all add: send_pending close_pending\<close>)
qed simp

lemma outbox_ignores_receives:
  "outbox t = outbox u \<Longrightarrow> outbox (foldl act t ops) = outbox (foldl act u (filter (\<lambda>op. op \<noteq> OpReceive) ops))"
proof (induction ops arbitrary: t u)
  case (Cons op ops)
  show ?case
  proof (cases op)
    case OpReceive
    with Cons.IH [of "act t op" u] Cons.prems show ?thesis by (simp add: receive_outbox)
  next
    case (OpSend m)
    with Cons.IH [OF send_outbox [OF Cons.prems]] show ?thesis by simp
  next
    case OpClose
    with Cons.IH [OF close_outbox [OF Cons.prems]] show ?thesis by simp
  qed
qed simp

end

section \<open>The two transports\<close>

text \<open>What a line and what a WebSocket message is answered with; pings and pongs never are.\<close>

definition line_answer :: "(str \<Rightarrow> 'c option) \<Rightarrow> line_event \<Rightarrow> 'c option" where
  "line_answer from_str ev = (case ev of LineOk frame \<Rightarrow> from_str frame | LineErr \<Rightarrow> None)"

definition ws_answered :: "ws_event \<Rightarrow> bool" where
  "ws_answered ev = (case ev of WsOk (WsPing _) \<Rightarrow> False | WsOk (WsPong _) \<Rightarrow> False | _ \<Rightarrow> True)"

definition ws_answer :: "(str \<Rightarrow> 'c option) \<Rightarrow> nat \<Rightarrow> ws_event \<Rightarrow> 'c option" where
  "ws_answer from_str cap ev =
     (case ev of WsOk (WsText frame) \<Rightarrow> if length frame \<le> cap then from_str frame else None | _ \<Rightarrow> None)"

lemma ws_answered_simps [simp]:
  "ws_answered WsErr" "ws_answered (WsOk WsClose)" "ws_answered (WsOk (WsText s))" "ws_answered (WsOk (WsBinary s))"
  "\<not> ws_answered (WsOk (WsPing s))" "\<not> ws_answered (WsOk (WsPong s))"
  by (simp_all add: ws_answered_def)

lemma ws_answer_simps [simp]:
  "ws_answer f n WsErr = None" "ws_answer f n (WsOk WsClose) = None" "ws_answer f n (WsOk (WsBinary s)) = None"
  "ws_answer f n (WsOk (WsText s)) = (if length s \<le> n then f s else None)"
  by (simp_all add: ws_answer_def)

lemma websocket_next_answers:
  "map (ws_answer f n) (filter ws_answered events) =
     (case filter ws_answered events of [] \<Rightarrow> []
      | _ \<Rightarrow> snd (websocket_next f n events) #
          map (ws_answer f n) (filter ws_answered (fst (websocket_next f n events))))"
  by (induction f n events rule: websocket_next.induct)
    (auto split: list.splits)

lemma websocket_next_none:
  "filter ws_answered events = [] \<Longrightarrow> websocket_next f n events = ([], None)"
  by (induction f n events rule: websocket_next.induct) auto

interpretation ndjson_wire: wire_transport
    "ndjson_receive from_str" "ndjson_send to_string" ndjson_close
    "\<lambda>t. map (line_answer from_str) (nd_reader t)" "\<lambda>t. (nd_writer t, nd_max_message_bytes t, nd_out t)"
  for from_str :: "str \<Rightarrow> 'c option" and to_string :: "'m \<Rightarrow> str option"
  by unfold_locales
    (auto simp: ndjson_receive_def ndjson_send_def ndjson_close_def line_answer_def
      split: list.splits line_event.splits option.splits prod.splits bool.splits)

interpretation websocket_wire: wire_transport
    "websocket_receive from_str" "websocket_send to_string" websocket_close
    "\<lambda>t. map (ws_answer from_str (wst_max_message_bytes t)) (filter ws_answered (wst_reader t))"
    "\<lambda>t. (wst_writer t, wst_max_message_bytes t, wst_out t)"
  for from_str :: "str \<Rightarrow> 'c option" and to_string :: "'m \<Rightarrow> str option"
proof unfold_locales
  fix t :: websocket_transport and a :: "'c option" and rest
  assume "map (ws_answer from_str (wst_max_message_bytes t)) (filter ws_answered (wst_reader t)) = a # rest"
  then show "snd (websocket_receive from_str t) = a \<and>
      map (ws_answer from_str (wst_max_message_bytes (fst (websocket_receive from_str t))))
        (filter ws_answered (wst_reader (fst (websocket_receive from_str t)))) = rest"
    using websocket_next_answers [of from_str "wst_max_message_bytes t" "wst_reader t"]
    by (auto simp: websocket_receive_def split_beta split: list.splits)
next
  fix t :: websocket_transport
  assume "map (ws_answer from_str (wst_max_message_bytes t)) (filter ws_answered (wst_reader t)) = []"
  then show "snd (websocket_receive from_str t) = None \<and>
      map (ws_answer from_str (wst_max_message_bytes (fst (websocket_receive from_str t))))
        (filter ws_answered (wst_reader (fst (websocket_receive from_str t)))) = []"
    by (simp add: websocket_receive_def websocket_next_none)
qed (auto simp: websocket_receive_def websocket_send_def websocket_close_def split_beta
    split: option.splits prod.splits bool.splits)

section \<open>Sessions\<close>

fun ndjson_session ::
  "(str \<Rightarrow> 'c option) \<Rightarrow> ('m \<Rightarrow> str option) \<Rightarrow> ndjson_transport \<Rightarrow> 'm wire_op list \<Rightarrow>
     ndjson_transport \<times> 'c option list" where
  "ndjson_session from_str to_string t [] = (t, [])"
| "ndjson_session from_str to_string t (OpReceive # ops) =
     (case ndjson_receive from_str t of (u, a) \<Rightarrow>
      case ndjson_session from_str to_string u ops of (v, as) \<Rightarrow> (v, a # as))"
| "ndjson_session from_str to_string t (OpSend m # ops) =
     ndjson_session from_str to_string (fst (ndjson_send to_string t m)) ops"
| "ndjson_session from_str to_string t (OpClose # ops) =
     ndjson_session from_str to_string (fst (ndjson_close t)) ops"

fun websocket_wire_session ::
  "(str \<Rightarrow> 'c option) \<Rightarrow> ('m \<Rightarrow> str option) \<Rightarrow> websocket_transport \<Rightarrow> 'm wire_op list \<Rightarrow>
     websocket_transport \<times> 'c option list" where
  "websocket_wire_session from_str to_string t [] = (t, [])"
| "websocket_wire_session from_str to_string t (OpReceive # ops) =
     (case websocket_receive from_str t of (u, a) \<Rightarrow>
      case websocket_wire_session from_str to_string u ops of (v, as) \<Rightarrow> (v, a # as))"
| "websocket_wire_session from_str to_string t (OpSend m # ops) =
     websocket_wire_session from_str to_string (fst (websocket_send to_string t m)) ops"
| "websocket_wire_session from_str to_string t (OpClose # ops) =
     websocket_wire_session from_str to_string (fst (websocket_close t)) ops"

abbreviation ndjson_act where
  "ndjson_act from_str to_string \<equiv>
     wire_transport.act (ndjson_receive from_str) (ndjson_send to_string) ndjson_close"

abbreviation websocket_act where
  "websocket_act from_str to_string \<equiv>
     wire_transport.act (websocket_receive from_str) (websocket_send to_string) websocket_close"

lemma ndjson_session_eq:
  "ndjson_session from_str to_string t ops =
     (foldl (ndjson_act from_str to_string) t ops, ndjson_wire.answers from_str to_string ops t)"
proof (induction ops arbitrary: t)
  case (Cons op ops)
  then show ?case by (cases op) (simp_all add: split_beta)
qed simp

lemma websocket_wire_session_eq:
  "websocket_wire_session from_str to_string t ops =
     (foldl (websocket_act from_str to_string) t ops, websocket_wire.answers from_str to_string ops t)"
proof (induction ops arbitrary: t)
  case (Cons op ops)
  then show ?case by (cases op) (simp_all add: split_beta)
qed simp

text \<open>The writing half alone, as a run of \<open>Wire\<close>.\<close>

definition writes :: "'m wire_op list \<Rightarrow> 'm option list" where
  "writes ops = List.map_filter (\<lambda>op. case op of OpReceive \<Rightarrow> None | OpSend m \<Rightarrow> Some (Some m) | OpClose \<Rightarrow> Some None) ops"

lemma writes_run:
  "foldl (ndjson_act from_str to_string) t (filter (\<lambda>op. op \<noteq> OpReceive) ops) =
     ndjson_run to_string t (writes ops)"
  "foldl (websocket_act from_str to_string) u (filter (\<lambda>op. op \<noteq> OpReceive) ops) =
     websocket_run to_string u (writes ops)"
proof (induction ops arbitrary: t u)
  case (Cons op ops)
  {
    case 1
    show ?case using Cons(1) by (cases op) (simp_all add: writes_def ndjson_run_def List.map_filter_simps)
  next
    case 2
    show ?case using Cons(2) by (cases op) (simp_all add: writes_def websocket_run_def List.map_filter_simps)
  }
qed (simp_all add: writes_def ndjson_run_def websocket_run_def List.map_filter_simps)

text \<open>
  What a line is answered with under a bound: only a line within the bound is parsed. For what
  a documented codec yields this is what the receive does, which itself tests no length.
\<close>

definition bounded_line_answer :: "(str \<Rightarrow> 'c option) \<Rightarrow> nat \<Rightarrow> line_event \<Rightarrow> 'c option" where
  "bounded_line_answer from_str cap ev =
     (case ev of LineOk frame \<Rightarrow> if length frame \<le> cap then from_str frame else None | LineErr \<Rightarrow> None)"

lemma bounded_line_answers:
  "documented_lines codec \<Longrightarrow>
     map (line_answer from_str) (codec cap r) = map (bounded_line_answer from_str cap) (codec cap r)"
  by (auto simp: documented_lines_def line_answer_def bounded_line_answer_def split: line_event.splits)

text \<open>
  C25. A session on either transport receives exactly what the peer sent, and sends as if it never
  received. However receives, sends and closes are interleaved, the answers to its receives are
  the peer's frames in order, none skipped or repeated, followed by the end of input. A frame is
  parsed only within the configured bound, a line because the transport gives its bound to the
  line codec, whose documented limit is the hypothesis, and a WebSocket text by the transport's
  own test; a longer one and every error is answered with nothing, as is a binary frame or a
  close, and pings and pongs are passed over. The frames that leave are those of the sends and
  closes alone.
\<close>

theorem sessions_exchange_frames_in_order:
  "documented_lines codec \<Longrightarrow>
   ndjson_session from_str to_string (ndjson_new codec r w cap) ops = (t, as) \<Longrightarrow>
   websocket_wire_session from_str to_string (websocket_new r' w' cap) ops = (u, bs) \<Longrightarrow>
     as = take (count_list ops OpReceive)
       (map (bounded_line_answer from_str cap) (codec cap r) @ replicate (count_list ops OpReceive) None) \<and>
     bs = take (count_list ops OpReceive)
       (map (ws_answer from_str cap) (filter ws_answered r') @ replicate (count_list ops OpReceive) None) \<and>
     nd_out t = nd_out (ndjson_run to_string (ndjson_new codec r w cap) (writes ops)) \<and>
     wst_out u = wst_out (websocket_run to_string (websocket_new r' w' cap) (writes ops))"
proof -
  assume codec: "documented_lines codec"
  assume "ndjson_session from_str to_string (ndjson_new codec r w cap) ops = (t, as)"
    "websocket_wire_session from_str to_string (websocket_new r' w' cap) ops = (u, bs)"
  then have t: "t = foldl (ndjson_act from_str to_string) (ndjson_new codec r w cap) ops"
      "as = ndjson_wire.answers from_str to_string ops (ndjson_new codec r w cap)"
    and u: "u = foldl (websocket_act from_str to_string) (websocket_new r' w' cap) ops"
      "bs = websocket_wire.answers from_str to_string ops (websocket_new r' w' cap)"
    by (simp_all add: ndjson_session_eq websocket_wire_session_eq)
  note out = ndjson_wire.outbox_ignores_receives [where t = "ndjson_new codec r w cap"
      and u = "ndjson_new codec r w cap"
      and from_str = from_str and to_string = to_string and ops = ops, OF HOL.refl]
    websocket_wire.outbox_ignores_receives [where t = "websocket_new r' w' cap" and u = "websocket_new r' w' cap"
      and from_str = from_str and to_string = to_string and ops = ops, OF HOL.refl]
  have "map (line_answer from_str) (nd_reader (ndjson_new codec r w cap)) =
      map (bounded_line_answer from_str cap) (codec cap r)"
    using bounded_line_answers [OF codec] by (simp add: ndjson_new_def)
  moreover have "wst_reader (websocket_new r' w' cap) = r'"
    "wst_max_message_bytes (websocket_new r' w' cap) = cap"
    by (simp_all add: websocket_new_def)
  ultimately show ?thesis
    using ndjson_wire.answers_pending [of from_str to_string ops "ndjson_new codec r w cap"]
      websocket_wire.answers_pending [of from_str to_string ops "websocket_new r' w' cap"] out
    by (simp add: t u writes_run)
qed

text \<open>On both transports the text of five bytes is refused under a bound of four.\<close>

theorem sessions_exchange_frames_in_order_witness:
  "let ops = [OpReceive, OpSend ''ok'', OpReceive, OpClose, OpReceive]
   in snd (ndjson_session Some Some (ndjson_new line_list_codec [''a'', ''abcde''] [] 4) ops) =
        [Some ''a'', None, None] \<and>
      snd (websocket_wire_session Some Some
        (websocket_new [WsOk (WsText ''a''), WsOk (WsPing []), WsOk (WsText ''abcde'')] [] 4) ops) =
          [Some ''a'', None, None]"
proof -
  let ?ops = "[OpReceive, OpSend ''ok'', OpReceive, OpClose, OpReceive]"
  let ?n = "ndjson_new line_list_codec [''a'', ''abcde''] [] 4"
  let ?w = "websocket_new [WsOk (WsText ''a''), WsOk (WsPing []), WsOk (WsText ''abcde'')] [] 4"
  obtain t as u bs where s: "ndjson_session Some Some ?n ?ops = (t, as)"
      "websocket_wire_session Some Some ?w ?ops = (u, bs)"
    by (cases "ndjson_session Some Some ?n ?ops"; cases "websocket_wire_session Some Some ?w ?ops") auto
  from sessions_exchange_frames_in_order [OF line_list_codec_documented s]
  have "as = [Some ''a'', None, None] \<and> bs = [Some ''a'', None, None]"
    by (simp add: bounded_line_answer_def line_list_codec_def numeral_3_eq_3)
  with s show ?thesis by (simp add: Let_def)
qed

end
