(* ===== verification/Runners.thy ===== *)
theory Runners
  imports Lifecycle_Laws Wire
begin

text \<open>
  The transport runners of \<open>src/transport.rs\<close>, over the lifecycle controller.

  A runner shares its controller with other clones (connection tasks, the application). Its
  view is a \<open>world\<close>: the controller, and for each of its own lock acquisitions in turn the
  events that other clones apply just before it. What the network, the MCP service and the
  scheduler decide are arguments: the result of binding and of the factory, how serving
  ends, the order in which the accept loop's branches become ready. Log events are not
  modelled.
\<close>

section \<open>The shared lifecycle\<close>

record world =
  w_ctl :: controller
  w_batches :: "lifecycle_event list list"

definition settle :: "world \<Rightarrow> world" where
  "settle w =
     (case w_batches w of
        [] \<Rightarrow> w
      | b # bs \<Rightarrow> w\<lparr>w_ctl := controller_run (w_ctl w) b, w_batches := bs\<rparr>)"

definition world_transition ::
  "lifecycle_event \<Rightarrow> world \<Rightarrow> world \<times> (transition_error + lifecycle_snapshot)" where
  "world_transition ev w =
     (let v = settle w; (c, r) = controller_transition ev (w_ctl v) in (v\<lparr>w_ctl := c\<rparr>, r))"

definition world_snapshot :: "world \<Rightarrow> world \<times> (transition_error + lifecycle_snapshot)" where
  "world_snapshot w = (let v = settle w in (v, controller_snapshot (w_ctl v)))"

type_synonym 'a act = "world \<times> (io_error + 'a)"

text \<open>\<open>?\<close> on a result, and running what follows in the world it left.\<close>

definition step_then :: "'a act \<Rightarrow> ('a \<Rightarrow> world \<Rightarrow> 'b act) \<Rightarrow> 'b act" where
  "step_then m f = (case m of (w, Inl e) \<Rightarrow> (w, Inl e) | (w, Inr a) \<Rightarrow> f a w)"

definition lifecycle_error :: "str \<Rightarrow> io_error" where
  "lifecycle_error message = IoError OtherKind message"

definition lifecycle_transition :: "lifecycle_event \<Rightarrow> world \<Rightarrow> unit act" where
  "lifecycle_transition ev w =
     (case world_transition ev w of
        (v, r) \<Rightarrow>
          (v, map_err (\<lambda>_. lifecycle_error ''invalid transport lifecycle transition'')
                (and_then r (\<lambda>_. Inr ()))))"

definition in_state :: "lifecycle_state \<Rightarrow> transition_error + lifecycle_snapshot \<Rightarrow> bool" where
  "in_state st r = (case r of Inl _ \<Rightarrow> False | Inr s \<Rightarrow> snap_state s = st)"

definition mark_degraded :: "world \<Rightarrow> world" where
  "mark_degraded w =
     (case world_snapshot w of
        (v, r) \<Rightarrow> if in_state Ready r then fst (world_transition Degrade v) else v)"

definition mark_recovered :: "world \<Rightarrow> world" where
  "mark_recovered w =
     (case world_snapshot w of
        (v, r) \<Rightarrow> if in_state Degraded r then fst (world_transition Recover v) else v)"

definition finish_lifecycle :: "world \<Rightarrow> unit act" where
  "finish_lifecycle w =
     (case world_snapshot w of
        (v, Inl _) \<Rightarrow> (v, Inl (lifecycle_error ''transport lifecycle is unavailable''))
      | (v, Inr snap) \<Rightarrow>
          (case snap_state snap of
             Created \<Rightarrow> lifecycle_transition Stop v
           | Draining \<Rightarrow> lifecycle_transition Stop v
           | Starting \<Rightarrow> step_then (lifecycle_transition Drain v) (\<lambda>_. lifecycle_transition Stop)
           | Ready \<Rightarrow> step_then (lifecycle_transition Drain v) (\<lambda>_. lifecycle_transition Stop)
           | Degraded \<Rightarrow> step_then (lifecycle_transition Drain v) (\<lambda>_. lifecycle_transition Stop)
           | Stopped \<Rightarrow> (v, Inr ())))"

text \<open>The early exits: \<open>finish_lifecycle(&lifecycle)?; return Err(error)\<close>.\<close>

definition finish_with :: "io_error + unit \<Rightarrow> world \<Rightarrow> unit act" where
  "finish_with result w = step_then (finish_lifecycle w) (\<lambda>_ v. (v, result))"

section \<open>Stdio\<close>

text \<open>How \<open>serve_with_ct\<close> and then \<open>waiting\<close> end.\<close>

datatype serve_outcome = InitializationFailed | TaskFailed | TaskFinished

definition stdio_transport :: "'r lines_codec \<Rightarrow> 'r \<Rightarrow> bool list \<Rightarrow> ndjson_transport" where
  "stdio_transport codec stdin stdout = ndjson_new codec stdin stdout MAX_MESSAGE_BYTES"

definition stdio_result :: "serve_outcome \<Rightarrow> io_error + unit" where
  "stdio_result outcome =
     (case outcome of
        TaskFinished \<Rightarrow> Inr ()
      | TaskFailed \<Rightarrow> Inl (IoError OtherKind ''MCP stdio service task failed'')
      | InitializationFailed \<Rightarrow> Inl (IoError OtherKind ''MCP stdio initialization failed''))"

definition run_stdio :: "io_error + unit \<Rightarrow> serve_outcome \<Rightarrow> world \<Rightarrow> unit act" where
  "run_stdio factory serve w0 =
     step_then (lifecycle_transition Start w0) (\<lambda>_ w1.
       case factory of
         Inl error \<Rightarrow> finish_with (Inl error) w1
       | Inr _ \<Rightarrow>
           step_then (lifecycle_transition Started w1) (\<lambda>_ w2.
             let result = stdio_result serve;
                 w3 = (if is_ok result then w2 else mark_degraded w2)
             in finish_with result w3))"

section \<open>Streamable HTTP\<close>

record rmcp_http_config =
  rmcp_legacy_session_mode :: bool
  rmcp_json_response :: bool
  rmcp_allowed_hosts :: "str list"
  rmcp_allowed_origins :: "str list"
  rmcp_max_request_body_bytes :: nat
  rmcp_stateless_metadata_required :: bool

record http_router =
  hr_path :: str
  hr_policy :: header_policy
  hr_service :: rmcp_http_config

definition build_http_router :: "http_types \<Rightarrow> http_transport_config \<Rightarrow> io_error + http_router" where
  "build_http_router ht config =
     and_then (header_policy_new ht (hc_allowed_hosts config) (hc_allowed_origins config) False) (\<lambda>policy.
       Inr \<lparr>hr_path = STREAMABLE_HTTP_PATH, hr_policy = policy,
            hr_service = \<lparr>rmcp_legacy_session_mode = False, rmcp_json_response = True,
              rmcp_allowed_hosts = hc_allowed_hosts config,
              rmcp_allowed_origins = hc_allowed_origins config,
              rmcp_max_request_body_bytes = hc_max_body_bytes config,
              rmcp_stateless_metadata_required = True\<rparr>\<rparr>)"

text \<open>The closure that makes a service for each request.\<close>

definition http_session_factory :: "io_error + unit \<Rightarrow> world \<Rightarrow> world" where
  "http_session_factory result w = (if is_ok result then mark_recovered w else mark_degraded w)"

text \<open>The \<open>select!\<close>: serving ends by itself, or cancellation is seen first and serving then
  ends within the grace period or not.\<close>

datatype drain_outcome = DrainFinished "io_error + unit" | GraceElapsed

datatype serving_outcome = ServingEnded "io_error + unit" | CancelledFirst drain_outcome

definition serving_phase :: "str \<Rightarrow> serving_outcome \<Rightarrow> world \<Rightarrow> unit act" where
  "serving_phase timeout_message serving w =
     (let (w1, result, cancelled) =
            (case serving of
               ServingEnded r \<Rightarrow> (w, r, False)
             | CancelledFirst d \<Rightarrow>
                 (case lifecycle_transition Drain w of
                    (v, Inr _) \<Rightarrow>
                      (v, (case d of DrainFinished r \<Rightarrow> r
                                   | GraceElapsed \<Rightarrow> Inl (IoError TimedOut timeout_message)), True)
                  | (v, Inl error) \<Rightarrow> (v, Inl error, True)));
          w2 = (if \<not> is_ok result \<and> \<not> cancelled then mark_degraded w1 else w1)
      in finish_with result w2)"

definition run_streamable_http ::
  "http_types \<Rightarrow> http_transport_config \<Rightarrow> io_error + unit \<Rightarrow> serving_outcome \<Rightarrow> world \<Rightarrow> unit act" where
  "run_streamable_http ht config bound serving w0 =
     (case http_validate ht config of
        Inl error \<Rightarrow> (w0, Inl error)
      | Inr _ \<Rightarrow>
          step_then (lifecycle_transition Start w0) (\<lambda>_ w1.
            case bound of
              Inl error \<Rightarrow> finish_with (Inl error) w1
            | Inr _ \<Rightarrow>
                (case build_http_router ht config of
                   Inl error \<Rightarrow> finish_with (Inl error) w1
                 | Inr app \<Rightarrow>
                     step_then (lifecycle_transition Started w1) (\<lambda>_ w2.
                       serving_phase ''HTTP transport shutdown timed out'' serving w2))))"

definition warn_remote :: "socket_addr \<Rightarrow> bool \<Rightarrow> bool" where
  "warn_remote bind allow_remote \<longleftrightarrow> allow_remote \<and> \<not> is_loopback (addr_ip bind)"

section \<open>TCP\<close>

definition serve_tcp_connection :: "io_error + unit \<Rightarrow> serve_outcome \<Rightarrow> world \<Rightarrow> world" where
  "serve_tcp_connection factory serve w =
     (case factory of
        Inl _ \<Rightarrow> mark_degraded w
      | Inr _ \<Rightarrow>
          let w1 = mark_recovered w
          in case serve of
               InitializationFailed \<Rightarrow> w1
             | TaskFailed \<Rightarrow> mark_degraded w1
             | TaskFinished \<Rightarrow> w1)"

text \<open>
  The semaphore is tokio's, a parameter. Connections are numbered by the environment. An
  ended task has given its permit back and waits to be joined; the flag says whether it
  panicked.
\<close>

record 's semaphore_lib =
  sem_new :: "nat \<Rightarrow> 's"
  sem_try_acquire :: "'s \<Rightarrow> 's option"
  sem_release :: "'s \<Rightarrow> 's"

record 's accept_state =
  as_permits :: 's
  as_running :: "nat list"
  as_ended :: "bool list"
  as_world :: world
  as_live_error :: "io_error option"

datatype accept_event =
    CancellationSeen
  | TaskEnded nat bool
  | JoinReady
  | Accepted nat
  | AcceptFailed io_error

text \<open>One round of the loop; \<open>True\<close> when it breaks.\<close>

fun accept_step ::
  "'s semaphore_lib \<Rightarrow> 's accept_state \<Rightarrow> accept_event \<Rightarrow> 's accept_state \<times> bool" where
  "accept_step lib s CancellationSeen = (s, True)"
| "accept_step lib s (TaskEnded i panicked) =
     (if i \<in> set (as_running s)
      then (s\<lparr>as_running := remove1 i (as_running s), as_ended := as_ended s @ [panicked],
              as_permits := sem_release lib (as_permits s)\<rparr>, False)
      else (s, False))"
| "accept_step lib s JoinReady =
     (case as_ended s of
        [] \<Rightarrow> (s, False)
      | panicked # rest \<Rightarrow>
          (s\<lparr>as_ended := rest,
             as_world := (if panicked then mark_degraded (as_world s) else as_world s)\<rparr>, False))"
| "accept_step lib s (Accepted i) =
     (case sem_try_acquire lib (as_permits s) of
        None \<Rightarrow> (s, False)
      | Some permits \<Rightarrow> (s\<lparr>as_permits := permits, as_running := as_running s @ [i]\<rparr>, False))"
| "accept_step lib s (AcceptFailed error) =
     (s\<lparr>as_world := mark_degraded (as_world s), as_live_error := Some error\<rparr>, True)"

text \<open>\<open>None\<close>: the loop is still running where the events end.\<close>

fun accept_loop ::
  "'s semaphore_lib \<Rightarrow> 's accept_state \<Rightarrow> accept_event list \<Rightarrow> 's accept_state option" where
  "accept_loop lib s [] = None"
| "accept_loop lib s (ev # evs) =
     (case accept_step lib s ev of
        (s', True) \<Rightarrow> Some s'
      | (s', False) \<Rightarrow> accept_loop lib s' evs)"

datatype drain_event = TaskJoined | DeadlineFired

text \<open>The number of tasks aborted at the deadline; \<open>None\<close> while tasks remain and nothing fired.\<close>

fun drain_tasks :: "nat \<Rightarrow> drain_event list \<Rightarrow> nat option" where
  "drain_tasks 0 evs = Some 0"
| "drain_tasks (Suc n) [] = None"
| "drain_tasks (Suc n) (DeadlineFired # evs) = Some (Suc n)"
| "drain_tasks (Suc n) (TaskJoined # evs) = drain_tasks n evs"

definition accept_start :: "'s semaphore_lib \<Rightarrow> nat \<Rightarrow> world \<Rightarrow> 's accept_state" where
  "accept_start lib max_connections w =
     \<lparr>as_permits = sem_new lib max_connections, as_running = [], as_ended = [], as_world = w,
      as_live_error = None\<rparr>"

definition run_tcp_ndjson ::
  "'s semaphore_lib \<Rightarrow> tcp_transport_config \<Rightarrow> io_error + unit \<Rightarrow> accept_event list \<Rightarrow> drain_event list \<Rightarrow>
     world \<Rightarrow> unit act option" where
  "run_tcp_ndjson lib config bound events drains w0 =
     (case tcp_validate config of
        Inl error \<Rightarrow> Some (w0, Inl error)
      | Inr _ \<Rightarrow>
          (case lifecycle_transition Start w0 of
             (w1, Inl error) \<Rightarrow> Some (w1, Inl error)
           | (w1, Inr _) \<Rightarrow>
               (case bound of
                  Inl error \<Rightarrow> Some (finish_with (Inl error) w1)
                | Inr _ \<Rightarrow>
                    (case lifecycle_transition Started w1 of
                       (w2, Inl error) \<Rightarrow> Some (w2, Inl error)
                     | (w2, Inr _) \<Rightarrow>
                         Option.bind (accept_loop lib (accept_start lib (tcp_max_connections config) w2) events)
                           (\<lambda>s.
                             case lifecycle_transition Drain (as_world s) of
                               (w3, Inl error) \<Rightarrow> Some (w3, Inl error)
                             | (w3, Inr _) \<Rightarrow>
                                 Option.bind
                                   (drain_tasks (length (as_running s) + length (as_ended s)) drains) (\<lambda>_.
                                   Some (finish_with
                                     (case as_live_error s of None \<Rightarrow> Inr () | Some error \<Rightarrow> Inl error)
                                     w3)))))))"

section \<open>WebSocket\<close>

record 's websocket_state =
  wss_policy :: header_policy
  wss_max_message_bytes :: nat
  wss_permits :: 's
  wss_cancelled :: bool

datatype upgrade_response = UpgradeRefused nat str | Upgraded nat nat

text \<open>An upgrade carries the frame and message limits given to the WebSocket layer.\<close>

definition websocket_upgrade ::
  "http_types \<Rightarrow> 's semaphore_lib \<Rightarrow> 's websocket_state \<Rightarrow> header_map \<Rightarrow> 's websocket_state \<times> upgrade_response" where
  "websocket_upgrade ht lib state headers =
     (if wss_cancelled state then (state, UpgradeRefused 503 [])
      else case policy_validate ht (wss_policy state) headers of
             Inl denied \<Rightarrow>
               (state, UpgradeRefused (fst (rejection_response denied)) (snd (rejection_response denied)))
           | Inr _ \<Rightarrow>
               (case sem_try_acquire lib (wss_permits state) of
                  None \<Rightarrow> (state, UpgradeRefused 503 [])
                | Some permits \<Rightarrow>
                    (state\<lparr>wss_permits := permits\<rparr>,
                     Upgraded (wss_max_message_bytes state) (wss_max_message_bytes state))))"

text \<open>What the upgraded connection does; its permit is released when it ends.\<close>

definition websocket_session ::
  "'s semaphore_lib \<Rightarrow> io_error + unit \<Rightarrow> serve_outcome \<Rightarrow> 's websocket_state \<Rightarrow> world \<Rightarrow>
     's websocket_state \<times> world" where
  "websocket_session lib factory serve state w =
     (state\<lparr>wss_permits := sem_release lib (wss_permits state)\<rparr>,
      case factory of
        Inl _ \<Rightarrow> mark_degraded w
      | Inr _ \<Rightarrow>
          let w1 = mark_recovered w
          in case serve of
               InitializationFailed \<Rightarrow> w1
             | TaskFailed \<Rightarrow> mark_degraded w1
             | TaskFinished \<Rightarrow> w1)"

definition build_websocket_router ::
  "http_types \<Rightarrow> 's semaphore_lib \<Rightarrow> websocket_transport_config \<Rightarrow> bool \<Rightarrow> io_error + str \<times> 's websocket_state" where
  "build_websocket_router ht lib config cancelled =
     and_then (header_policy_new ht (ws_allowed_hosts config) (ws_allowed_origins config) True) (\<lambda>policy.
       Inr (WEBSOCKET_PATH,
            \<lparr>wss_policy = policy, wss_max_message_bytes = ws_max_message_bytes config,
             wss_permits = sem_new lib (ws_max_connections config), wss_cancelled = cancelled\<rparr>))"

definition run_websocket ::
  "http_types \<Rightarrow> 's semaphore_lib \<Rightarrow> websocket_transport_config \<Rightarrow> bool \<Rightarrow> io_error + unit \<Rightarrow> serving_outcome \<Rightarrow>
     world \<Rightarrow> unit act" where
  "run_websocket ht lib config cancelled bound serving w0 =
     (case websocket_validate ht config of
        Inl error \<Rightarrow> (w0, Inl error)
      | Inr _ \<Rightarrow>
          step_then (lifecycle_transition Start w0) (\<lambda>_ w1.
            case bound of
              Inl error \<Rightarrow> finish_with (Inl error) w1
            | Inr _ \<Rightarrow>
                (case build_websocket_router ht lib config cancelled of
                   Inl error \<Rightarrow> finish_with (Inl error) w1
                 | Inr app \<Rightarrow>
                     step_then (lifecycle_transition Started w1) (\<lambda>_ w2.
                       serving_phase ''WebSocket transport shutdown timed out'' serving w2))))"

end
