(* ===== verification/Runners_Laws.thy ===== *)
theory Runners_Laws
  imports Runners Transport_Config_Laws
begin

text \<open>
  What the runners guarantee about the shared lifecycle. Two kinds of statement: without any
  assumption on what other clones do, a runner that reports success leaves the lifecycle
  stopped; and when the other clones only report health (\<open>Degrade\<close> and \<open>Recover\<close>, all that
  the connection handlers of this program do), every runner ends stopped on every path and
  reports the cause it met.
\<close>

section \<open>Success means stopped\<close>

abbreviation world_state :: "world \<Rightarrow> lifecycle_state" where
  "world_state w \<equiv> state_of (w_ctl w)"

lemma step_then_Inr [simp]:
  "step_then m f = (w, Inr b) \<longleftrightarrow> (\<exists>v a. m = (v, Inr a) \<and> f a v = (w, Inr b))"
  by (auto simp: step_then_def split: prod.splits sum.splits)

lemma step_then_simps [simp]:
  "step_then (w, Inl e) f = (w, Inl e)" "step_then (w, Inr a) f = f a w"
  by (simp_all add: step_then_def)

lemma case_act_Inr:
  "(case m of (v, Inl e) \<Rightarrow> Some (v, Inl e) | (v, Inr a) \<Rightarrow> f v a) = Some (w, Inr u) \<longleftrightarrow>
     (\<exists>v a. m = (v, Inr a) \<and> f v a = Some (w, Inr u))"
  by (cases m; cases "snd m") auto

lemma controller_transition_Inr:
  "controller_transition ev c = (c', Inr snap) \<Longrightarrow> transition_target (state_of c) ev = Some (state_of c')"
  by (cases "accepts c ev")
    (auto simp: controller_transition_cases accepts_def record_for_def)

lemma lifecycle_transition_Inr:
  "lifecycle_transition ev w = (w', Inr u) \<Longrightarrow>
     transition_target (world_state (settle w)) ev = Some (world_state w')"
  by (auto simp: lifecycle_transition_def world_transition_def Let_def
      dest!: controller_transition_Inr split: prod.splits)

lemma lifecycle_stop_Inr: "lifecycle_transition Stop w = (w', Inr u) \<Longrightarrow> world_state w' = Stopped"
  by (auto dest: lifecycle_transition_Inr stop_target)

lemma finish_lifecycle_Inr: "finish_lifecycle w = (w', Inr u) \<Longrightarrow> world_state w' = Stopped"
  by (auto simp: finish_lifecycle_def world_snapshot_def Let_def controller_snapshot_def lock_data_def
      dest: lifecycle_stop_Inr split: prod.splits sum.splits lifecycle_state.splits if_splits)

lemma finish_with_Inr: "finish_with r w = (w', Inr u) \<Longrightarrow> world_state w' = Stopped"
  by (auto simp: finish_with_def dest: finish_lifecycle_Inr)

lemma serving_phase_Inr: "serving_phase m serving w = (w', Inr u) \<Longrightarrow> world_state w' = Stopped"
  by (auto simp: serving_phase_def Let_def dest: finish_with_Inr split: prod.splits)

text \<open>
  C12. Success means stopped: whatever other clones of the controller do before each of its
  steps, a runner that returns \<open>Ok\<close> leaves the lifecycle in the terminal state, on every
  transport and for every way serving may end.
\<close>

theorem runner_success_means_stopped:
  "(run_stdio factory serve w = (w1, Inr ()) \<longrightarrow> world_state w1 = Stopped) \<and>
   (run_streamable_http ht hc bound serving w = (w2, Inr ()) \<longrightarrow> world_state w2 = Stopped) \<and>
   (run_tcp_ndjson lib tc bound events drains w = Some (w3, Inr ()) \<longrightarrow> world_state w3 = Stopped) \<and>
   (run_websocket ht lib' wc cancelled bound serving w = (w4, Inr ()) \<longrightarrow> world_state w4 = Stopped)"
proof (intro conjI impI)
  show "run_stdio factory serve w = (w1, Inr ()) \<Longrightarrow> world_state w1 = Stopped"
    by (cases factory) (auto simp: run_stdio_def Let_def dest: finish_with_Inr)
  show "run_streamable_http ht hc bound serving w = (w2, Inr ()) \<Longrightarrow> world_state w2 = Stopped"
    by (cases bound; cases "build_http_router ht hc") (auto simp: run_streamable_http_def dest: finish_with_Inr serving_phase_Inr split: sum.splits)
  show "run_tcp_ndjson lib tc bound events drains w = Some (w3, Inr ()) \<Longrightarrow> world_state w3 = Stopped"
    by (cases bound)
      (auto simp: run_tcp_ndjson_def case_act_Inr bind_eq_Some_conv dest: finish_with_Inr
        split: sum.splits)
  show "run_websocket ht lib' wc cancelled bound serving w = (w4, Inr ()) \<Longrightarrow> world_state w4 = Stopped"
    by (cases bound; cases "build_websocket_router ht lib' wc cancelled") (auto simp: run_websocket_def dest: finish_with_Inr serving_phase_Inr split: sum.splits)
qed

section \<open>Calm worlds\<close>

text \<open>
  A world is calm for \<open>n\<close> when its lock is not poisoned, other clones only report health, and
  revisions suffice for their events and \<open>n\<close> more.
\<close>

definition mild :: "lifecycle_event list \<Rightarrow> bool" where
  "mild evs \<longleftrightarrow> set evs \<subseteq> {Degrade, Recover}"

definition calm :: "nat \<Rightarrow> world \<Rightarrow> bool" where
  "calm n w \<longleftrightarrow> \<not> ctl_poisoned (w_ctl w) \<and> list_all mild (w_batches w) \<and>
     revision_of (w_ctl w) + length (concat (w_batches w)) + n < 2 ^ 64"

definition kin :: "lifecycle_state \<Rightarrow> lifecycle_state \<Rightarrow> bool" where
  "kin s t \<longleftrightarrow> s = t \<or> s \<in> {Ready, Degraded} \<and> t \<in> {Ready, Degraded}"

lemma kin_simps [simp]:
  "kin Created t \<longleftrightarrow> t = Created" "kin Starting t \<longleftrightarrow> t = Starting" "kin Draining t \<longleftrightarrow> t = Draining"
  "kin Stopped t \<longleftrightarrow> t = Stopped" "kin Ready t \<longleftrightarrow> t = Ready \<or> t = Degraded"
  "kin Degraded t \<longleftrightarrow> t = Ready \<or> t = Degraded"
  by (auto simp: kin_def)

lemma kin_trans: "kin s t \<Longrightarrow> kin t u \<Longrightarrow> kin s u"
  by (auto simp: kin_def)

lemma kin_refl [simp]: "kin s s"
  by (simp add: kin_def)

lemma mild_step: "ev \<in> {Degrade, Recover} \<Longrightarrow> kin (state_of c) (state_of (controller_step c ev))"
  by (cases "state_of c") (auto simp: state_step accepts_def)

lemma mild_run:
  "mild evs \<Longrightarrow> kin (state_of c) (state_of (controller_run c evs)) \<and>
     revision_of (controller_run c evs) \<le> revision_of c + length evs \<and>
     ctl_poisoned (controller_run c evs) = ctl_poisoned c"
proof (induction evs arbitrary: c)
  case (Cons ev evs)
  let ?d = "controller_step c ev"
  have "kin (state_of c) (state_of ?d)" using Cons.prems by (intro mild_step) (simp add: mild_def)
  moreover have "revision_of ?d \<le> Suc (revision_of c)" by (simp add: revision_step)
  moreover have "mild evs" using Cons.prems by (simp add: mild_def)
  ultimately show ?case using Cons.IH [of ?d] by (auto intro: kin_trans)
qed simp

lemma settle_calm: "calm n w \<Longrightarrow> calm n (settle w) \<and> kin (world_state w) (world_state (settle w))"
proof (cases "w_batches w")
  case (Cons b bs)
  assume "calm n w"
  with Cons mild_run [of b "w_ctl w"] show ?thesis
    by (auto simp: calm_def settle_def)
qed (simp add: settle_def)

lemma calm_less: "calm n w \<Longrightarrow> m \<le> n \<Longrightarrow> calm m w"
  by (simp add: calm_def)

lemma world_transition_calm:
  assumes "calm (Suc n) w"
  obtains v r where "world_transition ev w = (v, r)" "calm n v"
    "kin (world_state w) (world_state (settle w))"
    "case transition_target (world_state (settle w)) ev of
       Some t \<Rightarrow> is_ok r \<and> world_state v = t
     | None \<Rightarrow> \<not> is_ok r \<and> world_state v = world_state (settle w)"
proof -
  let ?s = "settle w" and ?c = "w_ctl (settle w)"
  have s: "calm (Suc n) ?s" "kin (world_state w) (world_state ?s)" using settle_calm [OF assms] by auto
  obtain c' r where c': "controller_transition ev ?c = (c', r)" by (cases "controller_transition ev ?c")
  then have t: "world_transition ev w = (?s\<lparr>w_ctl := c'\<rparr>, r)"
    by (simp add: world_transition_def Let_def)
  have step: "c' = controller_step ?c ev" using c' by (simp add: controller_step_def)
  have acc: "accepts ?c ev \<longleftrightarrow> transition_target (world_state ?s) ev \<noteq> None" "is_ok r \<longleftrightarrow> accepts ?c ev"
    using s(1) c' transition_ok_iff [of ev ?c] by (auto simp: accepts_def calm_def)
  have "calm n (?s\<lparr>w_ctl := c'\<rparr>)"
    using s(1) by (simp add: calm_def step revision_step split: if_splits)
  moreover have "case transition_target (world_state ?s) ev of
       Some t \<Rightarrow> is_ok r \<and> state_of c' = t
     | None \<Rightarrow> \<not> is_ok r \<and> state_of c' = world_state ?s"
    using acc by (auto simp: step state_step split: option.splits)
  ultimately show thesis using that [OF t _ s(2)] by (simp split: option.splits)
qed

lemma lifecycle_transition_calm:
  assumes "calm (Suc n) w" and "\<And>s. kin (world_state w) s \<Longrightarrow> transition_target s ev = Some t"
  obtains v where "lifecycle_transition ev w = (v, Inr ())" "calm n v" "world_state v = t"
proof -
  obtain v r where v: "world_transition ev w = (v, r)" "calm n v"
      "kin (world_state w) (world_state (settle w))"
      "case transition_target (world_state (settle w)) ev of
         Some t \<Rightarrow> is_ok r \<and> world_state v = t
       | None \<Rightarrow> \<not> is_ok r \<and> world_state v = world_state (settle w)"
    using assms(1) by (rule world_transition_calm)
  then have "is_ok r" "world_state v = t" using assms(2) [OF v(3)] by simp_all
  with v that show thesis by (auto simp: lifecycle_transition_def is_ok_iff)
qed

lemma world_snapshot_calm:
  assumes "calm n w"
  obtains v snap where "world_snapshot w = (v, Inr snap)" "calm n v" "snap_state snap = world_state v"
    "kin (world_state w) (world_state v)"
proof (rule that)
  have s: "calm n (settle w)" "kin (world_state w) (world_state (settle w))"
    using settle_calm [OF assms] by simp_all
  then show "world_snapshot w = (settle w, Inr (ctl_snapshot (w_ctl (settle w))))"
    by (simp add: world_snapshot_def Let_def controller_snapshot_def calm_def lock_data_def)
  show "calm n (settle w)" "kin (world_state w) (world_state (settle w))" by fact+
qed simp

lemma mark_calm:
  assumes "calm (Suc n) w"
  shows "calm n (mark_degraded w) \<and> kin (world_state w) (world_state (mark_degraded w)) \<and>
    calm n (mark_recovered w) \<and> kin (world_state w) (world_state (mark_recovered w))"
proof -
  obtain v snap where v: "world_snapshot w = (v, Inr snap)" "calm (Suc n) v"
      "snap_state snap = world_state v" "kin (world_state w) (world_state v)"
    using assms by (rule world_snapshot_calm)
  have go: "calm n (fst (world_transition ev v)) \<and> kin (world_state v) (world_state (fst (world_transition ev v)))"
    if "ev \<in> {Degrade, Recover}" for ev
  proof -
    obtain u r where u: "world_transition ev v = (u, r)" "calm n u"
        "kin (world_state v) (world_state (settle v))"
        "case transition_target (world_state (settle v)) ev of
           Some t \<Rightarrow> is_ok r \<and> world_state u = t
         | None \<Rightarrow> \<not> is_ok r \<and> world_state u = world_state (settle v)"
      using v(2) by (rule world_transition_calm)
    have "kin (world_state (settle v)) (world_state u)"
      using u(4) that by (cases "world_state (settle v)") auto
    with u show ?thesis by (auto intro: kin_trans)
  qed
  show ?thesis
    using v go [of Degrade] go [of Recover]
    by (auto simp: mark_degraded_def mark_recovered_def in_state_def intro: kin_trans calm_less)
qed

lemma finish_lifecycle_calm:
  assumes "calm 2 w"
  obtains v where "finish_lifecycle w = (v, Inr ())" "world_state v = Stopped"
proof -
  obtain v snap where v: "world_snapshot w = (v, Inr snap)" "calm (Suc (Suc 0)) v"
      "snap_state snap = world_state v"
    using assms by (auto simp: numeral_2_eq_2 elim: world_snapshot_calm)
  have stop: "\<exists>u. lifecycle_transition Stop x = (u, Inr ()) \<and> world_state u = Stopped"
    if "calm (Suc 0) x" "world_state x \<in> {Created, Draining}" for x
  proof -
    have "transition_target s Stop = Some Stopped" if "kin (world_state x) s" for s
      using that \<open>world_state x \<in> _\<close> by auto
    with that(1) show ?thesis by (rule lifecycle_transition_calm) auto
  qed
  have both: "\<exists>u. step_then (lifecycle_transition Drain v) (\<lambda>_. lifecycle_transition Stop) = (u, Inr ()) \<and>
      world_state u = Stopped"
    if "world_state v \<in> {Starting, Ready, Degraded}"
  proof -
    obtain d where "lifecycle_transition Drain v = (d, Inr ())" "calm (Suc 0) d" "world_state d = Draining"
    proof (rule lifecycle_transition_calm [OF v(2), of Drain Draining])
      show "transition_target s Drain = Some Draining" if "kin (world_state v) s" for s
        using that \<open>world_state v \<in> _\<close> by auto
    qed auto
    with stop [of d] show ?thesis by auto
  qed
  show thesis
    using v stop [of v] both calm_less [OF v(2), of "Suc 0"] that
    by (cases "world_state v") (auto simp: finish_lifecycle_def)
qed

lemma finish_with_calm:
  "calm 2 w \<Longrightarrow> \<exists>v. finish_with r w = (v, r) \<and> world_state v = Stopped"
  by (erule finish_lifecycle_calm) (auto simp: finish_with_def)

lemma start_calm:
  assumes "calm (Suc n) w" "world_state w = Created"
  obtains v where "lifecycle_transition Start w = (v, Inr ())" "calm n v" "world_state v = Starting"
  using assms by (auto intro: lifecycle_transition_calm [of n w Start Starting])

lemma started_calm:
  assumes "calm (Suc n) w" "world_state w = Starting"
  obtains v where "lifecycle_transition Started w = (v, Inr ())" "calm n v" "world_state v = Ready"
  using assms by (auto intro: lifecycle_transition_calm [of n w Started Ready])

lemma drain_calm:
  assumes "calm (Suc n) w" "kin Ready (world_state w)"
  obtains v where "lifecycle_transition Drain w = (v, Inr ())" "calm n v" "world_state v = Draining"
proof (rule lifecycle_transition_calm [OF assms(1), of Drain Draining])
  show "transition_target s Drain = Some Draining" if "kin (world_state w) s" for s
    using that assms(2) by auto
qed (rule that)

section \<open>Every path stops\<close>

definition serving_result :: "str \<Rightarrow> serving_outcome \<Rightarrow> io_error + unit" where
  "serving_result timeout_message serving =
     (case serving of
        ServingEnded r \<Rightarrow> r
      | CancelledFirst (DrainFinished r) \<Rightarrow> r
      | CancelledFirst GraceElapsed \<Rightarrow> Inl (IoError TimedOut timeout_message))"

lemma serving_phase_calm:
  assumes "calm 3 w" "kin Ready (world_state w)"
  shows "\<exists>v. serving_phase m serving w = (v, serving_result m serving) \<and> world_state v = Stopped"
proof (cases serving)
  case (ServingEnded r)
  have "calm 2 (mark_degraded w)" using mark_calm [of 2 w] assms(1) by (simp add: numeral_3_eq_3 numeral_2_eq_2)
  moreover have "calm 2 w" using assms(1) by (rule calm_less) simp
  ultimately show ?thesis
    using finish_with_calm [of "mark_degraded w" r] finish_with_calm [of w r]
    by (simp add: serving_phase_def ServingEnded serving_result_def)
next
  case (CancelledFirst d)
  obtain v where "lifecycle_transition Drain w = (v, Inr ())" "calm 2 v"
    using assms by (auto simp: numeral_3_eq_3 numeral_2_eq_2 intro: drain_calm [of 2 w])
  then show ?thesis
    using finish_with_calm [of v]
    by (cases d) (simp_all add: serving_phase_def CancelledFirst serving_result_def)
qed

lemma opened_calm:
  assumes "calm (n + 5) w" "world_state w = Created"
  obtains v u where "lifecycle_transition Start w = (v, Inr ())" "calm 2 v"
    "lifecycle_transition Started v = (u, Inr ())" "calm (n + 3) u" "world_state u = Ready"
proof -
  obtain v where v: "lifecycle_transition Start w = (v, Inr ())" "calm (Suc (n + 3)) v"
      "world_state v = Starting"
    using assms by (auto simp: eval_nat_numeral elim: start_calm)
  obtain u where "lifecycle_transition Started v = (u, Inr ())" "calm (n + 3) u" "world_state u = Ready"
    using v(2,3) by (rule started_calm)
  with v calm_less [OF v(2), of 2] that show thesis by simp
qed

lemma stdio_ends:
  assumes "calm 5 w" "world_state w = Created"
  shows "\<exists>a. run_stdio factory serve w = (a, and_then factory (\<lambda>_. stdio_result serve)) \<and>
    world_state a = Stopped"
proof -
  obtain v u where v: "lifecycle_transition Start w = (v, Inr ())" "calm 2 v"
      "lifecycle_transition Started v = (u, Inr ())" "calm 3 u" "world_state u = Ready"
    using opened_calm [of 0 w] assms by auto
  have "calm 2 (if is_ok r then u else mark_degraded u)" for r :: "io_error + unit"
    using v(4) mark_calm [of 2 u] calm_less [of 3 u 2] by (auto simp: eval_nat_numeral)
  then have "\<exists>x. finish_with r (if is_ok r then u else mark_degraded u) = (x, r) \<and> world_state x = Stopped"
    for r by (intro finish_with_calm)
  then show ?thesis
    using finish_with_calm [OF v(2)] by (cases factory) (simp_all add: run_stdio_def v(1,3) Let_def)
qed

lemma http_ends:
  assumes "calm 5 w" "world_state w = Created" "http_validate ht hc = Inr ()"
  shows "\<exists>b. run_streamable_http ht hc bound serving w =
      (b, and_then bound (\<lambda>_. serving_result ''HTTP transport shutdown timed out'' serving)) \<and>
    world_state b = Stopped"
proof -
  obtain v u where v: "lifecycle_transition Start w = (v, Inr ())" "calm 2 v"
      "lifecycle_transition Started v = (u, Inr ())" "calm 3 u" "world_state u = Ready"
    using opened_calm [of 0 w] assms(1,2) by auto
  obtain app where "build_http_router ht hc = Inr app"
    using assms(3) by (auto simp: build_http_router_def http_validate_Inr is_ok_iff)
  then show ?thesis
    using finish_with_calm [OF v(2)] serving_phase_calm [OF v(4)] v(5)
    by (cases bound) (simp_all add: run_streamable_http_def assms(3) v(1,3))
qed

lemma websocket_ends:
  assumes "calm 5 w" "world_state w = Created" "websocket_validate ht wc = Inr ()"
  shows "\<exists>c. run_websocket ht lib wc cancelled bound serving w =
      (c, and_then bound (\<lambda>_. serving_result ''WebSocket transport shutdown timed out'' serving)) \<and>
    world_state c = Stopped"
proof -
  obtain v u where v: "lifecycle_transition Start w = (v, Inr ())" "calm 2 v"
      "lifecycle_transition Started v = (u, Inr ())" "calm 3 u" "world_state u = Ready"
    using opened_calm [of 0 w] assms(1,2) by auto
  obtain app where "build_websocket_router ht lib wc cancelled = Inr app"
    using assms(3) by (auto simp: build_websocket_router_def websocket_validate_Inr is_ok_iff)
  then show ?thesis
    using finish_with_calm [OF v(2)] serving_phase_calm [OF v(4)] v(5)
    by (cases bound) (simp_all add: run_websocket_def assms(3) v(1,3))
qed

text \<open>
  C13. While other clones only report health, the stdio, HTTP and WebSocket runners end with
  the lifecycle stopped on every path (factory or bind failure, serving that ends or fails,
  a drain that finishes or runs out of grace), and return exactly the cause: no error is
  masked by the shutdown, and no shutdown step fails.
\<close>

theorem runners_stop_and_report_cause:
  assumes "calm 5 w" "world_state w = Created"
    and "http_validate ht hc = Inr ()" "websocket_validate ht wc = Inr ()"
  shows "\<exists>a b c.
    run_stdio factory serve w = (a, and_then factory (\<lambda>_. stdio_result serve)) \<and>
    run_streamable_http ht hc bound serving w =
      (b, and_then bound (\<lambda>_. serving_result ''HTTP transport shutdown timed out'' serving)) \<and>
    run_websocket ht lib wc cancelled bound serving w =
      (c, and_then bound (\<lambda>_. serving_result ''WebSocket transport shutdown timed out'' serving)) \<and>
    world_state a = Stopped \<and> world_state b = Stopped \<and> world_state c = Stopped"
  using stdio_ends [OF assms(1,2), of factory serve] http_ends [OF assms(1-3), of bound serving]
    websocket_ends [OF assms(1,2,4), of lib cancelled bound serving]
  by blast

definition example_world :: "lifecycle_event list list \<Rightarrow> world" where
  "example_world batches = \<lparr>w_ctl = fresh_controller 8, w_batches = batches\<rparr>"

lemma example_world_created [simp]: "world_state (example_world bs) = Created"
  by (simp add: example_world_def)

lemma example_world_calm:
  "list_all mild bs \<Longrightarrow> length (concat bs) + n < 2 ^ 64 \<Longrightarrow> calm n (example_world bs)"
  by (simp add: calm_def example_world_def)

theorem runners_stop_and_report_cause_witness:
  "\<exists>a. run_stdio (Inr ()) TaskFailed (example_world [[], [Degrade], [Degrade, Recover]]) =
     (a, Inl (IoError OtherKind ''MCP stdio service task failed'')) \<and> world_state a = Stopped"
proof -
  have "calm 5 (example_world [[], [Degrade], [Degrade, Recover]])"
    by (rule example_world_calm) (simp_all add: mild_def)
  then obtain a where "run_stdio (Inr ()) TaskFailed (example_world [[], [Degrade], [Degrade, Recover]]) =
      (a, and_then (Inr ()) (\<lambda>_. stdio_result TaskFailed)) \<and> world_state a = Stopped"
    using runners_stop_and_report_cause [OF _ example_world_created example_defaults_valid(1,2)] by blast
  then show ?thesis by (auto simp: stdio_result_def)
qed

section \<open>TCP\<close>

lemma accept_step_calm:
  assumes "calm (Suc n) (as_world s)" "kin Ready (world_state (as_world s))"
  shows "calm n (as_world (fst (accept_step lib s ev))) \<and>
    kin Ready (world_state (as_world (fst (accept_step lib s ev))))"
  using assms mark_calm [OF assms(1)] calm_less [OF assms(1), of n]
  by (cases ev) (auto intro: kin_trans split: list.splits option.splits)

definition loop_result :: "accept_event list \<Rightarrow> io_error + unit" where
  "loop_result events =
     (case dropWhile (\<lambda>ev. case ev of CancellationSeen \<Rightarrow> False | AcceptFailed _ \<Rightarrow> False | _ \<Rightarrow> True) events of
        AcceptFailed e # _ \<Rightarrow> Inl e
      | _ \<Rightarrow> Inr ())"

lemma accept_loop_calm:
  assumes "calm (length events + n) (as_world s)" "kin Ready (world_state (as_world s))"
    and "CancellationSeen \<in> set events" "as_live_error s = None"
  shows "\<exists>s'. accept_loop lib s events = Some s' \<and> calm n (as_world s') \<and>
    kin Ready (world_state (as_world s')) \<and>
    (case as_live_error s' of None \<Rightarrow> Inr () | Some e \<Rightarrow> Inl e) = loop_result events"
  using assms
proof (induction events arbitrary: s)
  case (Cons ev events)
  let ?s = "fst (accept_step lib s ev)"
  have st: "calm (length events + n) (as_world ?s)" "kin Ready (world_state (as_world ?s))"
    using accept_step_calm [of "length events + n" s lib ev] Cons.prems(1,2) by simp_all
  have continue: ?case
    if "accept_step lib s ev = (?s, False)" "as_live_error ?s = None" "ev \<noteq> CancellationSeen"
      "loop_result (ev # events) = loop_result events"
  proof -
    have "accept_loop lib s (ev # events) = accept_loop lib ?s events"
      by (subst accept_loop.simps(2), subst that(1)) simp
    moreover have "CancellationSeen \<in> set events" using Cons.prems(3) that(3) by auto
    ultimately show ?thesis using Cons.IH [OF st] that(2,4) by simp
  qed
  show ?case
  proof (cases ev)
    case CancellationSeen
    with st Cons.prems(4) show ?thesis by (auto simp: loop_result_def intro: calm_less)
  next
    case (AcceptFailed e)
    with st show ?thesis by (auto simp: loop_result_def intro: calm_less)
  next
    case (TaskEnded i p)
    show ?thesis by (rule continue) (use Cons.prems(4) in \<open>auto simp: TaskEnded loop_result_def\<close>)
  next
    case JoinReady
    show ?thesis
      by (rule continue) (use Cons.prems(4) in \<open>auto simp: JoinReady loop_result_def split: list.splits\<close>)
  next
    case (Accepted i)
    show ?thesis
      by (rule continue) (use Cons.prems(4) in \<open>auto simp: Accepted loop_result_def split: option.splits\<close>)
  qed
qed simp

lemma drain_tasks_deadline: "DeadlineFired \<in> set drains \<Longrightarrow> \<exists>n. drain_tasks k drains = Some n"
  by (induction k drains rule: drain_tasks.induct) auto

lemma tcp_ends:
  assumes "calm (length events + 5) w" "world_state w = Created" "tcp_validate tc = Inr ()"
    and "CancellationSeen \<in> set events" "DeadlineFired \<in> set drains"
  shows "\<exists>v. run_tcp_ndjson lib tc bound events drains w =
      Some (v, and_then bound (\<lambda>_. loop_result events)) \<and> world_state v = Stopped"
proof -
  obtain v u where v: "lifecycle_transition Start w = (v, Inr ())" "calm 2 v"
      "lifecycle_transition Started v = (u, Inr ())" "calm (length events + 3) u" "world_state u = Ready"
    using opened_calm [OF assms(1,2)] by blast
  let ?s0 = "accept_start lib (tcp_max_connections tc) u"
  obtain s where s: "accept_loop lib ?s0 events = Some s" "calm 3 (as_world s)"
      "kin Ready (world_state (as_world s))"
      "(case as_live_error s of None \<Rightarrow> Inr () | Some e \<Rightarrow> Inl e) = loop_result events"
    using accept_loop_calm [of events 3 ?s0 lib] v assms(4) by (auto simp: accept_start_def)
  obtain d where d: "lifecycle_transition Drain (as_world s) = (d, Inr ())" "calm 2 d"
    using s(2,3) by (auto simp: numeral_3_eq_3 numeral_2_eq_2 elim: drain_calm)
  obtain k where k: "drain_tasks (length (as_running s) + length (as_ended s)) drains = Some k"
    using drain_tasks_deadline [OF assms(5)] by blast
  show ?thesis
    using finish_with_calm [OF v(2)] finish_with_calm [OF d(2), of "loop_result events"]
    by (cases bound) (simp_all add: run_tcp_ndjson_def assms(3) v(1,3) s(1,4) d(1) k)
qed

text \<open>
  The TCP runner always comes to an end and stops: once cancellation is seen and the
  grace deadline fires, whatever connections were accepted, ended or panicked before and
  however many tasks still run, it returns with the lifecycle stopped, reporting a bind
  failure or the accept failure that ended the loop first, if any.
\<close>

theorem tcp_cancellation_stops:
  assumes "calm (length events + 5) w" "world_state w = Created" "tcp_validate tc = Inr ()"
    and "CancellationSeen \<in> set events" "DeadlineFired \<in> set drains"
  shows "\<exists>v. run_tcp_ndjson lib tc bound events drains w =
      Some (v, and_then bound (\<lambda>_. loop_result events)) \<and> world_state v = Stopped"
  using assms by (rule tcp_ends)

text \<open>A counting semaphore, an instance of the parameter.\<close>

definition counting_semaphore :: "nat semaphore_lib" where
  "counting_semaphore = \<lparr>sem_new = (\<lambda>n. n),
     sem_try_acquire = (\<lambda>s. case s of 0 \<Rightarrow> None | Suc m \<Rightarrow> Some m), sem_release = Suc\<rparr>"

theorem tcp_cancellation_stops_witness:
  "\<exists>v. run_tcp_ndjson counting_semaphore tcp_default (Inr ())
     [Accepted 1, Accepted 2, TaskEnded 1 True, JoinReady, CancellationSeen] [DeadlineFired]
     (example_world [[], [], [Degrade]]) = Some (v, Inr ()) \<and> world_state v = Stopped"
proof -
  let ?evs = "[Accepted 1, Accepted 2, TaskEnded 1 True, JoinReady, CancellationSeen]"
  have "calm (length ?evs + 5) (example_world [[], [], [Degrade]])"
    by (rule example_world_calm) (simp_all add: mild_def)
  then obtain v where "run_tcp_ndjson counting_semaphore tcp_default (Inr ()) ?evs [DeadlineFired]
      (example_world [[], [], [Degrade]]) = Some (v, and_then (Inr ()) (\<lambda>_. loop_result ?evs)) \<and>
      world_state v = Stopped"
    using tcp_cancellation_stops
      [OF _ example_world_created example_defaults_valid(3), of ?evs "[[], [], [Degrade]]" "[DeadlineFired]"
        counting_semaphore "Inr ()"]
    by auto
  then show ?thesis by (simp add: loop_result_def)
qed

theorem runner_success_means_stopped_witness:
  "\<exists>a b c d. let w = example_world [[], [Degrade]]; done_ok = ServingEnded (Inr ()) in
     run_stdio (Inr ()) TaskFinished w = (a, Inr ()) \<and>
     run_streamable_http example_types http_default (Inr ()) done_ok w = (b, Inr ()) \<and>
     run_tcp_ndjson counting_semaphore tcp_default (Inr ()) [CancellationSeen] [DeadlineFired] w =
       Some (c, Inr ()) \<and>
     run_websocket example_types counting_semaphore websocket_default False (Inr ()) done_ok w = (d, Inr ()) \<and>
     world_state a = Stopped \<and> world_state b = Stopped \<and> world_state c = Stopped \<and> world_state d = Stopped"
proof -
  let ?w = "example_world [[], [Degrade]]"
  have calm: "calm 5 ?w" "calm (length [CancellationSeen] + 5) ?w"
    by (rule example_world_calm; simp add: mild_def)+
  obtain a b c d where runs: "run_stdio (Inr ()) TaskFinished ?w = (a, Inr ())"
      "run_streamable_http example_types http_default (Inr ()) (ServingEnded (Inr ())) ?w = (b, Inr ())"
      "run_tcp_ndjson counting_semaphore tcp_default (Inr ()) [CancellationSeen] [DeadlineFired] ?w =
         Some (c, Inr ())"
      "run_websocket example_types counting_semaphore websocket_default False (Inr ()) (ServingEnded (Inr ())) ?w =
         (d, Inr ())"
    using stdio_ends [OF calm(1) example_world_created, of "Inr ()" TaskFinished]
      http_ends [OF calm(1) example_world_created example_defaults_valid(1), of "Inr ()" "ServingEnded (Inr ())"]
      tcp_ends [OF calm(2) example_world_created example_defaults_valid(3), of "[DeadlineFired]"
        counting_semaphore "Inr ()"]
      websocket_ends [OF calm(1) example_world_created example_defaults_valid(2), of counting_semaphore
        False "Inr ()" "ServingEnded (Inr ())"]
    by (auto simp: stdio_result_def serving_result_def loop_result_def)
  then have "world_state a = Stopped \<and> world_state b = Stopped \<and> world_state c = Stopped \<and> world_state d = Stopped"
    using runner_success_means_stopped [of "Inr ()" TaskFinished ?w a example_types http_default "Inr ()"
        "ServingEnded (Inr ())" b counting_semaphore tcp_default "[CancellationSeen]" "[DeadlineFired]" c
        counting_semaphore websocket_default False d]
    by blast
  with runs show ?thesis by (simp add: Let_def)
qed

section \<open>The connection cap\<close>

text \<open>Documented behaviour of tokio's semaphore, over the number of permits it holds.\<close>

definition documented_semaphore :: "'s semaphore_lib \<Rightarrow> ('s \<Rightarrow> nat) \<Rightarrow> bool" where
  "documented_semaphore lib available \<longleftrightarrow>
     (\<forall>n. available (sem_new lib n) = n) \<and>
     (\<forall>s. available (sem_release lib s) = Suc (available s)) \<and>
     (\<forall>s. case sem_try_acquire lib s of None \<Rightarrow> available s = 0 | Some t \<Rightarrow> available s = Suc (available t))"

lemma acquired:
  "documented_semaphore lib available \<Longrightarrow>
     case sem_try_acquire lib s of None \<Rightarrow> available s = 0 | Some t \<Rightarrow> available s = Suc (available t)"
  by (simp add: documented_semaphore_def)

definition capped :: "'s semaphore_lib \<Rightarrow> ('s \<Rightarrow> nat) \<Rightarrow> nat \<Rightarrow> 's accept_state \<Rightarrow> bool" where
  "capped lib available n s \<longleftrightarrow>
     documented_semaphore lib available \<and> available (as_permits s) + length (as_running s) = n"

lemma capped_step: "capped lib available n s \<Longrightarrow> capped lib available n (fst (accept_step lib s ev))"
proof (cases ev)
  case (Accepted i)
  assume "capped lib available n s"
  moreover have "case sem_try_acquire lib (as_permits s) of None \<Rightarrow> available (as_permits s) = 0
      | Some t \<Rightarrow> available (as_permits s) = Suc (available t)"
    using calculation by (auto simp: capped_def documented_semaphore_def)
  ultimately show ?thesis by (auto simp: capped_def Accepted split: option.splits)
next
  case (TaskEnded i p)
  assume "capped lib available n s"
  then show ?thesis
    by (auto simp: capped_def TaskEnded documented_semaphore_def length_remove1 dest: length_pos_if_in_set)
qed (auto simp: capped_def split: list.splits)

interpretation accept_machine: invariant_machine
    "\<lambda>s ev. fst (accept_step lib s ev)" "capped lib available n" for lib available n
  by unfold_locales (rule capped_step)

text \<open>
  The accept loop enforces its cap exactly: after any events, at most \<open>max_connections\<close>
  connection tasks are running, a new connection is served exactly when fewer are, and one
  beyond the cap is dropped without any effect; a task that ends gives its slot back.
\<close>

theorem connection_cap_is_exact:
  assumes "documented_semaphore lib available"
  shows "let s = foldl (\<lambda>s ev. fst (accept_step lib s ev)) (accept_start lib max_conn w) events;
      s' = fst (accept_step lib s (Accepted i))
    in length (as_running s) \<le> max_conn \<and>
       (if length (as_running s) < max_conn then as_running s' = as_running s @ [i] else s' = s) \<and>
       (i \<in> set (as_running s) \<longrightarrow>
          length (as_running (fst (accept_step lib s (TaskEnded i p)))) < max_conn)"
proof -
  let ?s = "foldl (\<lambda>s ev. fst (accept_step lib s ev)) (accept_start lib max_conn w) events"
  have "capped lib available max_conn (accept_start lib max_conn w)"
    using assms by (simp add: capped_def accept_start_def documented_semaphore_def)
  then have "capped lib available max_conn ?s" by (rule accept_machine.inv_run)
  then have c: "available (as_permits ?s) + length (as_running ?s) = max_conn" by (simp add: capped_def)
  have a: "case sem_try_acquire lib (as_permits ?s) of None \<Rightarrow> available (as_permits ?s) = 0
      | Some t \<Rightarrow> available (as_permits ?s) = Suc (available t)"
    using assms by (simp add: documented_semaphore_def)
  have "length (remove1 i (as_running ?s)) < max_conn" if "i \<in> set (as_running ?s)"
  proof -
    have "0 < length (as_running ?s)" using that by (rule length_pos_if_in_set)
    then have "length (as_running ?s) - 1 < max_conn" using c by linarith
    with that show ?thesis by (simp add: length_remove1)
  qed
  with c a show ?thesis by (auto simp: Let_def split: option.splits)
qed

lemma counting_documented: "documented_semaphore counting_semaphore (\<lambda>n. n)"
  by (auto simp: documented_semaphore_def counting_semaphore_def split: nat.splits)

theorem connection_cap_is_exact_witness:
  "let s = foldl (\<lambda>s ev. fst (accept_step counting_semaphore s ev))
       (accept_start counting_semaphore 1 (example_world [])) [Accepted 7]
   in length (as_running s) \<le> 1 \<and> as_running (fst (accept_step counting_semaphore s (Accepted 8))) = [7]"
  using connection_cap_is_exact [OF counting_documented, where events = "[Accepted 7]" and max_conn = 1
      and w = "example_world []" and i = 8]
  by (simp add: Let_def accept_start_def counting_semaphore_def)

section \<open>Connection handlers\<close>

text \<open>A world reached from another by health reports only.\<close>

definition reports :: "world \<Rightarrow> world \<Rightarrow> bool" where
  "reports w v \<longleftrightarrow> list_all mild (w_batches v) \<and> (\<exists>evs. mild evs \<and> w_ctl v = controller_run (w_ctl w) evs)"

lemma mild_append [simp]: "mild (us @ vs) \<longleftrightarrow> mild us \<and> mild vs"
  by (auto simp: mild_def)

lemma reports_refl: "list_all mild (w_batches w) \<Longrightarrow> reports w w"
  by (auto simp: reports_def mild_def intro!: exI [of _ "[]"])

lemma reports_trans: "reports u v \<Longrightarrow> reports v w \<Longrightarrow> reports u w"
  by (auto simp: reports_def) (metis controller_run_append mild_append)

lemma reports_batches: "reports w v \<Longrightarrow> list_all mild (w_batches v)"
  by (simp add: reports_def)

lemma reports_settle: "list_all mild (w_batches w) \<Longrightarrow> reports w (settle w)"
  by (cases "w_batches w") (auto simp: reports_refl settle_def, auto simp: reports_def)

lemma reports_transition:
  assumes "list_all mild (w_batches w)" "ev \<in> {Degrade, Recover}"
  shows "reports w (fst (world_transition ev w))"
proof -
  have "w_ctl (fst (world_transition ev w)) = controller_run (w_ctl (settle w)) [ev]"
    "w_batches (fst (world_transition ev w)) = w_batches (settle w)"
    by (simp_all add: world_transition_def Let_def controller_step_def split_beta)
  moreover have "mild [ev]" using assms(2) by (simp add: mild_def)
  ultimately have "reports (settle w) (fst (world_transition ev w))"
    using reports_batches [OF reports_settle [OF assms(1)]] unfolding reports_def by metis
  with reports_settle [OF assms(1)] show ?thesis by (rule reports_trans)
qed

lemma reports_mark:
  assumes "list_all mild (w_batches w)"
  shows "reports w (mark_degraded w)" "reports w (mark_recovered w)"
proof -
  have s: "reports w (settle w)" "list_all mild (w_batches (settle w))"
    using reports_settle [OF assms] reports_batches by auto
  show "reports w (mark_degraded w)" "reports w (mark_recovered w)"
    using s reports_trans [OF s(1) reports_transition [OF s(2)]]
    by (simp_all add: mark_degraded_def mark_recovered_def world_snapshot_def Let_def)
qed

lemma reports_marks:
  "list_all mild (w_batches w) \<Longrightarrow> reports w (mark_degraded (mark_recovered w))"
  using reports_mark reports_batches reports_trans by blast

text \<open>
  The connection handlers keep what the runners rely on: among clones that only report
  health, the HTTP service factory, a TCP connection and a WebSocket session add only
  \<open>Degrade\<close> and \<open>Recover\<close> to the controller, for every way they may end. So no client can
  start, drain or stop the lifecycle.
\<close>

theorem handlers_only_report_health:
  assumes "list_all mild (w_batches w)"
    and "v = http_session_factory factory w \<or> v = serve_tcp_connection factory serve w \<or>
      v = snd (websocket_session lib factory serve state w)"
  shows "\<exists>evs. set evs \<subseteq> {Degrade, Recover} \<and> w_ctl v = controller_run (w_ctl w) evs"
proof -
  have "reports w v"
    using assms reports_mark reports_marks
    by (cases factory; cases serve)
      (auto simp: http_session_factory_def serve_tcp_connection_def websocket_session_def)
  then show ?thesis by (auto simp: reports_def mild_def)
qed

theorem handlers_only_report_health_witness:
  "\<exists>evs. set evs \<subseteq> {Degrade, Recover} \<and>
     w_ctl (serve_tcp_connection (Inr ()) TaskFailed (example_world [[Degrade]])) =
       controller_run (w_ctl (example_world [[Degrade]])) evs"
  by (rule handlers_only_report_health [OF _ disjI2 [OF disjI1 [OF refl]]])
    (simp add: example_world_def mild_def)

section \<open>WebSocket handshakes\<close>

text \<open>
  A WebSocket handshake is upgraded exactly when the server is not shutting down, both
  headers are present and allow-listed, and a permit is free; the upgraded socket is then
  limited to the configured message size in frames and messages. A refused handshake changes
  nothing, in particular it consumes no permit.
\<close>

theorem websocket_upgrade_gate:
  assumes "header_policy_new ht hosts origins True = Inr (wss_policy state)"
    and "documented_semaphore lib available"
  shows "((\<exists>f m. snd (websocket_upgrade ht lib state headers) = Upgraded f m) \<longleftrightarrow>
      \<not> wss_cancelled state \<and> 0 < available (wss_permits state) \<and>
      (\<exists>h q. headers ''host'' = Some (Some h) \<and> headers ''origin'' = Some (Some q) \<and>
         parse_host ht h \<noteq> None \<and> parse_host ht h \<in> set (map (parse_host ht) hosts) \<and>
         parse_origin ht q \<noteq> None \<and> parse_origin ht q \<in> set (map (parse_origin ht) origins))) \<and>
    (case websocket_upgrade ht lib state headers of
        (state', Upgraded f m) \<Rightarrow> f = wss_max_message_bytes state \<and> m = wss_max_message_bytes state \<and>
          available (wss_permits state) = Suc (available (wss_permits state'))
      | (state', UpgradeRefused _ _) \<Rightarrow> state' = state)"
proof -
  have sem: "case sem_try_acquire lib (wss_permits state) of None \<Rightarrow> available (wss_permits state) = 0
      | Some t \<Rightarrow> available (wss_permits state) = Suc (available t)"
    using assms(2) by (simp add: documented_semaphore_def)
  have policy: "(\<exists>h q. headers ''host'' = Some (Some h) \<and> headers ''origin'' = Some (Some q) \<and>
         parse_host ht h \<noteq> None \<and> parse_host ht h \<in> set (map (parse_host ht) hosts) \<and>
         parse_origin ht q \<noteq> None \<and> parse_origin ht q \<in> set (map (parse_origin ht) origins)) \<longleftrightarrow>
      policy_validate ht (wss_policy state) headers = Inr ()"
    using policy_admits_iff [OF assms(1), of headers] by auto
  show ?thesis
    unfolding policy
    using sem by (auto simp: websocket_upgrade_def split: sum.splits option.splits)
qed

theorem websocket_upgrade_gate_witness:
  "\<exists>policy. header_policy_new example_types [''localhost''] [''http://localhost''] True = Inr policy \<and>
     (\<exists>f m. snd (websocket_upgrade example_types counting_semaphore
        \<lparr>wss_policy = policy, wss_max_message_bytes = 10, wss_permits = 1, wss_cancelled = False\<rparr>
        (\<lambda>name. if name = ''host'' then Some (Some ''LOCALHOST'') else Some (Some ''http://localhost''))) =
          Upgraded f m)"
proof -
  obtain policy where p:
      "header_policy_new example_types [''localhost''] [''http://localhost''] True = Inr policy"
    using example_policy by blast
  let ?st = "\<lparr>wss_policy = policy, wss_max_message_bytes = 10, wss_permits = 1 :: nat, wss_cancelled = False\<rparr>"
  have p': "header_policy_new example_types [''localhost''] [''http://localhost''] True = Inr (wss_policy ?st)"
    using p by simp
  show ?thesis
    using websocket_upgrade_gate [OF p' counting_documented] example_headers p
    by (intro exI [of _ policy] conjI) simp_all
qed

end
