(* ===== verification/Programs.thy ===== *)
theory Programs
  imports Runners_Laws
begin

text \<open>
  Runners and connection handlers as processes that share the controller. A program is the
  sequence of its lock acquisitions: it calls \<open>transition\<close> or \<open>snapshot\<close> and goes on with the
  answer. \<open>perform\<close> runs a program in a \<open>world\<close>, where what other clones do in between is given;
  \<open>schedule\<close> interleaves a main program with any others, call by call, which
  \<open>Lifecycle_Concurrency\<close> justifies. The two agree: in any interleaving, the main program
  behaves as in a world whose events are the calls of the others.
\<close>

section \<open>Programs\<close>

datatype 'a program =
    Finished 'a
  | Transit lifecycle_event "transition_error + lifecycle_snapshot \<Rightarrow> 'a program"
  | Look "transition_error + lifecycle_snapshot \<Rightarrow> 'a program"

primrec perform :: "'a program \<Rightarrow> world \<Rightarrow> world \<times> 'a" where
  "perform (Finished a) = (\<lambda>w. (w, a))"
| "perform (Transit ev k) = (\<lambda>w. case world_transition ev w of (v, r) \<Rightarrow> perform (k r) v)"
| "perform (Look k) = (\<lambda>w. case world_snapshot w of (v, r) \<Rightarrow> perform (k r) v)"

primrec and_also :: "'a program \<Rightarrow> ('a \<Rightarrow> 'b program) \<Rightarrow> 'b program" where
  "and_also (Finished a) f = f a"
| "and_also (Transit ev k) f = Transit ev (\<lambda>r. and_also (k r) f)"
| "and_also (Look k) f = Look (\<lambda>r. and_also (k r) f)"

lemma perform_and_also: "perform (and_also p f) w = (case perform p w of (v, a) \<Rightarrow> perform (f a) v)"
  by (induction p arbitrary: w) (auto split: prod.splits)

section \<open>The code as programs\<close>

definition transition_program :: "lifecycle_event \<Rightarrow> (io_error + unit) program" where
  "transition_program ev =
     Transit ev (\<lambda>r. Finished
       (map_err (\<lambda>_. lifecycle_error ''invalid transport lifecycle transition'')
          (and_then r (\<lambda>_. Inr ()))))"

definition mark_degraded_program :: "unit program" where
  "mark_degraded_program =
     Look (\<lambda>r. if in_state Ready r then Transit Degrade (\<lambda>_. Finished ()) else Finished ())"

definition mark_recovered_program :: "unit program" where
  "mark_recovered_program =
     Look (\<lambda>r. if in_state Degraded r then Transit Recover (\<lambda>_. Finished ()) else Finished ())"

definition try_then ::
  "('e + 'a) program \<Rightarrow> ('a \<Rightarrow> ('e + 'b) program) \<Rightarrow> ('e + 'b) program" where
  "try_then p f = and_also p (\<lambda>r. case r of Inl e \<Rightarrow> Finished (Inl e) | Inr a \<Rightarrow> f a)"

definition finish_program :: "(io_error + unit) program" where
  "finish_program =
     Look (\<lambda>r. case r of
         Inl _ \<Rightarrow> Finished (Inl (lifecycle_error ''transport lifecycle is unavailable''))
       | Inr snap \<Rightarrow>
           (case snap_state snap of
              Created \<Rightarrow> transition_program Stop
            | Draining \<Rightarrow> transition_program Stop
            | Stopped \<Rightarrow> Finished (Inr ())
            | _ \<Rightarrow> try_then (transition_program Drain) (\<lambda>_. transition_program Stop)))"

definition finish_with_program :: "io_error + unit \<Rightarrow> (io_error + unit) program" where
  "finish_with_program result = try_then finish_program (\<lambda>_. Finished result)"

definition stdio_program :: "io_error + unit \<Rightarrow> serve_outcome \<Rightarrow> (io_error + unit) program" where
  "stdio_program factory serve =
     try_then (transition_program Start) (\<lambda>_.
       case factory of
         Inl error \<Rightarrow> finish_with_program (Inl error)
       | Inr _ \<Rightarrow>
           try_then (transition_program Started) (\<lambda>_.
             let result = stdio_result serve
             in and_also (if is_ok result then Finished () else mark_degraded_program)
                  (\<lambda>_. finish_with_program result)))"

definition serving_program :: "str \<Rightarrow> serving_outcome \<Rightarrow> (io_error + unit) program" where
  "serving_program timeout_message serving =
     (case serving of
        ServingEnded r \<Rightarrow>
          and_also (if is_ok r then Finished () else mark_degraded_program)
            (\<lambda>_. finish_with_program r)
      | CancelledFirst d \<Rightarrow>
          and_also (transition_program Drain) (\<lambda>drained.
            finish_with_program
              (and_then drained (\<lambda>_.
                 case d of DrainFinished r \<Rightarrow> r
                 | GraceElapsed \<Rightarrow> Inl (IoError TimedOut timeout_message)))))"

text \<open>What the HTTP and the WebSocket runner share once their configuration is validated.\<close>

definition network_program ::
  "io_error + unit \<Rightarrow> io_error + 'r \<Rightarrow> str \<Rightarrow> serving_outcome \<Rightarrow> (io_error + unit) program" where
  "network_program bound router timeout_message serving =
     try_then (transition_program Start) (\<lambda>_.
       case and_then bound (\<lambda>_. router) of
         Inl error \<Rightarrow> finish_with_program (Inl error)
       | Inr _ \<Rightarrow>
           try_then (transition_program Started) (\<lambda>_. serving_program timeout_message serving))"

definition http_program ::
  "http_types \<Rightarrow> http_transport_config \<Rightarrow> io_error + unit \<Rightarrow> serving_outcome \<Rightarrow>
     (io_error + unit) program" where
  "http_program ht config bound serving =
     (case http_validate ht config of
        Inl error \<Rightarrow> Finished (Inl error)
      | Inr _ \<Rightarrow> network_program bound (build_http_router ht config)
          ''HTTP transport shutdown timed out'' serving)"

definition websocket_program ::
  "http_types \<Rightarrow> 's semaphore_lib \<Rightarrow> websocket_transport_config \<Rightarrow> bool \<Rightarrow> io_error + unit \<Rightarrow>
     serving_outcome \<Rightarrow> (io_error + unit) program" where
  "websocket_program ht lib config cancelled bound serving =
     (case websocket_validate ht config of
        Inl error \<Rightarrow> Finished (Inl error)
      | Inr _ \<Rightarrow> network_program bound (build_websocket_router ht lib config cancelled)
          ''WebSocket transport shutdown timed out'' serving)"

text \<open>The accept loop; the world in its state is not looked at.\<close>

fun accept_program ::
  "'s semaphore_lib \<Rightarrow> 's accept_state \<Rightarrow> accept_event list \<Rightarrow> 's accept_state option program" where
  "accept_program lib s [] = Finished None"
| "accept_program lib s (JoinReady # evs) =
     (case as_ended s of
        [] \<Rightarrow> accept_program lib s evs
      | panicked # rest \<Rightarrow>
          and_also (if panicked then mark_degraded_program else Finished ())
            (\<lambda>_. accept_program lib (s\<lparr>as_ended := rest\<rparr>) evs))"
| "accept_program lib s (AcceptFailed error # evs) =
     and_also mark_degraded_program (\<lambda>_. Finished (Some (s\<lparr>as_live_error := Some error\<rparr>)))"
| "accept_program lib s (ev # evs) =
     (case accept_step lib s ev of
        (s', True) \<Rightarrow> Finished (Some s')
      | (s', False) \<Rightarrow> accept_program lib s' evs)"

definition drained_program ::
  "'s accept_state \<Rightarrow> drain_event list \<Rightarrow> (io_error + unit) option program" where
  "drained_program s drains =
     and_also (transition_program Drain) (\<lambda>r.
       case r of
         Inl error \<Rightarrow> Finished (Some (Inl error))
       | Inr _ \<Rightarrow>
           (case drain_tasks (length (as_running s) + length (as_ended s)) drains of
              None \<Rightarrow> Finished None
            | Some _ \<Rightarrow>
                and_also (finish_with_program
                    (case as_live_error s of None \<Rightarrow> Inr () | Some error \<Rightarrow> Inl error))
                  (\<lambda>result. Finished (Some result))))"

definition tcp_program ::
  "'s semaphore_lib \<Rightarrow> tcp_transport_config \<Rightarrow> io_error + unit \<Rightarrow> accept_event list \<Rightarrow>
     drain_event list \<Rightarrow> world \<Rightarrow> (io_error + unit) option program" where
  "tcp_program lib config bound events drains w0 =
     (case tcp_validate config of
        Inl error \<Rightarrow> Finished (Some (Inl error))
      | Inr _ \<Rightarrow>
          and_also (transition_program Start) (\<lambda>started.
            case started of
              Inl error \<Rightarrow> Finished (Some (Inl error))
            | Inr _ \<Rightarrow>
                (case bound of
                   Inl error \<Rightarrow>
                     and_also (finish_with_program (Inl error)) (\<lambda>result. Finished (Some result))
                 | Inr _ \<Rightarrow>
                     and_also (transition_program Started) (\<lambda>ready.
                       case ready of
                         Inl error \<Rightarrow> Finished (Some (Inl error))
                       | Inr _ \<Rightarrow>
                           and_also (accept_program lib
                               (accept_start lib (tcp_max_connections config) w0) events)
                             (\<lambda>out. case out of
                                None \<Rightarrow> Finished None
                              | Some s \<Rightarrow> drained_program s drains)))))"

text \<open>The connection handlers.\<close>

definition http_session_program :: "io_error + unit \<Rightarrow> unit program" where
  "http_session_program result = (if is_ok result then mark_recovered_program else mark_degraded_program)"

definition connection_program :: "io_error + unit \<Rightarrow> serve_outcome \<Rightarrow> unit program" where
  "connection_program factory serve =
     (case factory of
        Inl _ \<Rightarrow> mark_degraded_program
      | Inr _ \<Rightarrow>
          and_also mark_recovered_program (\<lambda>_.
            case serve of TaskFailed \<Rightarrow> mark_degraded_program | _ \<Rightarrow> Finished ()))"

section \<open>The programs are the code\<close>

lemma perform_and_also':
  "perform (and_also p f) = (\<lambda>w. case perform p w of (v, a) \<Rightarrow> perform (f a) v)"
  by (rule ext) (rule perform_and_also)

lemma perform_transition: "perform (transition_program ev) = lifecycle_transition ev"
  by (rule ext) (simp add: transition_program_def lifecycle_transition_def split: prod.splits)

lemma perform_marks:
  "perform mark_degraded_program = (\<lambda>w. (mark_degraded w, ()))"
  "perform mark_recovered_program = (\<lambda>w. (mark_recovered w, ()))"
  by (rule ext, simp add: mark_degraded_program_def mark_degraded_def mark_recovered_program_def
      mark_recovered_def split: prod.splits)+

lemma perform_try_then: "perform (try_then p f) = (\<lambda>w. step_then (perform p w) (\<lambda>a. perform (f a)))"
  by (rule ext) (simp add: try_then_def perform_and_also step_then_def split: prod.splits sum.splits)

lemma perform_finish: "perform finish_program = finish_lifecycle"
  by (rule ext) (simp add: finish_program_def finish_lifecycle_def perform_transition perform_try_then
      split: prod.splits sum.splits lifecycle_state.splits)

lemma perform_finish_with: "perform (finish_with_program r) = finish_with r"
  by (rule ext) (simp add: finish_with_program_def finish_with_def perform_try_then perform_finish)

lemmas perform_simps = perform_and_also' perform_transition perform_marks perform_try_then
  perform_finish perform_finish_with

lemma perform_stdio: "perform (stdio_program factory serve) = run_stdio factory serve"
  by (rule ext, cases factory)
    (simp_all add: stdio_program_def run_stdio_def perform_simps Let_def)

lemma perform_serving: "perform (serving_program m serving) = serving_phase m serving"
  by (rule ext, cases serving)
    (auto simp: serving_program_def serving_phase_def perform_simps Let_def
      split: prod.splits sum.splits)

lemma perform_http: "perform (http_program ht config bound serving) = run_streamable_http ht config bound serving"
  by (rule ext, cases bound; cases "http_validate ht config"; cases "build_http_router ht config")
    (simp_all add: http_program_def run_streamable_http_def network_program_def perform_simps perform_serving)

lemma perform_websocket:
  "perform (websocket_program ht lib config cancelled bound serving) =
     run_websocket ht lib config cancelled bound serving"
  by (rule ext, cases bound; cases "websocket_validate ht config";
      cases "build_websocket_router ht lib config cancelled")
    (simp_all add: websocket_program_def run_websocket_def network_program_def perform_simps perform_serving)

lemma perform_connection:
  "perform (http_session_program factory) w = (http_session_factory factory w, ())"
  "perform (connection_program factory serve) w = (serve_tcp_connection factory serve w, ())"
  "perform (connection_program factory serve) w = (snd (websocket_session lib factory serve state w), ())"
  by (cases factory; cases serve; simp add: http_session_program_def http_session_factory_def
      connection_program_def serve_tcp_connection_def websocket_session_def perform_simps Let_def)+

lemma accept_step_world:
  "accept_step lib (s\<lparr>as_world := w\<rparr>) CancellationSeen = (s\<lparr>as_world := w\<rparr>, True)"
  "accept_step lib (s\<lparr>as_world := w\<rparr>) (TaskEnded i p) =
     ((fst (accept_step lib s (TaskEnded i p)))\<lparr>as_world := w\<rparr>, False)"
  "accept_step lib (s\<lparr>as_world := w\<rparr>) (Accepted i) =
     ((fst (accept_step lib s (Accepted i)))\<lparr>as_world := w\<rparr>, False)"
  "snd (accept_step lib s (TaskEnded i p)) = False" "snd (accept_step lib s (Accepted i)) = False"
  by (simp_all split: option.splits)

lemma perform_accept:
  "accept_loop lib (s\<lparr>as_world := w\<rparr>) evs =
     (case perform (accept_program lib s evs) w of
        (v, None) \<Rightarrow> None | (v, Some s') \<Rightarrow> Some (s'\<lparr>as_world := v\<rparr>))"
proof (induction evs arbitrary: s w)
  case (Cons ev evs)
  note [simp del] = accept_step.simps(2,4)
  show ?case
  proof (cases ev)
    case JoinReady
    then show ?thesis
      using Cons [where s = "s\<lparr>as_ended := tl (as_ended s)\<rparr>"] Cons [where s = s]
      by (cases "as_ended s") (auto simp: perform_simps)
  next
    case (TaskEnded i p)
    then show ?thesis
      using Cons by (simp add: accept_step_world split_beta)
  next
    case (Accepted i)
    then show ?thesis
      using Cons by (simp add: accept_step_world split_beta)
  qed (simp_all add: perform_simps)
qed simp

lemma perform_tcp:
  "run_tcp_ndjson lib config bound events drains w =
     (case perform (tcp_program lib config bound events drains w0) w of
        (v, None) \<Rightarrow> None | (v, Some r) \<Rightarrow> Some (v, r))"
proof -
  have loop: "accept_loop lib (accept_start lib n v) events =
      (case perform (accept_program lib (accept_start lib n w0) events) v of
         (u, None) \<Rightarrow> None | (u, Some s') \<Rightarrow> Some (s'\<lparr>as_world := u\<rparr>))" for n v
    using perform_accept [where s = "accept_start lib n w0"] by (simp add: accept_start_def)
  show ?thesis
    by (cases bound; cases "tcp_validate config")
      (simp_all add: run_tcp_ndjson_def tcp_program_def perform_simps loop drained_program_def
        split: prod.splits sum.splits option.splits)
qed

end
