(* ===== verification/Interleaving.thy ===== *)
theory Interleaving
  imports Programs
begin

text \<open>
  The runners composed with their connection handlers. A pool holds the shared controller, a
  runner's program and the programs of any number of handlers; a schedule says who makes the
  next call. What a runner does in a pool is what it does in some world, and with handlers of
  this program that world is calm, so what \<open>Runners_Laws\<close> shows for calm worlds holds in every
  interleaving.
\<close>

section \<open>Pools\<close>

record 'a pool =
  pl_ctl :: controller
  pl_main :: "'a program"
  pl_others :: "unit program list"

text \<open>One call of a program on the shared controller.\<close>

fun advance :: "'a program \<Rightarrow> controller \<Rightarrow> 'a program \<times> controller" where
  "advance (Finished a) c = (Finished a, c)"
| "advance (Transit ev k) c = (case controller_transition ev c of (d, r) \<Rightarrow> (k r, d))"
| "advance (Look k) c = (k (controller_snapshot c), c)"

text \<open>\<open>None\<close> schedules the main program, \<open>Some i\<close> the \<open>i\<close>-th of the others.\<close>

fun pool_step :: "'a pool \<Rightarrow> nat option \<Rightarrow> 'a pool" where
  "pool_step s None =
     (case advance (pl_main s) (pl_ctl s) of (p, c) \<Rightarrow> s\<lparr>pl_main := p, pl_ctl := c\<rparr>)"
| "pool_step s (Some i) =
     (if i < length (pl_others s) then
        (case advance (pl_others s ! i) (pl_ctl s) of
           (p, c) \<Rightarrow> s\<lparr>pl_others := (pl_others s)[i := p], pl_ctl := c\<rparr>)
      else s)"

definition pool_run :: "'a pool \<Rightarrow> nat option list \<Rightarrow> 'a pool" where
  "pool_run s sch = foldl pool_step s sch"

definition pool :: "controller \<Rightarrow> 'a program \<Rightarrow> unit program list \<Rightarrow> 'a pool" where
  "pool c p others = \<lparr>pl_ctl = c, pl_main = p, pl_others = others\<rparr>"

lemma pool_run_simps [simp]: "pool_run s [] = s" "pool_run s (i # sch) = pool_run (pool_step s i) sch"
  by (simp_all add: pool_run_def)

section \<open>What programs may do\<close>

text \<open>The events a program may try, and how many calls it makes at most.\<close>

primrec emits :: "lifecycle_event set \<Rightarrow> 'a program \<Rightarrow> bool" where
  "emits E (Finished a) = True"
| "emits E (Transit ev k) = (ev \<in> E \<and> (\<forall>r. emits E (k r)))"
| "emits E (Look k) = (\<forall>r. emits E (k r))"

primrec within :: "'a program \<Rightarrow> nat \<Rightarrow> bool" where
  "within (Finished a) n = True"
| "within (Transit ev k) n = (0 < n \<and> (\<forall>r. within (k r) (n - 1)))"
| "within (Look k) n = (0 < n \<and> (\<forall>r. within (k r) (n - 1)))"

lemma within_mono: "within p n \<Longrightarrow> n \<le> m \<Longrightarrow> within p m"
  by (induction p arbitrary: n m) (auto simp: le_diff_conv, (meson diff_le_mono rangeI)+)

lemma within_zero: "within p 0 \<Longrightarrow> \<exists>a. p = Finished a"
  by (cases p) auto

lemma within_advance: "within p n \<Longrightarrow> within (fst (advance p c)) (n - 1)"
  by (cases p) (auto split: prod.splits)

lemma emits_advance:
  "emits E p \<Longrightarrow> emits E (fst (advance p c)) \<and>
     (snd (advance p c) = c \<or> (\<exists>ev \<in> E. snd (advance p c) = controller_step c ev))"
  by (cases p) (auto simp: controller_step_def split_beta)

text \<open>A turn of the main program uses up one of its calls, a turn of another none.\<close>

lemma main_finishes:
  "within (pl_main s) n \<Longrightarrow> n \<le> count_list sch None \<Longrightarrow> \<exists>a. pl_main (pool_run s sch) = Finished a"
proof (induction sch arbitrary: s n)
  case (Cons i sch)
  show ?case
  proof (cases i)
    case None
    have "within (pl_main (pool_step s None)) (n - 1)"
      using within_advance [OF Cons.prems(1), of "pl_ctl s"] by (simp add: split_beta)
    then show ?thesis using Cons.IH [of "pool_step s None" "n - 1"] Cons.prems None by simp
  next
    case (Some j)
    have "pl_main (pool_step s i) = pl_main s" by (simp add: Some split_beta)
    then show ?thesis using Cons.IH [of "pool_step s i" n] Cons.prems Some by simp
  qed
qed (simp add: within_zero)

section \<open>A pool is a world\<close>

lemma perform_first_batch:
  assumes "\<nexists>a. p = Finished a"
  shows "perform p \<lparr>w_ctl = c, w_batches = (ev # b) # bs\<rparr> =
     perform p \<lparr>w_ctl = controller_step c ev, w_batches = b # bs\<rparr>"
  using assms by (cases p) (simp_all add: world_transition_def world_snapshot_def settle_def)

lemma perform_no_batch:
  assumes "\<nexists>a. p = Finished a"
  shows "perform p \<lparr>w_ctl = c, w_batches = [[]]\<rparr> = perform p \<lparr>w_ctl = c, w_batches = []\<rparr>"
  using assms by (cases p) (simp_all add: world_transition_def world_snapshot_def settle_def Let_def)

lemma perform_advance:
  assumes "\<nexists>a. p = Finished a"
  shows "perform p \<lparr>w_ctl = c, w_batches = [] # bs\<rparr> =
     perform (fst (advance p c)) \<lparr>w_ctl = snd (advance p c), w_batches = bs\<rparr>"
  using assms
  by (cases p) (simp_all add: world_transition_def world_snapshot_def settle_def Let_def split: prod.splits)

text \<open>An event just before is one more event of the first batch, or of what came after.\<close>

lemma perform_after_event:
  assumes "perform p \<lparr>w_ctl = controller_step c ev, w_batches = bs\<rparr> = (w, a)"
  shows "\<exists>bs' w' es'. perform p \<lparr>w_ctl = c, w_batches = bs'\<rparr> = (w', a) \<and>
    (\<forall>es. controller_run (w_ctl w) es = controller_run (w_ctl w') (es' @ es)) \<and>
    set (concat bs' @ es') \<subseteq> insert ev (set (concat bs)) \<and>
    length (concat bs' @ es') \<le> Suc (length (concat bs))"
proof (cases "\<exists>b. p = Finished b")
  case True
  with assms show ?thesis
    by (intro exI [of _ "[]"] exI [of _ "\<lparr>w_ctl = c, w_batches = []\<rparr>"] exI [of _ "[ev]"]) auto
next
  case False
  have "perform p \<lparr>w_ctl = c, w_batches = (ev # concat (take 1 bs)) # drop 1 bs\<rparr> = (w, a)"
    using perform_first_batch [OF False, of c ev] perform_no_batch [OF False] assms
    by (cases bs) simp_all
  then show ?thesis
    by (intro exI [of _ "(ev # concat (take 1 bs)) # drop 1 bs"] exI [of _ w] exI [of _ "[]"])
      (cases bs, auto)
qed

text \<open>
  \<open>explained E n c p a d\<close>: from controller \<open>c\<close>, program \<open>p\<close> returns \<open>a\<close> in a world whose
  events are from \<open>E\<close>, and the controller is \<open>d\<close> after further such events, \<open>n\<close> in all at most.
\<close>

definition explained ::
  "lifecycle_event set \<Rightarrow> nat \<Rightarrow> controller \<Rightarrow> 'a program \<Rightarrow> 'a \<Rightarrow> controller \<Rightarrow> bool" where
  "explained E n c p a d \<longleftrightarrow> (\<exists>bs w es. perform p \<lparr>w_ctl = c, w_batches = bs\<rparr> = (w, a) \<and>
     d = controller_run (w_ctl w) es \<and> set (concat bs @ es) \<subseteq> E \<and> length (concat bs @ es) \<le> n)"

lemma explained_finished: "explained E n c (Finished a) a c"
  unfolding explained_def by (intro exI [of _ "[]"] exI [of _ "\<lparr>w_ctl = c, w_batches = []\<rparr>"]) simp

lemma explained_more: "explained E n c p a d \<Longrightarrow> n \<le> m \<Longrightarrow> explained E m c p a d"
  unfolding explained_def by (elim exE conjE) (intro exI conjI, assumption+, rule order_trans)

lemma explained_own_call:
  assumes "explained E n (snd (advance p c)) (fst (advance p c)) a d"
  shows "explained E n c p a d"
proof (cases "\<exists>b. p = Finished b")
  case False
  obtain bs w es where "perform (fst (advance p c)) \<lparr>w_ctl = snd (advance p c), w_batches = bs\<rparr> = (w, a)"
      "d = controller_run (w_ctl w) es" "set (concat bs @ es) \<subseteq> E" "length (concat bs @ es) \<le> n"
    using assms unfolding explained_def by blast
  with perform_advance [OF False, of c bs] show ?thesis
    unfolding explained_def by (intro exI [of _ "[] # bs"] exI [of _ w] exI [of _ es]) simp
qed (use assms in auto)

lemma explained_event:
  assumes "explained E n (controller_step c ev) p a d" "ev \<in> E"
  shows "explained E (Suc n) c p a d"
proof -
  obtain bs w es where e: "perform p \<lparr>w_ctl = controller_step c ev, w_batches = bs\<rparr> = (w, a)"
      "d = controller_run (w_ctl w) es" "set (concat bs @ es) \<subseteq> E" "length (concat bs @ es) \<le> n"
    using assms(1) unfolding explained_def by blast
  obtain bs' w' es' where after: "perform p \<lparr>w_ctl = c, w_batches = bs'\<rparr> = (w', a)"
      "controller_run (w_ctl w) es = controller_run (w_ctl w') (es' @ es)"
      "set (concat bs' @ es') \<subseteq> insert ev (set (concat bs))"
      "length (concat bs' @ es') \<le> Suc (length (concat bs))"
    using perform_after_event [OF e(1)] by metis
  have "insert ev (set (concat bs)) \<subseteq> E" "set es \<subseteq> E" using e(3) assms(2) by auto
  with after(3) have "set (concat bs' @ es' @ es) \<subseteq> E" unfolding set_append by blast
  moreover have "length (concat bs' @ es' @ es) \<le> Suc n" using after(4) e(4) by simp
  ultimately show ?thesis
    using after(1,2) e(2)
    unfolding explained_def by (intro exI [of _ bs'] exI [of _ w'] exI [of _ "es' @ es"]) simp
qed

text \<open>
  Whatever the schedule, if the main program has finished then it has done so as in the world
  whose batches are the calls of the others between its own.
\<close>

lemma pool_is_world:
  assumes "list_all (emits E) others" "pl_main (pool_run (pool c p others) sch) = Finished a"
  shows "explained E (length sch) c p a (pl_ctl (pool_run (pool c p others) sch))"
  using assms
proof (induction sch arbitrary: c p others)
  case Nil
  then show ?case by (simp add: pool_def explained_finished)
next
  case (Cons i sch)
  show ?case
  proof (cases i)
    case None
    then have "pool_step (pool c p others) i = pool (snd (advance p c)) (fst (advance p c)) others"
      by (simp add: pool_def split_beta)
    with Cons have "explained E (length sch) (snd (advance p c)) (fst (advance p c)) a
        (pl_ctl (pool_run (pool c p others) (i # sch)))"
      by simp
    then have "explained E (length sch) c p a (pl_ctl (pool_run (pool c p others) (i # sch)))"
      by (rule explained_own_call)
    then show ?thesis by (rule explained_more) simp
  next
    case (Some j)
    let ?q = "advance (others ! j) c"
    show ?thesis
    proof (cases "j < length others")
      case False
      then have "pool_step (pool c p others) i = pool c p others" by (simp add: Some pool_def)
      with Cons have "explained E (length sch) c p a (pl_ctl (pool_run (pool c p others) (i # sch)))"
        by simp
      then show ?thesis by (rule explained_more) simp
    next
      case True
      with Cons.prems(1) have q: "emits E (fst ?q)"
          "snd ?q = c \<or> (\<exists>ev \<in> E. snd ?q = controller_step c ev)"
        using emits_advance [of E "others ! j" c] by (auto simp: list_all_length)
      have "list_all (emits E) (others[j := fst ?q])"
        using Cons.prems(1) q(1) by (auto simp: list_all_iff dest!: set_update_subset_insert [THEN subsetD])
      moreover have "pool_step (pool c p others) i = pool (snd ?q) p (others[j := fst ?q])"
        using True by (simp add: Some pool_def split_beta)
      ultimately have "explained E (length sch) (snd ?q) p a (pl_ctl (pool_run (pool c p others) (i # sch)))"
        using Cons.IH Cons.prems(2) by simp
      with q(2) show ?thesis
        using explained_event [of E "length sch" c _ p a] explained_more [of E "length sch" c p a] by auto
    qed
  qed
qed

end
