(* ===== verification/Composition.thy ===== *)
theory Composition
  imports Interleaving Lifecycle_Concurrency
begin

text \<open>
  The runners among their own connections. No assumption on other clones is left: they are the
  handlers of this program, any number of them, in any interleaving.
\<close>

section \<open>Calls of the runners and of the handlers\<close>

lemma emits_and_also: "emits E p \<Longrightarrow> (\<And>a. emits E (f a)) \<Longrightarrow> emits E (and_also p f)"
  by (induction p) auto

lemma within_and_also:
  assumes "within p n" "\<And>a. within (f a) m" "n + m \<le> k"
  shows "within (and_also p f) k"
  using assms(1,3)
proof (induction p arbitrary: n k)
  case (Finished a)
  then show ?case using assms(2) [of a] by (auto intro: within_mono)
next
  case (Transit ev h)
  then have "within (and_also (h r) f) (k - 1)" for r by (intro Transit.IH [of _ "n - 1"]) auto
  with Transit.prems show ?case by simp
next
  case (Look h)
  then have "within (and_also (h r) f) (k - 1)" for r by (intro Look.IH [of _ "n - 1"]) auto
  with Look.prems show ?case by simp
qed

lemma within_try_then:
  "within p n \<Longrightarrow> (\<And>a. within (f a) m) \<Longrightarrow> n + m \<le> k \<Longrightarrow> within (try_then p f) k"
  unfolding try_then_def by (rule within_and_also) (auto split: sum.splits)

lemma within_transition: "0 < n \<Longrightarrow> within (transition_program ev) n"
  by (simp add: transition_program_def)

lemma within_mark: "2 \<le> n \<Longrightarrow> within mark_degraded_program n"
  by (simp add: mark_degraded_program_def)

lemma within_finish: "within finish_program 3"
proof -
  have "within (try_then (transition_program Drain) (\<lambda>_. transition_program Stop)) 2"
    by (rule within_try_then [where n = 1 and m = 1]) (simp_all add: within_transition)
  then show ?thesis
    by (auto simp: finish_program_def within_transition split: sum.splits lifecycle_state.splits)
qed

lemma within_finish_with: "3 \<le> n \<Longrightarrow> within (finish_with_program r) n"
  unfolding finish_with_program_def
  by (rule within_try_then [OF within_finish, where m = 0]) simp_all

lemma within_marked:
  "within (and_also (if b then Finished () else mark_degraded_program) (\<lambda>_. finish_with_program r)) 5"
  by (rule within_and_also [where n = 2 and m = 3]) (simp_all add: within_mark within_finish_with)

lemma within_stdio: "within (stdio_program factory serve) 7"
  unfolding stdio_program_def
proof (rule within_try_then [where n = 1 and m = 6])
  have "within (try_then (transition_program Started) (\<lambda>_. let result = stdio_result serve
      in and_also (if is_ok result then Finished () else mark_degraded_program)
           (\<lambda>_. finish_with_program result))) 6"
    by (rule within_try_then [where n = 1 and m = 5])
      (use within_marked [of "is_ok (stdio_result serve)" "stdio_result serve"] in
        \<open>simp_all add: Let_def within_transition\<close>)
  then show "within (case factory of
       Inl error \<Rightarrow> finish_with_program (Inl error)
     | Inr _ \<Rightarrow> try_then (transition_program Started) (\<lambda>_. let result = stdio_result serve
         in and_also (if is_ok result then Finished () else mark_degraded_program)
              (\<lambda>_. finish_with_program result))) 6" for a :: unit
    by (simp add: within_finish_with split: sum.splits)
qed (simp_all add: within_transition)

lemma within_serving: "within (serving_program m serving) 5"
proof (cases serving)
  case (CancelledFirst d)
  have "within (and_also (transition_program Drain) (\<lambda>r. finish_with_program (f r))) 5" for f
    by (rule within_and_also [where n = 1 and m = 3]) (simp_all add: within_transition within_finish_with)
  then show ?thesis by (simp add: serving_program_def CancelledFirst)
qed (simp add: serving_program_def within_marked)

lemma within_network: "within (network_program bound router m serving) 7"
  unfolding network_program_def
proof (rule within_try_then [where n = 1 and m = 6])
  have "within (try_then (transition_program Started) (\<lambda>_. serving_program m serving)) 6"
    by (rule within_try_then [where n = 1 and m = 5]) (simp_all add: within_transition within_serving)
  then show "within (case and_then bound (\<lambda>_. router) of
       Inl error \<Rightarrow> finish_with_program (Inl error)
     | Inr _ \<Rightarrow> try_then (transition_program Started) (\<lambda>_. serving_program m serving)) 6" for a :: unit
    by (simp add: within_finish_with split: sum.splits)
qed (simp_all add: within_transition)

lemma within_runners:
  "within (http_program ht hc bound serving) 7"
  "within (websocket_program ht lib wc cancelled bound serving) 7"
  by (simp_all add: http_program_def websocket_program_def within_network split: sum.splits)

lemma within_accept: "within (accept_program lib s events) (2 * length events)"
proof (induction events arbitrary: s)
  case (Cons ev events)
  have less: "within (accept_program lib t events) (Suc (Suc (2 * length events)))" for t
    by (rule within_mono [OF Cons]) simp
  show ?case
  proof (cases ev)
    case JoinReady
    have "within (and_also (if p then mark_degraded_program else Finished ())
        (\<lambda>_. accept_program lib t events)) (Suc (Suc (2 * length events)))" for p t
      by (rule within_and_also [where n = 2, OF _ Cons]) (simp_all add: within_mark)
    with less JoinReady show ?thesis by (simp split: list.splits)
  next
    case (AcceptFailed e)
    have "within (and_also mark_degraded_program (\<lambda>_. Finished b)) (Suc (Suc (2 * length events)))"
      for b :: "'a accept_state option"
      by (rule within_and_also [where n = 2 and m = 0]) (simp_all add: within_mark)
    with AcceptFailed show ?thesis by simp
  qed (simp_all add: less split: option.splits)
qed simp

lemma within_tcp: "within (tcp_program lib tc bound events drains w) (2 * length events + 6)"
proof -
  have over: "within (and_also (finish_with_program r) (\<lambda>x. Finished (Some x))) n" if "3 \<le> n" for r n
    by (rule within_and_also [where n = 3 and m = 0]) (use that in \<open>simp_all add: within_finish_with\<close>)
  have drained: "within (drained_program s drains) 4" for s :: "'a accept_state"
    unfolding drained_program_def
    by (rule within_and_also [where n = 1 and m = 3])
      (simp_all add: within_transition over split: sum.splits option.splits)
  have loop: "within (and_also (accept_program lib s events)
      (\<lambda>out. case out of None \<Rightarrow> Finished None | Some s \<Rightarrow> drained_program s drains)) (2 * length events + 4)" for s
    by (rule within_and_also [OF within_accept, where m = 4]) (simp_all add: drained split: option.splits)
  have ready: "within (and_also (transition_program Started) (\<lambda>ready. case ready of
        Inl error \<Rightarrow> Finished (Some (Inl error))
      | Inr _ \<Rightarrow> and_also (accept_program lib s events)
          (\<lambda>out. case out of None \<Rightarrow> Finished None | Some s \<Rightarrow> drained_program s drains)))
      (2 * length events + 5)" for s
    by (rule within_and_also [where n = 1 and m = "2 * length events + 4"])
      (simp_all add: within_transition loop split: sum.splits)
  show ?thesis
    unfolding tcp_program_def
    by (auto intro!: within_and_also [where n = 1 and m = "2 * length events + 5"]
        simp: within_transition over ready split: sum.splits)
qed

section \<open>Calls of the handlers\<close>

definition connection :: "unit program \<Rightarrow> bool" where
  "connection p \<longleftrightarrow>
     (\<exists>factory. p = http_session_program factory) \<or>
     (\<exists>factory serve. p = connection_program factory serve)"

lemma emits_marks:
  "emits {Degrade, Recover} mark_degraded_program" "emits {Degrade, Recover} mark_recovered_program"
  by (simp_all add: mark_degraded_program_def mark_recovered_program_def)

lemma connection_emits: "connection p \<Longrightarrow> emits {Degrade, Recover} p"
  unfolding connection_def
proof (elim disjE exE)
  show "p = http_session_program factory \<Longrightarrow> emits {Degrade, Recover} p" for factory
    by (simp add: http_session_program_def emits_marks)
  show "p = connection_program factory serve \<Longrightarrow> emits {Degrade, Recover} p" for factory serve
    by (cases factory; cases serve) (auto simp: connection_program_def emits_marks intro: emits_and_also)
qed

section \<open>Runners and connections\<close>

lemma new_controller:
  "controller_new cap = Inr c \<Longrightarrow> state_of c = Created \<and> \<not> ctl_poisoned c \<and> revision_of c = 0"
  by (auto simp: controller_new_eq split: if_splits)

lemma stays_stopped: "state_of c = Stopped \<Longrightarrow> state_of (controller_run c evs) = Stopped"
  by (induction evs) (simp_all add: accepts_def)

lemma calm_batches:
  assumes "controller_new cap = Inr c" "set (concat bs) \<subseteq> {Degrade, Recover}"
    "length (concat bs) + n < 2 ^ 64"
  shows "calm n \<lparr>w_ctl = c, w_batches = bs\<rparr>"
proof -
  have "list_all mild bs" using assms(2) by (auto simp: list_all_iff mild_def)
  with assms(3) new_controller [OF assms(1)] show ?thesis by (simp add: calm_def)
qed

text \<open>What holds of a runner in every calm world holds of it among connections.\<close>

lemma pool_stops:
  assumes new: "controller_new cap = Inr c" and others: "list_all connection others"
    and calls: "within p n" "n \<le> count_list sch None" and room: "length sch + k < 2 ^ 64"
    and run: "\<And>w. calm k w \<Longrightarrow> world_state w = Created \<Longrightarrow>
      \<exists>v. perform p w = (v, r) \<and> world_state v = Stopped"
  shows "pl_main (pool_run (pool c p others) sch) = Finished r \<and>
    state_of (pl_ctl (pool_run (pool c p others) sch)) = Stopped"
proof -
  let ?s = "pool_run (pool c p others) sch"
  obtain a where a: "pl_main ?s = Finished a"
    using main_finishes [of "pool c p others" n sch] calls by (auto simp: pool_def)
  have "list_all (emits {Degrade, Recover}) others"
    using others by (auto simp: list_all_iff connection_emits)
  then obtain bs w es where w: "perform p \<lparr>w_ctl = c, w_batches = bs\<rparr> = (w, a)"
      "pl_ctl ?s = controller_run (w_ctl w) es" "set (concat bs @ es) \<subseteq> {Degrade, Recover}"
      "length (concat bs @ es) \<le> length sch"
    using pool_is_world [OF _ a] unfolding explained_def by blast
  have "calm k \<lparr>w_ctl = c, w_batches = bs\<rparr>"
    using w(3,4) room by (intro calm_batches [OF new]) auto
  then have "a = r \<and> world_state w = Stopped"
    using run [of "\<lparr>w_ctl = c, w_batches = bs\<rparr>"] new_controller [OF new] w(1) by auto
  with a w(2) show ?thesis by (simp add: stays_stopped)
qed

text \<open>
  A runner together with its own connections needs no assumption on anybody: from a new
  controller, among any number of connection handlers of this program and however their calls
  interleave, once the scheduler has given the stdio, HTTP or WebSocket runner seven turns it
  has returned, with exactly the cause it met, and the lifecycle is stopped and stays so.
\<close>

theorem runners_stop_among_connections:
  assumes "controller_new cap = Inr c" "list_all connection others"
    and "7 \<le> count_list sch None" "length sch + 5 < 2 ^ 64"
    and "http_validate ht hc = Inr ()" "websocket_validate ht wc = Inr ()"
  shows "let a = pool_run (pool c (stdio_program factory serve) others) sch;
      h = pool_run (pool c (http_program ht hc bound serving) others) sch;
      k = pool_run (pool c (websocket_program ht lib wc cancelled bound serving) others) sch
    in pl_main a = Finished (and_then factory (\<lambda>_. stdio_result serve)) \<and>
       pl_main h = Finished (and_then bound (\<lambda>_. serving_result ''HTTP transport shutdown timed out'' serving)) \<and>
       pl_main k = Finished (and_then bound (\<lambda>_. serving_result ''WebSocket transport shutdown timed out'' serving)) \<and>
       state_of (pl_ctl a) = Stopped \<and> state_of (pl_ctl h) = Stopped \<and> state_of (pl_ctl k) = Stopped"
  unfolding Let_def
  using pool_stops [OF assms(1,2) within_stdio assms(3,4)
      stdio_ends [of _ factory serve, folded perform_stdio]]
    pool_stops [OF assms(1,2) within_runners(1) assms(3,4)
      http_ends [OF _ _ assms(5), of _ bound serving, folded perform_http]]
    pool_stops [OF assms(1,2) within_runners(2) assms(3,4)
      websocket_ends [OF _ _ assms(6), of _ lib cancelled bound serving, folded perform_websocket]]
  by blast

lemma tcp_performs:
  assumes "calm (length events + 5) w" "world_state w = Created" "tcp_validate tc = Inr ()"
    "CancellationSeen \<in> set events" "DeadlineFired \<in> set drains"
  shows "\<exists>v. perform (tcp_program lib tc bound events drains w0) w =
    (v, Some (and_then bound (\<lambda>_. loop_result events))) \<and> world_state v = Stopped"
  using tcp_ends [OF assms, of lib bound] perform_tcp [of lib tc bound events drains w w0]
  by (auto split: prod.splits option.splits)

text \<open>
  The same of the TCP runner with its connection tasks: once cancellation and the deadline
  are among the events and the scheduler has given the runner its turns, two for each event of
  the accept loop and six more, it has returned with its cause and the lifecycle is stopped,
  however many connection tasks were or are still reporting.
\<close>

theorem tcp_stops_among_connections:
  assumes "controller_new cap = Inr c" "list_all connection others" "tcp_validate tc = Inr ()"
    and "CancellationSeen \<in> set events" "DeadlineFired \<in> set drains"
    and "2 * length events + 6 \<le> count_list sch None" "length sch + (length events + 5) < 2 ^ 64"
  shows "let s = pool_run (pool c (tcp_program lib tc bound events drains w0) others) sch
    in pl_main s = Finished (Some (and_then bound (\<lambda>_. loop_result events))) \<and>
       state_of (pl_ctl s) = Stopped"
  unfolding Let_def by (rule pool_stops [OF assms(1,2) within_tcp assms(6,7) tcp_performs [OF _ _ assms(3-5)]])

section \<open>Two schedules\<close>

text \<open>A connection that fails while the runner is being cancelled.\<close>

theorem runners_stop_among_connections_witness:
  "let others = [connection_program (Inr ()) TaskFailed, http_session_program (Inl (IoError OtherKind ''x''))];
     sch = [None, None, Some 0, Some 1, None, Some 1, Some 0, None, Some 0, None, None, None]
   in state_of (pl_ctl (pool_run (pool (fresh_controller 4)
        (http_program example_types http_default (Inr ()) (CancelledFirst GraceElapsed)) others) sch)) = Stopped"
proof -
  let ?others = "[connection_program (Inr ()) TaskFailed, http_session_program (Inl (IoError OtherKind ''x''))]"
  let ?sch = "[None, None, Some 0, Some 1, None, Some 1, Some 0, None, Some 0, None, None, None] :: nat option list"
  have "list_all connection ?others" by (auto simp: connection_def)
  moreover have "7 \<le> count_list ?sch None" "length ?sch + 5 < 2 ^ 64" by simp_all
  moreover have "controller_new 4 = Inr (fresh_controller 4)" by (simp add: controller_new_eq)
  ultimately show ?thesis
    using runners_stop_among_connections [OF _ _ _ _ example_defaults_valid(1,2), of 4 "fresh_controller 4"
        ?others ?sch "Inr ()" TaskFinished "Inr ()" "CancelledFirst GraceElapsed" counting_semaphore False]
    unfolding Let_def by blast
qed

theorem tcp_stops_among_connections_witness:
  "let sch = [None, None, None, None, Some 0, None, None, None, None, Some 0, None, None, None, None]
   in pl_main (pool_run (pool (fresh_controller 4)
        (tcp_program counting_semaphore tcp_default (Inr ()) [Accepted 1, TaskEnded 1 True, CancellationSeen]
          [DeadlineFired] (example_world [])) [connection_program (Inr ()) TaskFailed]) sch) =
      Finished (Some (Inr ()))"
proof -
  let ?sch = "[None, None, None, None, Some 0, None, None, None, None, Some 0, None, None, None, None] :: nat option list"
  let ?evs = "[Accepted 1, TaskEnded 1 True, CancellationSeen]"
  have c: "list_all connection [connection_program (Inr ()) TaskFailed]" by (auto simp: connection_def)
  have n: "2 * length ?evs + 6 \<le> count_list ?sch None" "length ?sch + (length ?evs + 5) < 2 ^ 64"
    by simp_all
  have new: "controller_new 4 = Inr (fresh_controller 4)" by (simp add: controller_new_eq)
  have e: "CancellationSeen \<in> set ?evs" "DeadlineFired \<in> set [DeadlineFired]" by simp_all
  have r: "and_then (Inr ()) (\<lambda>_. loop_result ?evs) = Inr ()" by (simp add: loop_result_def)
  note tcp_stops_among_connections [OF new c example_defaults_valid(3) e n, of counting_semaphore "Inr ()"
      "example_world []", unfolded Let_def r]
  then show ?thesis unfolding Let_def by (rule conjunct1)
qed

end
