(* ===== verification/Rely_Guarantee.thy ===== *)
theory Rely_Guarantee
  imports Composition
begin

text \<open>
  Programs among others that only report health. \<open>promises n p c Q\<close> says that program \<open>p\<close>,
  started at controller \<open>c\<close> while other clones report health at any time, ends in a result and
  a lifecycle state that satisfy \<open>Q\<close>. The promise is kept by each call that the program makes
  and by each report of the others, so it is an invariant of every system such a program is
  part of, whoever is started when.
\<close>

definition finished :: "'a program \<Rightarrow> bool" where
  "finished p = (case p of Finished _ \<Rightarrow> True | _ \<Rightarrow> False)"

lemma finished_iff: "finished p \<longleftrightarrow> (\<exists>a. p = Finished a)"
  by (auto simp: finished_def split: program.splits)

lemma finished_simps [simp]: "finished (Finished a)" "\<not> finished (Transit ev k)" "\<not> finished (Look h)"
  by (simp_all add: finished_def)

section \<open>Promises\<close>

definition promises ::
  "nat \<Rightarrow> 'a program \<Rightarrow> controller \<Rightarrow> ('a \<Rightarrow> lifecycle_state \<Rightarrow> bool) \<Rightarrow> bool" where
  "promises n p c Q \<longleftrightarrow> (\<forall>bs. calm n \<lparr>w_ctl = c, w_batches = bs\<rparr> \<longrightarrow>
     (case perform p \<lparr>w_ctl = c, w_batches = bs\<rparr> of (v, a) \<Rightarrow> Q a (world_state v)))"

text \<open>What holds after a program must not be spoilt by a later report of health.\<close>

definition stable :: "('a \<Rightarrow> lifecycle_state \<Rightarrow> bool) \<Rightarrow> bool" where
  "stable Q \<longleftrightarrow> (\<forall>a s t. Q a s \<longrightarrow> kin s t \<longrightarrow> Q a t)"

lemma promisesI:
  assumes "\<And>w. w_ctl w = c \<Longrightarrow> calm n w \<Longrightarrow> \<exists>v a. perform p w = (v, a) \<and> Q a (world_state v)"
  shows "promises n p c Q"
  using assms unfolding promises_def by (metis case_prodI world.select_convs(1))

lemma promisesD:
  "promises n p c Q \<Longrightarrow> calm n \<lparr>w_ctl = c, w_batches = bs\<rparr> \<Longrightarrow>
     perform p \<lparr>w_ctl = c, w_batches = bs\<rparr> = (v, a) \<Longrightarrow> Q a (world_state v)"
  unfolding promises_def by fastforce

lemma promises_Finished:
  "promises n (Finished a) c Q \<longleftrightarrow> (calm n \<lparr>w_ctl = c, w_batches = []\<rparr> \<longrightarrow> Q a (state_of c))"
proof -
  have "calm n \<lparr>w_ctl = c, w_batches = bs\<rparr> \<Longrightarrow> calm n \<lparr>w_ctl = c, w_batches = []\<rparr>" for bs
    by (simp add: calm_def)
  then show ?thesis by (auto simp: promises_def)
qed

lemma promises_weaken: "promises n p c Q \<Longrightarrow> (\<And>a s. Q a s \<Longrightarrow> R a s) \<Longrightarrow> promises n p c R"
  unfolding promises_def by (auto split: prod.splits)

lemma calm_own_call:
  "calm n \<lparr>w_ctl = controller_step c ev, w_batches = bs\<rparr> \<Longrightarrow> calm n \<lparr>w_ctl = c, w_batches = [] # bs\<rparr>"
  by (auto simp: calm_def revision_step mild_def split: if_splits)

lemma advance_controller:
  "snd (advance p c) = c \<or> (\<exists>ev. snd (advance p c) = controller_step c ev)"
  by (cases p) (auto simp: controller_step_def split_beta)

lemma promises_call:
  assumes "promises n p c Q"
  shows "promises n (fst (advance p c)) (snd (advance p c)) Q"
proof (cases "\<exists>b. p = Finished b")
  case False
  show ?thesis
    unfolding promises_def
  proof (intro allI impI)
    fix bs
    assume calm: "calm n \<lparr>w_ctl = snd (advance p c), w_batches = bs\<rparr>"
    have "calm n \<lparr>w_ctl = c, w_batches = [] # bs\<rparr>"
      using advance_controller [of p c]
    proof
      assume "snd (advance p c) = c"
      with calm show ?thesis by (auto simp: calm_def mild_def)
    qed (use calm in \<open>auto intro: calm_own_call\<close>)
    with assms perform_advance [OF False, of c bs]
    show "case perform (fst (advance p c)) \<lparr>w_ctl = snd (advance p c), w_batches = bs\<rparr> of
        (v, a) \<Rightarrow> Q a (world_state v)"
      unfolding promises_def by metis
  qed
qed (use assms in auto)

lemma promises_report:
  assumes "promises n p c Q" "ev \<in> {Degrade, Recover}" "stable Q"
  shows "promises n p (controller_step c ev) Q"
proof (cases "\<exists>a. p = Finished a")
  case True
  have "calm n \<lparr>w_ctl = controller_step c ev, w_batches = []\<rparr> \<Longrightarrow> calm n \<lparr>w_ctl = c, w_batches = []\<rparr>"
    by (auto simp: calm_def revision_step split: if_splits)
  moreover have "kin (state_of c) (state_of (controller_step c ev))" using assms(2) by (rule mild_step)
  ultimately show ?thesis using True assms(1,3) unfolding stable_def by (auto simp: promises_Finished)
next
  case False
  have eq: "perform p \<lparr>w_ctl = c, w_batches = (ev # concat (take 1 bs)) # drop 1 bs\<rparr> =
      perform p \<lparr>w_ctl = controller_step c ev, w_batches = bs\<rparr>" for bs
    using perform_first_batch [OF False, of c ev] perform_no_batch [OF False] by (cases bs) simp_all
  have calm: "calm n \<lparr>w_ctl = c, w_batches = (ev # concat (take 1 bs)) # drop 1 bs\<rparr>"
    if "calm n \<lparr>w_ctl = controller_step c ev, w_batches = bs\<rparr>" "accepts c ev" for bs
    using that assms(2) by (cases bs) (auto simp: calm_def revision_step mild_def)
  show ?thesis
  proof (cases "accepts c ev")
    case True
    with calm assms(1) eq show ?thesis unfolding promises_def by metis
  qed (use assms(1) in simp)
qed

lemma promises_reports:
  assumes "promises n p c Q" "stable Q" "emits {Degrade, Recover} q"
  shows "promises n p (snd (advance q c)) Q"
  using emits_advance [OF assms(3), of c] promises_report [OF assms(1) _ assms(2)] assms(1) by auto

text \<open>A program that goes on with what a first one returned.\<close>

lemma promises_and_also:
  assumes "\<And>w. w_ctl w = c \<Longrightarrow> calm n w \<Longrightarrow>
      \<exists>v a. perform p w = (v, a) \<and> (\<exists>u b. perform (f a) v = (u, b) \<and> Q b (world_state u))"
  shows "promises n (and_also p f) c Q"
proof (rule promisesI)
  fix w assume "w_ctl w = c" "calm n w"
  from assms [OF this] show "\<exists>v a. perform (and_also p f) w = (v, a) \<and> Q a (world_state v)"
    by (auto simp: perform_and_also)
qed

section \<open>What programs spend\<close>

text \<open>
  \<open>spends W p n\<close>: the calls that \<open>p\<close> may still make and the weight \<open>W\<close> of its result add up to
  at most \<open>n\<close>.
\<close>

primrec spends :: "('a \<Rightarrow> nat option) \<Rightarrow> 'a program \<Rightarrow> nat \<Rightarrow> bool" where
  "spends W (Finished a) n = (\<exists>k. W a = Some k \<and> k \<le> n)"
| "spends W (Transit ev k) n = (0 < n \<and> (\<forall>r. spends W (k r) (n - 1)))"
| "spends W (Look k) n = (0 < n \<and> (\<forall>r. spends W (k r) (n - 1)))"

lemma spends_mono: "spends W p n \<Longrightarrow> n \<le> m \<Longrightarrow> spends W p m"
  by (induction p arbitrary: n m) (auto simp: le_diff_conv, (meson diff_le_mono rangeI)+)

lemma spends_within: "spends (\<lambda>_. Some 0) p n = within p n"
  by (induction p arbitrary: n) auto

lemma spends_and_also:
  assumes "within p n" "\<And>a. spends W (f a) m" "n + m \<le> k"
  shows "spends W (and_also p f) k"
  using assms(1,3)
proof (induction p arbitrary: n k)
  case (Finished a)
  then show ?case using assms(2) [of a] by (auto intro: spends_mono)
next
  case (Transit ev h)
  then have "spends W (and_also (h r) f) (k - 1)" for r by (intro Transit.IH [of _ "n - 1"]) auto
  with Transit.prems show ?case by simp
next
  case (Look h)
  then have "spends W (and_also (h r) f) (k - 1)" for r by (intro Look.IH [of _ "n - 1"]) auto
  with Look.prems show ?case by simp
qed

lemma spends_advance:
  "spends W p n \<Longrightarrow> \<nexists>a. p = Finished a \<Longrightarrow> 0 < n \<and> spends W (fst (advance p c)) (n - 1)"
  by (cases p) (auto split: prod.splits)

section \<open>Evaluation of programs\<close>

lemma counting_simps:
  "sem_new counting_semaphore n = n" "sem_release counting_semaphore n = Suc n"
  "sem_try_acquire counting_semaphore n = (if n = 0 then None else Some (n - 1))"
  by (auto simp: counting_semaphore_def split: nat.splits)

lemmas controller_eval = controller_transition_def controller_snapshot_def lock_data_def
  fresh_controller_def INITIAL_def checked_add_u64_def push_audit_def Let_def split_beta

lemmas program_eval = transition_program_def finish_with_program_def finish_program_def try_then_def
  mark_degraded_program_def mark_recovered_program_def in_state_def connection_program_def

end
