(* ===== verification/Tcp_Server.thy ===== *)
theory Tcp_Server
  imports Rely_Guarantee
begin

text \<open>
  The TCP server of \<open>src/transport.rs\<close> as it runs: \<open>run_tcp_ndjson\<close> with the connection tasks it
  spawns into its \<open>JoinSet\<close>. Nothing is fixed in advance: a task exists from the moment its
  connection is accepted until the runner has joined it, and its calls on the shared controller
  interleave with those of the runner and of the other tasks. A run is a list of actions.
\<close>

section \<open>The server\<close>

text \<open>
  Where the runner is between its calls: at the \<open>select!\<close> of the accept loop, in \<open>drain_tasks\<close>
  before and after the deadline, each with the error that ended the loop, or returned.
\<close>

datatype tcp_phase =
    Selecting
  | Joining "io_error option"
  | Aborting "io_error option"
  | Returned "io_error + unit"

text \<open>
  Handlers are numbered in the order of their tasks' creation. \<open>tcs_running\<close> are the tasks that
  still run, \<open>tcs_ended\<close> those that ended and were not joined yet, each with whether its
  \<open>JoinError\<close> is set.
\<close>

record 's tcp_server =
  tcs_ctl :: controller
  tcs_main :: "tcp_phase program"
  tcs_handlers :: "unit program list"
  tcs_running :: "nat list"
  tcs_ended :: "bool list"
  tcs_permits :: 's

datatype tcp_action =
    RunnerCalls
  | HandlerCalls nat
  | HandlerEnds nat bool
  | TaskAborted nat
  | AcceptsConnection "io_error + unit" serve_outcome
  | AcceptFails io_error
  | SeesCancellation
  | JoinsTask
  | DeadlineFires
  | TasksGone

text \<open>The pieces of \<open>run_tcp_ndjson\<close>: up to the loop, from the loop to \<open>drain_tasks\<close>, after it.\<close>

definition tcp_setup :: "tcp_transport_config \<Rightarrow> io_error + unit \<Rightarrow> tcp_phase program" where
  "tcp_setup config bound =
     (case tcp_validate config of
        Inl error \<Rightarrow> Finished (Returned (Inl error))
      | Inr _ \<Rightarrow>
          and_also (transition_program Start) (\<lambda>started.
            case started of
              Inl error \<Rightarrow> Finished (Returned (Inl error))
            | Inr _ \<Rightarrow>
                (case bound of
                   Inl error \<Rightarrow>
                     and_also (finish_with_program (Inl error)) (\<lambda>result. Finished (Returned result))
                 | Inr _ \<Rightarrow>
                     and_also (transition_program Started) (\<lambda>ready.
                       case ready of
                         Inl error \<Rightarrow> Finished (Returned (Inl error))
                       | Inr _ \<Rightarrow> Finished Selecting))))"

definition tcp_leave :: "io_error option \<Rightarrow> tcp_phase program" where
  "tcp_leave live_error =
     and_also (transition_program Drain) (\<lambda>drained.
       case drained of
         Inl error \<Rightarrow> Finished (Returned (Inl error))
       | Inr _ \<Rightarrow> Finished (Joining live_error))"

definition live_result :: "io_error option \<Rightarrow> io_error + unit" where
  "live_result live_error = (case live_error of None \<Rightarrow> Inr () | Some error \<Rightarrow> Inl error)"

definition tcp_close :: "io_error option \<Rightarrow> tcp_phase program" where
  "tcp_close live_error =
     and_also (finish_with_program (live_result live_error)) (\<lambda>result. Finished (Returned result))"

definition tcp_start ::
  "'s semaphore_lib \<Rightarrow> tcp_transport_config \<Rightarrow> io_error + unit \<Rightarrow> controller \<Rightarrow> 's tcp_server" where
  "tcp_start lib config bound c =
     \<lparr>tcs_ctl = c, tcs_main = tcp_setup config bound, tcs_handlers = [], tcs_running = [],
      tcs_ended = [], tcs_permits = sem_new lib (tcp_max_connections config)\<rparr>"

text \<open>
  The tasks are aborted by \<open>abort_all\<close> once the deadline has fired, and when the runner returns
  with tasks left, for it then drops its \<open>JoinSet\<close>.
\<close>

definition aborts_tasks :: "tcp_phase program \<Rightarrow> bool" where
  "aborts_tasks p = (case p of Finished (Aborting _) \<Rightarrow> True | Finished (Returned _) \<Rightarrow> True | _ \<Rightarrow> False)"

text \<open>A task that has ended, with its \<open>JoinError\<close>, no longer holds its permit.\<close>

definition task_ended :: "'s semaphore_lib \<Rightarrow> nat \<Rightarrow> bool \<Rightarrow> 's tcp_server \<Rightarrow> 's tcp_server" where
  "task_ended lib i failed s =
     s\<lparr>tcs_running := remove1 i (tcs_running s), tcs_ended := tcs_ended s @ [failed],
       tcs_permits := sem_release lib (tcs_permits s)\<rparr>"

text \<open>
  One action; \<open>None\<close> where it cannot happen. A task ends by itself when it has served, or fails
  by a panic anywhere; what ends an aborted task needs nothing of the task.
\<close>

fun tcp_act :: "'s semaphore_lib \<Rightarrow> 's tcp_server \<Rightarrow> tcp_action \<Rightarrow> 's tcp_server option" where
  "tcp_act lib s RunnerCalls =
     (if finished (tcs_main s) then None
      else case advance (tcs_main s) (tcs_ctl s) of
             (p, c) \<Rightarrow> Some (s\<lparr>tcs_main := p, tcs_ctl := c\<rparr>))"
| "tcp_act lib s (HandlerCalls i) =
     (if i \<in> set (tcs_running s) \<and> \<not> finished (tcs_handlers s ! i) then
        (case advance (tcs_handlers s ! i) (tcs_ctl s) of
           (p, c) \<Rightarrow> Some (s\<lparr>tcs_handlers := (tcs_handlers s)[i := p], tcs_ctl := c\<rparr>))
      else None)"
| "tcp_act lib s (HandlerEnds i failed) =
     (if i \<in> set (tcs_running s) \<and> (failed \<or> finished (tcs_handlers s ! i))
      then Some (task_ended lib i failed s) else None)"
| "tcp_act lib s (TaskAborted i) =
     (if i \<in> set (tcs_running s) \<and> aborts_tasks (tcs_main s)
      then Some (task_ended lib i True s) else None)"
| "tcp_act lib s (AcceptsConnection factory serve) =
     (case tcs_main s of
        Finished Selecting \<Rightarrow>
          (case sem_try_acquire lib (tcs_permits s) of
             None \<Rightarrow> Some s
           | Some permits \<Rightarrow>
               Some (s\<lparr>tcs_permits := permits,
                       tcs_handlers := tcs_handlers s @ [connection_program factory serve],
                       tcs_running := tcs_running s @ [length (tcs_handlers s)]\<rparr>))
      | _ \<Rightarrow> None)"
| "tcp_act lib s (AcceptFails error) =
     (case tcs_main s of
        Finished Selecting \<Rightarrow>
          Some (s\<lparr>tcs_main := and_also mark_degraded_program (\<lambda>_. tcp_leave (Some error))\<rparr>)
      | _ \<Rightarrow> None)"
| "tcp_act lib s SeesCancellation =
     (case tcs_main s of Finished Selecting \<Rightarrow> Some (s\<lparr>tcs_main := tcp_leave None\<rparr>) | _ \<Rightarrow> None)"
| "tcp_act lib s JoinsTask =
     (case (tcs_main s, tcs_ended s) of
        (Finished Selecting, failed # rest) \<Rightarrow>
          Some (s\<lparr>tcs_ended := rest,
                  tcs_main := and_also (if failed then mark_degraded_program else Finished ())
                    (\<lambda>_. Finished Selecting)\<rparr>)
      | (Finished (Joining _), _ # rest) \<Rightarrow> Some (s\<lparr>tcs_ended := rest\<rparr>)
      | (Finished (Aborting _), _ # rest) \<Rightarrow> Some (s\<lparr>tcs_ended := rest\<rparr>)
      | _ \<Rightarrow> None)"
| "tcp_act lib s DeadlineFires =
     (case tcs_main s of
        Finished (Joining live_error) \<Rightarrow>
          if tcs_running s = [] \<and> tcs_ended s = [] then None
          else Some (s\<lparr>tcs_main := Finished (Aborting live_error)\<rparr>)
      | _ \<Rightarrow> None)"
| "tcp_act lib s TasksGone =
     (if tcs_running s = [] \<and> tcs_ended s = [] then
        (case tcs_main s of
           Finished (Joining live_error) \<Rightarrow> Some (s\<lparr>tcs_main := tcp_close live_error\<rparr>)
         | Finished (Aborting live_error) \<Rightarrow> Some (s\<lparr>tcs_main := tcp_close live_error\<rparr>)
         | _ \<Rightarrow> None)
      else None)"

fun tcp_run :: "'s semaphore_lib \<Rightarrow> 's tcp_server \<Rightarrow> tcp_action list \<Rightarrow> 's tcp_server option" where
  "tcp_run lib s [] = Some s"
| "tcp_run lib s (act # acts) =
     (case tcp_act lib s act of None \<Rightarrow> None | Some s' \<Rightarrow> tcp_run lib s' acts)"

text \<open>What ended the loop, by the first action that does.\<close>

fun tcp_cause :: "tcp_action list \<Rightarrow> (io_error + unit) option" where
  "tcp_cause [] = None"
| "tcp_cause (SeesCancellation # acts) = Some (Inr ())"
| "tcp_cause (AcceptFails error # acts) = Some (Inl error)"
| "tcp_cause (act # acts) = tcp_cause acts"

end
