(* ===== verification/Tcp_Server_Laws.thy ===== *)
theory Tcp_Server_Laws
  imports Tcp_Server
begin

text \<open>
  What every run of the TCP server guarantees: permits are neither lost nor made, the lifecycle
  is where the runner stands, the runner returns exactly the cause and leaves no task behind,
  and it does return once its loop has ended.
\<close>

lemma tcp_run_append:
  "tcp_run lib s (as @ bs) = Option.bind (tcp_run lib s as) (\<lambda>t. tcp_run lib t bs)"
  by (induction as arbitrary: s) (auto split: option.splits)

lemma tcp_run_snoc: "tcp_run lib s (as @ [a]) = Option.bind (tcp_run lib s as) (\<lambda>t. tcp_act lib t a)"
  by (cases "tcp_run lib s as") (auto simp: tcp_run_append split: option.splits)

lemma tcp_cause_append:
  "tcp_cause (as @ bs) = (case tcp_cause as of None \<Rightarrow> tcp_cause bs | Some r \<Rightarrow> Some r)"
  by (induction as rule: tcp_cause.induct) auto

section \<open>Tasks and permits\<close>

definition idle :: "'s tcp_server \<Rightarrow> bool" where
  "idle s \<longleftrightarrow> tcs_running s = [] \<and> tcs_ended s = []"

definition handlers_ok :: "unit program list \<Rightarrow> bool" where
  "handlers_ok hs \<longleftrightarrow> list_all (\<lambda>p. emits {Degrade, Recover} p \<and> within p 4) hs"

definition tasks_ok :: "('s \<Rightarrow> nat) \<Rightarrow> nat \<Rightarrow> 's tcp_server \<Rightarrow> bool" where
  "tasks_ok available n s \<longleftrightarrow> handlers_ok (tcs_handlers s) \<and> distinct (tcs_running s) \<and>
     (\<forall>i \<in> set (tcs_running s). i < length (tcs_handlers s)) \<and>
     length (tcs_running s) + length (tcs_ended s) \<le> length (tcs_handlers s) \<and>
     available (tcs_permits s) + length (tcs_running s) = n"

lemma within_connection: "within (connection_program factory serve) 4"
proof -
  have "within (and_also mark_recovered_program (\<lambda>_. case serve of TaskFailed \<Rightarrow> mark_degraded_program | _ \<Rightarrow> Finished ())) 4"
    by (rule within_and_also [where n = 2 and m = 2])
      (simp_all add: within_mark mark_recovered_program_def split: serve_outcome.splits)
  then show ?thesis by (auto simp: connection_program_def within_mark split: sum.splits)
qed

lemma handlers_ok_spawn: "handlers_ok hs \<Longrightarrow> handlers_ok (hs @ [connection_program factory serve])"
  using connection_emits [of "connection_program factory serve"]
  by (auto simp: handlers_ok_def within_connection connection_def)

lemma handlers_ok_call:
  assumes "handlers_ok hs" "i < length hs"
  shows "handlers_ok (hs[i := fst (advance (hs ! i) c)])"
proof -
  have "emits {Degrade, Recover} (hs ! i) \<and> within (hs ! i) 4" using assms by (simp add: handlers_ok_def list_all_length)
  then have "emits {Degrade, Recover} (fst (advance (hs ! i) c)) \<and> within (fst (advance (hs ! i) c)) 4"
    using emits_advance [of _ "hs ! i" c] within_mono [OF within_advance, of "hs ! i" 4 4] by simp
  with assms(1) show ?thesis
    by (auto simp: handlers_ok_def list_all_iff dest!: set_update_subset_insert [THEN subsetD])
qed

lemma task_ended_simps [simp]:
  "tcs_ctl (task_ended lib i failed s) = tcs_ctl s" "tcs_main (task_ended lib i failed s) = tcs_main s"
  "tcs_handlers (task_ended lib i failed s) = tcs_handlers s"
  "tcs_running (task_ended lib i failed s) = remove1 i (tcs_running s)"
  "tcs_ended (task_ended lib i failed s) = tcs_ended s @ [failed]"
  "tcs_permits (task_ended lib i failed s) = sem_release lib (tcs_permits s)"
  by (simp_all add: task_ended_def)

text \<open>A task's end, however it came about.\<close>

lemma task_end_act:
  assumes "act = HandlerEnds i failed \<or> act = TaskAborted i" "tcp_act lib s act = Some t"
  obtains failed' where "i \<in> set (tcs_running s)" "t = task_ended lib i failed' s"
  using assms by (auto split: if_splits)

lemma tasks_ok_ended:
  assumes "documented_semaphore lib available" "tasks_ok available n s" "i \<in> set (tcs_running s)"
  shows "tasks_ok available n (task_ended lib i failed s)"
proof -
  obtain k where "length (tcs_running s) = Suc k" using assms(3) by (cases "tcs_running s") auto
  with assms show ?thesis
    by (auto simp: tasks_ok_def documented_semaphore_def length_remove1 dest: notin_set_remove1)
qed

lemma tasks_ok_act:
  assumes "documented_semaphore lib available" "tasks_ok available n s" "tcp_act lib s act = Some t"
  shows "tasks_ok available n t"
proof (cases act)
  case (HandlerCalls i)
  with assms(2,3) handlers_ok_call [of "tcs_handlers s" i "tcs_ctl s"] show ?thesis
    by (auto simp: tasks_ok_def split_beta split: if_splits)
next
  case (HandlerEnds i failed)
  then have "act = HandlerEnds i failed \<or> act = TaskAborted i" by simp
  with assms(3) show ?thesis
    by (auto elim!: task_end_act intro!: tasks_ok_ended [OF assms(1,2)] simp del: tcp_act.simps)
next
  case (TaskAborted i)
  then have "act = HandlerEnds i True \<or> act = TaskAborted i" by simp
  with assms(3) show ?thesis
    by (auto elim!: task_end_act intro!: tasks_ok_ended [OF assms(1,2)] simp del: tcp_act.simps)
next
  case (AcceptsConnection factory serve)
  with assms(2,3) acquired [OF assms(1), of "tcs_permits s"] show ?thesis
    by (auto simp: tasks_ok_def handlers_ok_spawn less_Suc_eq
        split: program.splits tcp_phase.splits option.splits)
qed (use assms(2,3) in \<open>auto simp: tasks_ok_def split_beta
    split: program.splits tcp_phase.splits list.splits if_splits\<close>)

section \<open>The lifecycle follows the runner\<close>

definition phase_ok ::
  "io_error + unit \<Rightarrow> (io_error + unit) option \<Rightarrow> bool \<Rightarrow> tcp_phase \<Rightarrow> lifecycle_state \<Rightarrow> bool" where
  "phase_ok bound cause no_tasks phase st =
     (case phase of
        Selecting \<Rightarrow> bound = Inr () \<and> cause = None \<and> kin Ready st
      | Joining live_error \<Rightarrow> bound = Inr () \<and> cause = Some (live_result live_error) \<and> st = Draining
      | Aborting live_error \<Rightarrow> bound = Inr () \<and> cause = Some (live_result live_error) \<and> st = Draining
      | Returned r \<Rightarrow> no_tasks \<and> st = Stopped \<and>
          (if is_ok bound then cause = Some r else r = bound))"

lemma stable_phase_ok: "stable (phase_ok bound cause b)"
  by (auto simp: stable_def phase_ok_def kin_trans split: tcp_phase.splits)

lemma phase_ok_idle: "phase_ok bound cause b phase st \<Longrightarrow> (b \<Longrightarrow> b') \<Longrightarrow> phase_ok bound cause b' phase st"
  by (auto simp: phase_ok_def split: tcp_phase.splits)

lemma tcp_setup_promises:
  assumes "tcp_validate config = Inr ()" "state_of c = Created"
  shows "promises 5 (tcp_setup config bound) c (phase_ok bound None True)"
proof (rule promisesI)
  fix w assume w: "w_ctl w = c" "calm 5 w"
  then obtain v u where v: "lifecycle_transition Start w = (v, Inr ())" "calm 2 v"
      "lifecycle_transition Started v = (u, Inr ())" "calm 3 u" "world_state u = Ready"
    using opened_calm [of 0 w] assms(2) by auto
  show "\<exists>x a. perform (tcp_setup config bound) w = (x, a) \<and> phase_ok bound None True a (world_state x)"
  proof (cases bound)
    case (Inl e)
    with finish_with_calm [OF v(2), of "Inl e"] show ?thesis
      by (auto simp: tcp_setup_def assms(1) perform_simps v phase_ok_def is_ok_def)
  qed (simp add: tcp_setup_def assms(1) perform_simps v phase_ok_def)
qed

lemma leave_performs:
  assumes "calm 4 w" "kin Ready (world_state w)"
  shows "\<exists>v. perform (tcp_leave live) w = (v, Joining live) \<and> world_state v = Draining"
proof -
  have "calm (Suc 3) w" using assms(1) by simp
  then obtain v where "lifecycle_transition Drain w = (v, Inr ())" "world_state v = Draining"
    using assms(2) by (rule drain_calm)
  then show ?thesis by (simp add: tcp_leave_def perform_simps)
qed

lemma close_performs:
  assumes "calm 5 w"
  shows "\<exists>v. perform (tcp_close live) w = (v, Returned (live_result live)) \<and> world_state v = Stopped"
proof -
  have "calm 2 w" using assms by (rule calm_less) simp
  then obtain v where "finish_with (live_result live) w = (v, live_result live)" "world_state v = Stopped"
    using finish_with_calm by blast
  then show ?thesis by (simp add: tcp_close_def perform_simps)
qed

lemma selecting:
  assumes "promises 5 (Finished Selecting) c (phase_ok bound cause b)" "w_ctl w = c" "calm 5 w"
  shows "bound = Inr () \<and> cause = None \<and> kin Ready (world_state w)"
  using assms calm_less [of 5 w] by (auto simp: promises_Finished phase_ok_def calm_def)

definition tcp_inv ::
  "('s \<Rightarrow> nat) \<Rightarrow> nat \<Rightarrow> io_error + unit \<Rightarrow> (io_error + unit) option \<Rightarrow> 's tcp_server \<Rightarrow> bool" where
  "tcp_inv available n bound cause s \<longleftrightarrow> tasks_ok available n s \<and>
     promises 5 (tcs_main s) (tcs_ctl s) (phase_ok bound cause (idle s))"

definition cause_after :: "(io_error + unit) option \<Rightarrow> tcp_action \<Rightarrow> (io_error + unit) option" where
  "cause_after cause act = (case cause of None \<Rightarrow> tcp_cause [act] | Some r \<Rightarrow> Some r)"

lemma cause_after_same: "tcp_cause [act] = None \<Longrightarrow> cause_after cause act = cause"
  by (simp add: cause_after_def split: option.splits)

lemma leaves_promises:
  assumes "promises 5 (Finished Selecting) c (phase_ok bound cause b)"
  shows "promises 5 (tcp_leave None) c (phase_ok bound (cause_after cause SeesCancellation) b)"
    and "promises 5 (and_also mark_degraded_program (\<lambda>_. tcp_leave (Some e))) c
      (phase_ok bound (cause_after cause (AcceptFails e)) b)"
proof -
  note sel = selecting [OF assms]
  show "promises 5 (tcp_leave None) c (phase_ok bound (cause_after cause SeesCancellation) b)"
  proof (rule promisesI)
    fix w assume w: "w_ctl w = c" "calm 5 w"
    with sel leave_performs [of w None] calm_less [of 5 w 4]
    show "\<exists>v a. perform (tcp_leave None) w = (v, a) \<and>
        phase_ok bound (cause_after cause SeesCancellation) b a (world_state v)"
      by (fastforce simp: phase_ok_def cause_after_def live_result_def)
  qed
  show "promises 5 (and_also mark_degraded_program (\<lambda>_. tcp_leave (Some e))) c
      (phase_ok bound (cause_after cause (AcceptFails e)) b)"
  proof (rule promises_and_also)
    fix w assume w: "w_ctl w = c" "calm 5 w"
    have "calm 4 (mark_degraded w)" "kin Ready (world_state (mark_degraded w))"
      using mark_calm [of 4 w] sel [OF w] w(2) by (auto simp: eval_nat_numeral intro: kin_trans)
    with sel [OF w] leave_performs [of "mark_degraded w" "Some e"]
    show "\<exists>v a. perform mark_degraded_program w = (v, a) \<and> (\<exists>u b'. perform (tcp_leave (Some e)) v = (u, b') \<and>
        phase_ok bound (cause_after cause (AcceptFails e)) b b' (world_state u))"
      by (fastforce simp: perform_marks phase_ok_def cause_after_def live_result_def)
  qed
qed

lemma joins_promises:
  assumes "promises 5 (Finished Selecting) c (phase_ok bound cause b)"
  shows "promises 5 (and_also (if failed then mark_degraded_program else Finished ()) (\<lambda>_. Finished Selecting)) c
    (phase_ok bound cause b')"
proof (rule promises_and_also)
  fix w assume w: "w_ctl w = c" "calm 5 w"
  have "kin Ready (world_state (mark_degraded w))"
    using mark_calm [of 4 w] selecting [OF assms w] w(2) by (auto simp: eval_nat_numeral intro: kin_trans)
  with selecting [OF assms w]
  show "\<exists>v a. perform (if failed then mark_degraded_program else Finished ()) w = (v, a) \<and>
      (\<exists>u p. perform (Finished Selecting) v = (u, p) \<and> phase_ok bound cause b' p (world_state u))"
    by (auto simp: perform_marks phase_ok_def)
qed

lemma close_promises:
  assumes "promises 5 (Finished phase) c (phase_ok bound cause b)" "phase = Joining live \<or> phase = Aborting live"
  shows "promises 5 (tcp_close live) c (phase_ok bound cause True)"
proof (rule promisesI)
  fix w assume w: "w_ctl w = c" "calm 5 w"
  then have "calm 5 \<lparr>w_ctl = c, w_batches = []\<rparr>" by (auto simp: calm_def)
  then have "bound = Inr () \<and> cause = Some (live_result live)"
    using assms by (auto simp: promises_Finished phase_ok_def)
  with close_performs [OF w(2), of live]
  show "\<exists>v a. perform (tcp_close live) w = (v, a) \<and> phase_ok bound cause True a (world_state v)"
    by (fastforce simp: phase_ok_def is_ok_def)
qed

lemma tcp_inv_act:
  assumes sem: "documented_semaphore lib available" and inv: "tcp_inv available n bound cause s"
    and act: "tcp_act lib s act = Some t"
  shows "tcp_inv available n bound (cause_after cause act) t"
proof -
  have tasks: "tasks_ok available n t" using tasks_ok_act [OF sem _ act] inv by (simp add: tcp_inv_def)
  have main: "promises 5 (tcs_main s) (tcs_ctl s) (phase_ok bound cause (idle s))"
    and ok: "tasks_ok available n s"
    using inv by (simp_all add: tcp_inv_def)
  have "promises 5 (tcs_main t) (tcs_ctl t) (phase_ok bound (cause_after cause act) (idle t))"
  proof (cases act)
    case RunnerCalls
    with act promises_call [OF main] show ?thesis
      by (auto simp: split_beta idle_def cause_after_same split: if_splits option.splits)
  next
    case (HandlerCalls i)
    then have "emits {Degrade, Recover} (tcs_handlers s ! i)"
      using act ok by (auto simp: tasks_ok_def handlers_ok_def list_all_length split: if_splits)
    with HandlerCalls act promises_reports [OF main stable_phase_ok] show ?thesis
      by (auto simp: split_beta idle_def cause_after_same split: if_splits option.splits)
  next
    case (HandlerEnds i failed)
    with act have "idle s \<longleftrightarrow> idle t" "tcs_main t = tcs_main s" "tcs_ctl t = tcs_ctl s"
      by (auto simp: idle_def split: if_splits)
    with main HandlerEnds show ?thesis by (simp add: cause_after_same)
  next
    case (TaskAborted i)
    with act have "idle s \<longleftrightarrow> idle t" "tcs_main t = tcs_main s" "tcs_ctl t = tcs_ctl s"
      by (auto simp: idle_def split: if_splits)
    with main TaskAborted show ?thesis by (simp add: cause_after_same)
  next
    case (AcceptsConnection factory serve)
    with act have sel: "tcs_main s = Finished Selecting" "tcs_main t = tcs_main s" "tcs_ctl t = tcs_ctl s"
      by (auto split: program.splits tcp_phase.splits option.splits)
    then show ?thesis
      using main AcceptsConnection
      by (auto simp: promises_Finished phase_ok_def cause_after_same)
  next
    case (AcceptFails e)
    with act main leaves_promises(2) [of "tcs_ctl s" bound cause "idle s" e] show ?thesis
      by (auto simp: idle_def split: program.splits tcp_phase.splits)
  next
    case SeesCancellation
    with act main leaves_promises(1) [of "tcs_ctl s" bound cause "idle s"] show ?thesis
      by (auto simp: idle_def split: program.splits tcp_phase.splits)
  next
    case JoinsTask
    have same: "cause_after cause JoinsTask = cause" by (simp add: cause_after_same)
    from act JoinsTask consider
        failed rest where "tcs_main s = Finished Selecting" "t = s\<lparr>tcs_ended := rest,
          tcs_main := and_also (if failed then mark_degraded_program else Finished ()) (\<lambda>_. Finished Selecting)\<rparr>"
      | phase live rest where "tcs_main s = Finished phase" "phase = Joining live \<or> phase = Aborting live"
          "t = s\<lparr>tcs_ended := rest\<rparr>"
      by (auto split: program.splits tcp_phase.splits list.splits)
    then show ?thesis
    proof cases
      case 1
      with main joins_promises [of "tcs_ctl s" bound cause "idle s"] show ?thesis
        unfolding JoinsTask same by simp
    next
      case 2
      with main show ?thesis unfolding JoinsTask same by (auto simp: promises_Finished phase_ok_def)
    qed
  next
    case DeadlineFires
    with act main show ?thesis
      by (auto simp: promises_Finished phase_ok_def cause_after_same
          split: program.splits tcp_phase.splits if_splits option.splits)
  next
    case TasksGone
    have same: "cause_after cause TasksGone = cause" by (simp add: cause_after_same)
    from act TasksGone obtain phase live where "tcs_main s = Finished phase"
        "phase = Joining live \<or> phase = Aborting live" "t = s\<lparr>tcs_main := tcp_close live\<rparr>" "idle s"
      by (auto simp: idle_def split: program.splits tcp_phase.splits if_splits)
    with main close_promises [of phase "tcs_ctl s" bound cause "idle s" live] show ?thesis
      unfolding TasksGone same by (simp add: idle_def)
  qed
  with tasks show ?thesis by (simp add: tcp_inv_def)
qed

lemma tcp_inv_run:
  assumes "documented_semaphore lib available" "tcp_inv available n bound None s"
  shows "tcp_run lib s acts = Some t \<Longrightarrow> tcp_inv available n bound (tcp_cause acts) t"
proof (induction acts arbitrary: t rule: rev_induct)
  case (snoc act acts)
  then obtain u where u: "tcp_run lib s acts = Some u" "tcp_act lib u act = Some t"
    by (auto simp: tcp_run_snoc bind_eq_Some_conv)
  have "tcp_cause (acts @ [act]) = cause_after (tcp_cause acts) act"
    by (simp add: tcp_cause_append cause_after_def)
  with tcp_inv_act [OF assms(1) snoc.IH [OF u(1)] u(2)] show ?case by simp
qed (use assms(2) in simp)

text \<open>Revisions grow by at most one per action, and nobody poisons the lock.\<close>

lemma tcp_act_ctl:
  assumes "tcp_act lib s act = Some t"
  shows "tcs_ctl t = tcs_ctl s \<or> (\<exists>ev. tcs_ctl t = controller_step (tcs_ctl s) ev)"
proof -
  have "tcs_ctl t = tcs_ctl s \<or> tcs_ctl t = snd (advance (tcs_main s) (tcs_ctl s)) \<or>
      (\<exists>i. tcs_ctl t = snd (advance (tcs_handlers s ! i) (tcs_ctl s)))"
    using assms
    by (cases act)
      (auto simp: split_beta split: program.splits tcp_phase.splits list.splits if_splits option.splits)
  then show ?thesis by (metis advance_controller)
qed

lemma tcp_run_room:
  "tcp_run lib s acts = Some t \<Longrightarrow>
     revision_of (tcs_ctl t) \<le> revision_of (tcs_ctl s) + length acts \<and>
     ctl_poisoned (tcs_ctl t) = ctl_poisoned (tcs_ctl s)"
proof (induction acts arbitrary: s)
  case (Cons act acts)
  then obtain u where u: "tcp_act lib s act = Some u" "tcp_run lib u acts = Some t"
    by (auto split: option.splits)
  have "revision_of (tcs_ctl u) \<le> Suc (revision_of (tcs_ctl s)) \<and> ctl_poisoned (tcs_ctl u) = ctl_poisoned (tcs_ctl s)"
    using tcp_act_ctl [OF u(1)] by (auto simp: revision_step)
  with Cons.IH [OF u(2)] show ?case by auto
qed simp

section \<open>Nothing is left behind\<close>

lemma tcp_inv_start:
  assumes "documented_semaphore lib available" "controller_new cap = Inr c" "tcp_validate config = Inr ()"
  shows "tcp_inv available (tcp_max_connections config) bound None (tcp_start lib config bound c)"
  using assms tcp_setup_promises [OF assms(3)] new_controller [OF assms(2)]
  by (simp add: tcp_inv_def tcp_start_def tasks_ok_def handlers_ok_def idle_def documented_semaphore_def)

lemma returned_is_final:
  "tcs_main s = Finished (Returned r) \<Longrightarrow> idle s \<Longrightarrow> tcp_act lib s act = None"
  by (cases act) (auto simp: idle_def)

text \<open>Where the lifecycle stands in each phase, as long as five revisions are left.\<close>

lemma tcp_phase_holds:
  assumes "documented_semaphore lib available" "controller_new cap = Inr c" "tcp_validate config = Inr ()"
    and "tcp_run lib (tcp_start lib config bound c) acts = Some s" "revision_of (tcs_ctl s) + 5 < 2 ^ 64"
    and "tcs_main s = Finished phase"
  shows "phase_ok bound (tcp_cause acts) (idle s) phase (state_of (tcs_ctl s))"
proof -
  have "promises 5 (tcs_main s) (tcs_ctl s) (phase_ok bound (tcp_cause acts) (idle s))"
    using tcp_inv_run [OF assms(1) tcp_inv_start [OF assms(1-3)] assms(4)] by (simp add: tcp_inv_def)
  moreover have "calm 5 \<lparr>w_ctl = tcs_ctl s, w_batches = []\<rparr>"
    using tcp_run_room [OF assms(4)] new_controller [OF assms(2)] assms(5)
    by (simp add: calm_def tcp_start_def)
  ultimately show ?thesis using assms(6) by (simp add: promises_Finished)
qed

text \<open>
  C5. The TCP server keeps its promises in every run, with tasks created as connections come in
  and every interleaving of their calls with the runner's. At any time the free permits and the
  running tasks add up to \<open>max_connections\<close>, and a connection that the loop accepts is given a task
  exactly when fewer than that run, and otherwise changes nothing; the lifecycle is ready or degraded while the runner
  accepts and draining while it waits for its tasks; and when the runner has returned, it has
  returned exactly the cause that ended its loop (or the bind error), the lifecycle is stopped,
  all tasks have been joined and all permits are back, and nothing further can happen.
\<close>

theorem tcp_server_leaves_nothing_behind:
  assumes "documented_semaphore lib available" "controller_new cap = Inr c" "tcp_validate config = Inr ()"
    and "tcp_run lib (tcp_start lib config bound c) acts = Some s" "length acts + 5 < 2 ^ 64"
  shows "available (tcs_permits s) + length (tcs_running s) = tcp_max_connections config \<and>
    (case tcp_act lib s (AcceptsConnection factory serve) of
       None \<Rightarrow> tcs_main s \<noteq> Finished Selecting
     | Some t \<Rightarrow>
         if length (tcs_running s) < tcp_max_connections config
         then tcs_handlers t = tcs_handlers s @ [connection_program factory serve] \<and>
           tcs_running t = tcs_running s @ [length (tcs_handlers s)]
         else t = s) \<and>
    (case tcs_main s of
       Finished Selecting \<Rightarrow> state_of (tcs_ctl s) \<in> {Ready, Degraded} \<and> tcp_cause acts = None
     | Finished (Joining _) \<Rightarrow> state_of (tcs_ctl s) = Draining
     | Finished (Aborting _) \<Rightarrow> state_of (tcs_ctl s) = Draining
     | Finished (Returned r) \<Rightarrow>
         (case bound of Inl error \<Rightarrow> r = Inl error | Inr _ \<Rightarrow> tcp_cause acts = Some r) \<and>
         state_of (tcs_ctl s) = Stopped \<and> tcs_running s = [] \<and> tcs_ended s = [] \<and>
         available (tcs_permits s) = tcp_max_connections config \<and> (\<forall>act. tcp_act lib s act = None)
     | _ \<Rightarrow> True)"
proof -
  have cap: "available (tcs_permits s) + length (tcs_running s) = tcp_max_connections config"
    using tcp_inv_run [OF assms(1) tcp_inv_start [OF assms(1-3)] assms(4)]
    by (simp add: tcp_inv_def tasks_ok_def)
  have "revision_of (tcs_ctl s) + 5 < 2 ^ 64"
    using tcp_run_room [OF assms(4)] new_controller [OF assms(2)] assms(5) by (simp add: tcp_start_def)
  note tcp_phase_holds [OF assms(1-4) this]
  then have phases: "case tcs_main s of
       Finished Selecting \<Rightarrow> state_of (tcs_ctl s) \<in> {Ready, Degraded} \<and> tcp_cause acts = None
     | Finished (Joining _) \<Rightarrow> state_of (tcs_ctl s) = Draining
     | Finished (Aborting _) \<Rightarrow> state_of (tcs_ctl s) = Draining
     | Finished (Returned r) \<Rightarrow>
         (case bound of Inl error \<Rightarrow> r = Inl error | Inr _ \<Rightarrow> tcp_cause acts = Some r) \<and>
         state_of (tcs_ctl s) = Stopped \<and> tcs_running s = [] \<and> tcs_ended s = [] \<and>
         available (tcs_permits s) = tcp_max_connections config \<and> (\<forall>act. tcp_act lib s act = None)
     | _ \<Rightarrow> True"
    using cap returned_is_final [of s _ lib]
    by (auto simp: phase_ok_def idle_def is_ok_def split: program.splits tcp_phase.splits sum.splits)
  have "case tcp_act lib s (AcceptsConnection factory serve) of
       None \<Rightarrow> tcs_main s \<noteq> Finished Selecting
     | Some t \<Rightarrow>
         if length (tcs_running s) < tcp_max_connections config
         then tcs_handlers t = tcs_handlers s @ [connection_program factory serve] \<and>
           tcs_running t = tcs_running s @ [length (tcs_handlers s)]
         else t = s"
    using cap acquired [OF assms(1), of "tcs_permits s"]
    by (auto split: program.splits tcp_phase.splits option.splits)
  with cap phases show ?thesis by (intro conjI)
qed

section \<open>The runner returns\<close>

text \<open>What may still happen once the loop has ended, as a weight of the phases after it.\<close>

definition phase_weight :: "tcp_phase \<Rightarrow> nat option" where
  "phase_weight phase =
     (case phase of Selecting \<Rightarrow> None | Joining _ \<Rightarrow> Some 5 | Aborting _ \<Rightarrow> Some 4 | Returned _ \<Rightarrow> Some 0)"

definition winds :: "nat \<Rightarrow> 's tcp_server \<Rightarrow> bool" where
  "winds n s \<longleftrightarrow> (\<exists>m f. spends phase_weight (tcs_main s) m \<and>
     (\<forall>i \<in> set (tcs_running s). within (tcs_handlers s ! i) (f i)) \<and>
     m + (\<Sum>i \<leftarrow> tcs_running s. f i + 2) + length (tcs_ended s) \<le> n)"

lemma leave_spends: "spends phase_weight (tcp_leave live) 6"
  unfolding tcp_leave_def
  by (rule spends_and_also [where n = 1 and m = 5])
    (simp_all add: within_transition phase_weight_def split: sum.splits)

lemma close_spends: "spends phase_weight (tcp_close live) 3"
  unfolding tcp_close_def
  by (rule spends_and_also [where n = 3 and m = 0]) (simp_all add: within_finish_with phase_weight_def)

lemma sum_list_upd:
  assumes "distinct xs" "i \<in> set xs" "0 < f i"
  shows "(\<Sum>j \<leftarrow> xs. (f(i := f i - 1)) j + 2) + 1 = (\<Sum>j \<leftarrow> xs. f j + (2 :: nat))"
  using assms
proof (induction xs)
  case (Cons x xs)
  have "(\<Sum>j \<leftarrow> xs. (f(i := f i - 1)) j + 2) = (\<Sum>j \<leftarrow> xs. f j + (2 :: nat))" if "i \<notin> set xs"
    using that by (intro arg_cong [where f = sum_list] map_cong) auto
  with Cons show ?case by (cases "x = i") (auto simp del: fun_upd_apply simp: fun_upd_same fun_upd_other)
qed simp

lemma winds_act:
  assumes "winds n s" "tasks_ok available k s" "tcp_act lib s act = Some t"
  shows "0 < n \<and> winds (n - 1) t"
proof -
  obtain m f where w: "spends phase_weight (tcs_main s) m"
      "\<forall>i \<in> set (tcs_running s). within (tcs_handlers s ! i) (f i)"
      "m + (\<Sum>i \<leftarrow> tcs_running s. f i + 2) + length (tcs_ended s) \<le> n"
    using assms(1) by (auto simp: winds_def)
  have go: "0 < n \<and> winds (n - 1) t"
    if "spends phase_weight (tcs_main t) m'" "\<forall>i \<in> set (tcs_running t). within (tcs_handlers t ! i) (g i)"
      "m' + (\<Sum>i \<leftarrow> tcs_running t. g i + 2) + length (tcs_ended t) + 1 \<le> n" for m' g
    using that by (auto simp: winds_def intro!: exI [of _ m'] exI [of _ g])
  have phase: "\<exists>k. phase_weight phase = Some k \<and> k \<le> m" if "tcs_main s = Finished phase" for phase
    using w(1) that by simp
  have ended: "0 < n \<and> winds (n - 1) t" if "i \<in> set (tcs_running s)" "t = task_ended lib i failed s" for i failed
    using w that sum_list_map_remove1 [OF that(1), of "\<lambda>i. f i + 2"]
    by (intro go [of m f]) (auto dest: notin_set_remove1)
  show ?thesis
  proof (cases act)
    case RunnerCalls
    with assms(3) have "\<nexists>a. tcs_main s = Finished a" by (auto simp: finished_iff split: if_splits)
    with spends_advance [OF w(1) this, of "tcs_ctl s"] assms(3) RunnerCalls w show ?thesis
      by (intro go [of "m - 1" f]) (auto simp: split_beta split: if_splits)
  next
    case (HandlerCalls i)
    with assms(3) have i: "i \<in> set (tcs_running s)" "\<not> finished (tcs_handlers s ! i)"
        "t = s\<lparr>tcs_handlers := (tcs_handlers s)[i := fst (advance (tcs_handlers s ! i) (tcs_ctl s))],
           tcs_ctl := snd (advance (tcs_handlers s ! i) (tcs_ctl s))\<rparr>"
      by (auto simp: split_beta split: if_splits)
    have pos: "0 < f i" using w(2) i(1,2) by (metis finished_iff neq0_conv within_zero)
    have "within (tcs_handlers t ! j) ((f(i := f i - 1)) j)" if "j \<in> set (tcs_running s)" for j
      using w(2) that i within_advance [of "tcs_handlers s ! i" "f i"] assms(2)
      by (cases "i = j") (auto simp: tasks_ok_def)
    moreover have "(\<Sum>j \<leftarrow> tcs_running s. (f(i := f i - 1)) j + 2) + 1 = (\<Sum>j \<leftarrow> tcs_running s. f j + 2)"
      using assms(2) i(1) pos by (intro sum_list_upd) (simp add: tasks_ok_def)
    ultimately show ?thesis
      using w by (intro go [of m "f(i := f i - 1)"]) (auto simp: i(3) simp del: fun_upd_apply)
  next
    case (HandlerEnds i failed)
    with assms(3) ended show ?thesis by (auto split: if_splits)
  next
    case (TaskAborted i)
    with assms(3) ended show ?thesis by (auto split: if_splits)
  next
    case DeadlineFires
    with assms(3) w phase show ?thesis
      by (intro go [of "m - 1" f])
        (auto simp: phase_weight_def split: program.splits tcp_phase.splits if_splits)
  next
    case TasksGone
    with assms(3) obtain phase live where t: "tcs_main s = Finished phase"
        "phase = Joining live \<or> phase = Aborting live" "t = s\<lparr>tcs_main := tcp_close live\<rparr>"
      by (auto split: program.splits tcp_phase.splits if_splits)
    with w phase [of phase] close_spends [of live] show ?thesis
      by (intro go [of 3 f]) (auto simp: phase_weight_def)
  next
    case JoinsTask
    with assms(3) phase obtain failed rest where t: "tcs_ended s = failed # rest" "t = s\<lparr>tcs_ended := rest\<rparr>"
      by (auto simp: phase_weight_def split: program.splits tcp_phase.splits list.splits)
    with w show ?thesis by (intro go [of m f]) auto
  qed (use assms(3) phase in \<open>auto simp: phase_weight_def split: program.splits tcp_phase.splits\<close>)
qed

lemma winds_run:
  assumes "documented_semaphore lib available"
  shows "winds n s \<Longrightarrow> tasks_ok available k s \<Longrightarrow> tcp_run lib s acts = Some t \<Longrightarrow>
    length acts \<le> n \<and> winds (n - length acts) t \<and> tasks_ok available k t"
proof (induction acts arbitrary: n s)
  case (Cons act acts)
  then obtain u where u: "tcp_act lib s act = Some u" "tcp_run lib u acts = Some t"
    by (auto split: option.splits)
  with Cons winds_act [OF Cons.prems(1,2) u(1)] tasks_ok_act [OF assms Cons.prems(2) u(1)]
  have "length acts \<le> n - 1 \<and> winds (n - 1 - length acts) t \<and> tasks_ok available k t" by blast
  with winds_act [OF Cons.prems(1,2) u(1)] show ?case by auto
qed simp

lemma tcp_run_tasks:
  assumes "documented_semaphore lib available"
  shows "tcp_run lib (tcp_start lib config bound c) acts = Some s \<Longrightarrow>
    tasks_ok available (tcp_max_connections config) s"
proof (induction acts arbitrary: s rule: rev_induct)
  case Nil
  then show ?case using assms by (auto simp: tcp_start_def tasks_ok_def handlers_ok_def documented_semaphore_def)
next
  case (snoc act acts)
  then show ?case using tasks_ok_act [OF assms] by (auto simp: tcp_run_snoc bind_eq_Some_conv)
qed

lemma handlers_grow:
  "tcp_run lib s acts = Some t \<Longrightarrow> length (tcs_handlers s) \<le> length (tcs_handlers t)"
proof (induction acts arbitrary: s)
  case (Cons act acts)
  then obtain u where u: "tcp_act lib s act = Some u" "tcp_run lib u acts = Some t"
    by (auto split: option.splits)
  have "length (tcs_handlers s) \<le> length (tcs_handlers u)"
    using u(1) by (cases act)
      (auto simp: split_beta split: program.splits tcp_phase.splits list.splits if_splits option.splits)
  with Cons.IH [OF u(2)] show ?case by simp
qed simp

text \<open>Tasks weigh six each: four calls, the end and the join.\<close>

lemma leaving_winds:
  assumes "tasks_ok available k s" "tcp_act lib s leave = Some t"
    and "leave = SeesCancellation \<or> leave = AcceptFails e"
  shows "winds (8 + 6 * length (tcs_handlers t)) t"
proof -
  have t: "tcs_running t = tcs_running s" "tcs_ended t = tcs_ended s" "tcs_handlers t = tcs_handlers s"
    using assms(2,3) by (auto split: program.splits tcp_phase.splits)
  have "spends phase_weight (and_also mark_degraded_program (\<lambda>_. tcp_leave (Some e))) 8"
    by (rule spends_and_also [where n = 2 and m = 6]) (simp_all add: within_mark leave_spends)
  then have main: "spends phase_weight (tcs_main t) 8"
    using assms(2,3) spends_mono [OF leave_spends, of 8 None]
    by (auto split: program.splits tcp_phase.splits)
  have "\<forall>i \<in> set (tcs_running t). within (tcs_handlers t ! i) 4"
    using assms(1) by (auto simp: t tasks_ok_def handlers_ok_def list_all_length)
  moreover have "8 + (\<Sum>i \<leftarrow> tcs_running t. 4 + 2) + length (tcs_ended t) \<le> 8 + 6 * length (tcs_handlers t)"
    using assms(1) by (simp add: t tasks_ok_def sum_list_triv)
  ultimately show ?thesis using main unfolding winds_def by (intro exI [of _ 8] exI [of _ "\<lambda>_. 4"]) simp
qed

text \<open>
  What needs no task to do anything: the runner's own actions, the deadline, and the end of a
  task that has been aborted.
\<close>

fun unaided :: "tcp_action \<Rightarrow> bool" where
  "unaided RunnerCalls = True"
| "unaided JoinsTask = True"
| "unaided TasksGone = True"
| "unaided DeadlineFires = True"
| "unaided (TaskAborted _) = True"
| "unaided _ = False"

lemma never_stuck:
  assumes "winds n s"
  shows "(\<exists>r. tcs_main s = Finished (Returned r)) \<or> (\<exists>act. unaided act \<and> tcp_act lib s act \<noteq> None)"
proof (cases "finished (tcs_main s)")
  case True
  then obtain phase where phase: "tcs_main s = Finished phase" by (auto simp: finished_iff)
  with assms have "phase \<noteq> Selecting" by (auto simp: winds_def phase_weight_def)
  then consider r where "phase = Returned r"
    | "tcp_act lib s TasksGone \<noteq> None" | "tcp_act lib s DeadlineFires \<noteq> None"
    | "tcp_act lib s JoinsTask \<noteq> None" | "tcp_act lib s (TaskAborted (hd (tcs_running s))) \<noteq> None"
    using phase
    by (cases phase; cases "tcs_ended s"; cases "tcs_running s") (auto simp: aborts_tasks_def)
  then show ?thesis by cases (use phase unaided.simps in blast)+
next
  case False
  then have "tcp_act lib s RunnerCalls \<noteq> None" by (auto split: prod.splits)
  then show ?thesis using unaided.simps(1) by blast
qed

text \<open>
  The TCP runner returns. From the moment its loop ends, by cancellation or a failed accept,
  at most eight further actions of its own and six for each connection ever accepted are
  possible, in any order and whatever the tasks do; and until it has returned it is never stuck
  and never at the mercy of a task: a call of its own, the deadline, the end of an aborted task
  or a join is possible.
\<close>

theorem tcp_server_winds_down:
  assumes "documented_semaphore lib available"
    and "tcp_run lib (tcp_start lib config bound c) (before @ leave # after) = Some s"
    and "leave = SeesCancellation \<or> leave = AcceptFails e"
  shows "length after \<le> 8 + 6 * length (tcs_handlers s) \<and>
    ((\<exists>r. tcs_main s = Finished (Returned r)) \<or> (\<exists>act. unaided act \<and> tcp_act lib s act \<noteq> None))"
proof -
  obtain t u where t: "tcp_run lib (tcp_start lib config bound c) before = Some t"
      "tcp_act lib t leave = Some u" "tcp_run lib u after = Some s"
    using assms(2) by (auto simp: tcp_run_append bind_eq_Some_conv split: option.splits)
  have ok: "tasks_ok available (tcp_max_connections config) t" by (rule tcp_run_tasks [OF assms(1) t(1)])
  then have "winds (8 + 6 * length (tcs_handlers u)) u" using t(2) assms(3) by (rule leaving_winds)
  then have "length after \<le> 8 + 6 * length (tcs_handlers u) \<and> winds (8 + 6 * length (tcs_handlers u) - length after) s"
    using winds_run [OF assms(1) _ tasks_ok_act [OF assms(1) ok t(2)] t(3)] by blast
  with handlers_grow [OF t(3)] never_stuck [of _ s lib] show ?thesis by auto
qed

section \<open>A run\<close>

text \<open>
  Two connections: the first one's task panics and degrades the lifecycle, the second one is
  still running when the deadline fires.
\<close>

definition example_actions :: "tcp_action list" where
  "example_actions =
     [RunnerCalls, RunnerCalls, AcceptsConnection (Inr ()) TaskFinished, HandlerCalls 0,
      AcceptsConnection (Inr ()) TaskFailed, HandlerEnds 0 True, HandlerCalls 1, JoinsTask,
      RunnerCalls, RunnerCalls, SeesCancellation, RunnerCalls, DeadlineFires, HandlerCalls 1,
      TaskAborted 1, JoinsTask, TasksGone, RunnerCalls, RunnerCalls]"

lemma default_cap: "tcp_max_connections tcp_default = 64"
  by (simp add: tcp_default_def tcp_for_bind_def DEFAULT_MAX_CONNECTIONS_def)

lemmas tcp_eval = controller_eval program_eval tcp_start_def tcp_setup_def tcp_leave_def tcp_close_def
  live_result_def aborts_tasks_def counting_simps default_cap example_defaults_valid

lemma example_run:
  "case tcp_run counting_semaphore (tcp_start counting_semaphore tcp_default (Inr ()) (fresh_controller 8))
      example_actions of
     None \<Rightarrow> False
   | Some s \<Rightarrow> (case tcs_main s of Finished (Returned r) \<Rightarrow> is_ok r | _ \<Rightarrow> False)"
  by (simp add: example_actions_def tcp_eval)

theorem tcp_server_leaves_nothing_behind_witness:
  "\<exists>s. tcp_run counting_semaphore (tcp_start counting_semaphore tcp_default (Inr ()) (fresh_controller 8))
      example_actions = Some s \<and> state_of (tcs_ctl s) = Stopped \<and>
    (\<forall>act. tcp_act counting_semaphore s act = None)"
proof -
  obtain s where s: "tcp_run counting_semaphore
      (tcp_start counting_semaphore tcp_default (Inr ()) (fresh_controller 8)) example_actions = Some s"
      "\<exists>r. tcs_main s = Finished (Returned r)"
    using example_run by (auto split: option.splits program.splits tcp_phase.splits)
  have "controller_new 8 = Inr (fresh_controller 8)" by (simp add: controller_new_eq)
  then show ?thesis
    using tcp_server_leaves_nothing_behind [OF counting_documented _ example_defaults_valid(3) s(1)] s
    by (auto simp: example_actions_def)
qed

theorem tcp_server_winds_down_witness:
  "\<exists>s. tcp_run counting_semaphore (tcp_start counting_semaphore tcp_default (Inr ()) (fresh_controller 8))
      (take 10 example_actions @ SeesCancellation # drop 11 example_actions) = Some s \<and>
    length (drop 11 example_actions) \<le> 8 + 6 * length (tcs_handlers s)"
proof -
  have split: "take 10 example_actions @ SeesCancellation # drop 11 example_actions = example_actions"
    by (simp add: example_actions_def)
  obtain s where s: "tcp_run counting_semaphore
      (tcp_start counting_semaphore tcp_default (Inr ()) (fresh_controller 8)) example_actions = Some s"
    using example_run by (auto split: option.splits)
  then have run: "tcp_run counting_semaphore (tcp_start counting_semaphore tcp_default (Inr ()) (fresh_controller 8))
      (take 10 example_actions @ SeesCancellation # drop 11 example_actions) = Some s"
    by (simp only: split)
  have "length (drop 11 example_actions) \<le> 8 + 6 * length (tcs_handlers s)"
    using tcp_server_winds_down [OF counting_documented run disjI1 [OF HOL.refl]] by (rule conjunct1)
  with run show ?thesis by blast
qed

end
