(* ===== verification/Tcp_Refinement.thy ===== *)
theory Tcp_Refinement
  imports Tcp_Server_Laws
begin

text \<open>
  The TCP server implements the sequential account of its runner. What the runner of
  \<open>Tcp_Server\<close> does among the tasks that it spawns is what \<open>run_tcp_ndjson\<close> of \<open>Runners\<close> does
  when its accept loop meets the events of the run, in a world where the other clones do what
  the tasks did. So what is proved of \<open>run_tcp_ndjson\<close> in worlds of health reports holds of the
  server.
\<close>

section \<open>What a run looks like to the loop\<close>

definition act_events :: "'s tcp_server \<Rightarrow> tcp_action \<Rightarrow> accept_event list" where
  "act_events s act =
     (case act of
        HandlerEnds i failed \<Rightarrow> [TaskEnded i failed]
      | AcceptsConnection _ _ \<Rightarrow> [Accepted (length (tcs_handlers s))]
      | AcceptFails error \<Rightarrow> [AcceptFailed error]
      | SeesCancellation \<Rightarrow> [CancellationSeen]
      | JoinsTask \<Rightarrow> (case tcs_main s of Finished Selecting \<Rightarrow> [JoinReady] | _ \<Rightarrow> [])
      | _ \<Rightarrow> [])"

definition act_drains :: "'s tcp_server \<Rightarrow> tcp_action \<Rightarrow> drain_event list" where
  "act_drains s act =
     (case act of
        DeadlineFires \<Rightarrow> [DeadlineFired]
      | JoinsTask \<Rightarrow> (case tcs_main s of Finished (Joining _) \<Rightarrow> [TaskJoined] | _ \<Rightarrow> [])
      | _ \<Rightarrow> [])"

definition act_spawns :: "'s semaphore_lib \<Rightarrow> 's tcp_server \<Rightarrow> tcp_action \<Rightarrow> unit program list" where
  "act_spawns lib s act =
     (case act of
        AcceptsConnection factory serve \<Rightarrow>
          (case sem_try_acquire lib (tcs_permits s) of
             None \<Rightarrow> [] | Some _ \<Rightarrow> [connection_program factory serve])
      | _ \<Rightarrow> [])"

definition act_turns :: "'s tcp_server \<Rightarrow> tcp_action \<Rightarrow> nat option list" where
  "act_turns s act = (case act of RunnerCalls \<Rightarrow> [None] | HandlerCalls i \<Rightarrow> [Some i] | _ \<Rightarrow> [])"

fun along ::
  "('s tcp_server \<Rightarrow> tcp_action \<Rightarrow> 'x list) \<Rightarrow> 's semaphore_lib \<Rightarrow> 's tcp_server \<Rightarrow> tcp_action list \<Rightarrow> 'x list" where
  "along f lib s [] = []"
| "along f lib s (act # acts) =
     f s act @ (case tcp_act lib s act of None \<Rightarrow> [] | Some t \<Rightarrow> along f lib t acts)"

lemma along_length: "(\<And>s act. length (f s act) \<le> 1) \<Longrightarrow> length (along f lib s acts) \<le> length acts"
proof (induction acts arbitrary: s)
  case (Cons act acts)
  have "length (f s act) \<le> 1" by (rule Cons.prems)
  moreover have "length (along f lib t acts) \<le> length acts" for t using Cons.prems by (rule Cons.IH)
  ultimately show ?case by (auto split: option.splits) (metis One_nat_def add_mono plus_1_eq_Suc)
qed simp

lemma one_each: "length (act_events s act) \<le> 1" "length (act_turns s act) \<le> 1"
  by (simp_all add: act_events_def act_turns_def split: tcp_action.splits program.splits tcp_phase.splits)

lemma spawns_connections: "list_all connection (along (act_spawns lib) lib s acts)"
proof (induction acts arbitrary: s)
  case (Cons act acts)
  have "list_all connection (act_spawns lib s act)"
    by (auto simp: act_spawns_def connection_def split: tcp_action.splits option.splits)
  with Cons show ?case by (simp split: option.splits)
qed simp

section \<open>The program of the sequential account\<close>

lemma and_also_assoc: "and_also (and_also p f) g = and_also p (\<lambda>a. and_also (f a) g)"
  by (induction p) auto

lemma advance_and_also:
  "\<not> finished p \<Longrightarrow> advance (and_also p f) c = (and_also (fst (advance p c)) f, snd (advance p c))"
  by (cases p) (auto simp: split_beta)

definition view :: "world \<Rightarrow> 's tcp_server \<Rightarrow> 's accept_state" where
  "view w s = \<lparr>as_permits = tcs_permits s, as_running = tcs_running s, as_ended = tcs_ended s,
     as_world = w, as_live_error = None\<rparr>"

definition closing :: "io_error option \<Rightarrow> (io_error + unit) option program" where
  "closing live = and_also (finish_with_program (live_result live)) (\<lambda>r. Finished (Some r))"

definition goes_on ::
  "'s semaphore_lib \<Rightarrow> world \<Rightarrow> accept_event list \<Rightarrow> drain_event list \<Rightarrow> 's tcp_server \<Rightarrow> tcp_phase \<Rightarrow>
     (io_error + unit) option program" where
  "goes_on lib w events drains s phase =
     (case phase of
        Selecting \<Rightarrow> and_also (accept_program lib (view w s) events)
          (\<lambda>out. case out of None \<Rightarrow> Finished None | Some t \<Rightarrow> drained_program t drains)
      | Joining live \<Rightarrow>
          (case drain_tasks (length (tcs_running s) + length (tcs_ended s)) drains of
             None \<Rightarrow> Finished None | Some _ \<Rightarrow> closing live)
      | Aborting live \<Rightarrow> closing live
      | Returned r \<Rightarrow> Finished (Some r))"

definition rest_of ::
  "'s semaphore_lib \<Rightarrow> world \<Rightarrow> accept_event list \<Rightarrow> drain_event list \<Rightarrow> 's tcp_server \<Rightarrow>
     (io_error + unit) option program" where
  "rest_of lib w events drains s = and_also (tcs_main s) (goes_on lib w events drains s)"

lemma leave_goes_on:
  assumes "as_live_error t = live"
    and "length (as_running t) + length (as_ended t) = length (tcs_running s) + length (tcs_ended s)"
  shows "and_also (tcp_leave live) (goes_on lib w events drains s) = drained_program t drains"
  unfolding tcp_leave_def drained_program_def and_also_assoc
  by (rule arg_cong [where f = "and_also (transition_program Drain)"])
    (auto simp: fun_eq_iff goes_on_def closing_def live_result_def assms split: sum.splits option.splits)

lemma close_goes_on: "and_also (tcp_close live) (goes_on lib w events drains s) = closing live"
  unfolding tcp_close_def closing_def and_also_assoc by (simp add: goes_on_def)

lemma start_rest:
  "rest_of lib w events drains (tcp_start lib config bound c) = tcp_program lib config bound events drains w"
  unfolding rest_of_def tcp_program_def
  by (auto simp: tcp_start_def tcp_setup_def and_also_assoc goes_on_def fun_eq_iff view_def accept_start_def
      intro!: arg_cong [where f = "and_also (transition_program Start)"]
        arg_cong [where f = "and_also (transition_program Started)"] split: sum.splits)

section \<open>The simulation\<close>

lemma ends_goes_on:
  assumes "tcp_act lib s (HandlerEnds i failed) = Some t"
  shows "goes_on lib w (TaskEnded i failed # events) drains s = goes_on lib w events drains t"
proof
  fix phase
  have t: "i \<in> set (tcs_running s)" "t = task_ended lib i failed s"
    using assms by (auto split: if_splits)
  then obtain k where "length (tcs_running s) = Suc k" by (cases "tcs_running s") auto
  with t show "goes_on lib w (TaskEnded i failed # events) drains s phase = goes_on lib w events drains t phase"
    by (cases phase) (simp_all add: goes_on_def view_def length_remove1)
qed

lemma act_simulated:
  assumes ok: "tasks_ok available n s" and act: "tcp_act lib s act = Some t"
  shows "pool_run (pool (tcs_ctl s)
       (rest_of lib w (act_events s act @ events) (act_drains s act @ drains) s)
       (tcs_handlers s @ act_spawns lib s act @ others)) (act_turns s act) =
     pool (tcs_ctl t) (rest_of lib w events drains t) (tcs_handlers t @ others)"
proof (cases act)
  case RunnerCalls
  with act show ?thesis
    by (auto simp: act_events_def act_drains_def act_spawns_def act_turns_def pool_def rest_of_def
        advance_and_also goes_on_def [abs_def] view_def split_beta split: if_splits)
next
  case (HandlerCalls i)
  then have "i < length (tcs_handlers s)" using act ok by (auto simp: tasks_ok_def split: if_splits)
  with HandlerCalls act show ?thesis
    by (auto simp: act_events_def act_drains_def act_spawns_def act_turns_def pool_def rest_of_def
        goes_on_def [abs_def] view_def nth_append list_update_append split_beta split: if_splits)
next
  case (HandlerEnds i failed)
  with act ends_goes_on [of lib s i failed t w events drains] show ?thesis
    by (auto simp: act_events_def act_drains_def act_spawns_def act_turns_def pool_def rest_of_def
        split: if_splits)
next
  case (TaskAborted i)
  with act show ?thesis
    by (auto simp: act_events_def act_drains_def act_spawns_def act_turns_def pool_def rest_of_def
        aborts_tasks_def goes_on_def split: program.splits tcp_phase.splits if_splits)
next
  case (AcceptsConnection factory serve)
  with act show ?thesis
    by (auto simp: act_events_def act_drains_def act_spawns_def act_turns_def pool_def rest_of_def
        goes_on_def view_def split: program.splits tcp_phase.splits option.splits)
next
  case (AcceptFails error)
  with act have t: "tcs_main s = Finished Selecting"
      "t = s\<lparr>tcs_main := and_also mark_degraded_program (\<lambda>_. tcp_leave (Some error))\<rparr>"
    by (auto split: program.splits tcp_phase.splits)
  have "and_also (tcp_leave (Some error)) (goes_on lib w events drains t) =
      drained_program ((view w s)\<lparr>as_live_error := Some error\<rparr>) drains"
    by (rule leave_goes_on) (simp_all add: view_def t(2))
  with AcceptFails t show ?thesis
    by (simp add: act_events_def act_drains_def act_spawns_def act_turns_def pool_def rest_of_def
        goes_on_def [of _ _ _ _ _ Selecting] and_also_assoc)
next
  case SeesCancellation
  with act have t: "tcs_main s = Finished Selecting" "t = s\<lparr>tcs_main := tcp_leave None\<rparr>"
    by (auto split: program.splits tcp_phase.splits)
  have "and_also (tcp_leave None) (goes_on lib w events drains t) = drained_program (view w s) drains"
    by (rule leave_goes_on) (simp_all add: view_def t(2))
  with SeesCancellation t show ?thesis
    by (simp add: act_events_def act_drains_def act_spawns_def act_turns_def pool_def rest_of_def
        goes_on_def [of _ _ _ _ _ Selecting])
next
  case JoinsTask
  with act show ?thesis
    by (auto simp: act_events_def act_drains_def act_spawns_def act_turns_def pool_def rest_of_def
        goes_on_def view_def and_also_assoc split: program.splits tcp_phase.splits list.splits)
next
  case DeadlineFires
  with act obtain live where t: "tcs_main s = Finished (Joining live)"
      "t = s\<lparr>tcs_main := Finished (Aborting live)\<rparr>" "0 < length (tcs_running s) + length (tcs_ended s)"
    by (auto split: program.splits tcp_phase.splits if_splits)
  with DeadlineFires show ?thesis
    by (cases "length (tcs_running s) + length (tcs_ended s)")
      (simp_all add: act_events_def act_drains_def act_spawns_def act_turns_def pool_def rest_of_def goes_on_def)
next
  case TasksGone
  with act close_goes_on [of _ lib w events drains t] show ?thesis
    by (auto simp: act_events_def act_drains_def act_spawns_def act_turns_def pool_def rest_of_def
        goes_on_def [of _ _ _ _ _ "Joining _"] goes_on_def [of _ _ _ _ _ "Aborting _"]
        split: program.splits tcp_phase.splits if_splits)
qed

lemma run_simulated:
  assumes "documented_semaphore lib available"
  shows "tasks_ok available n s \<Longrightarrow> tcp_run lib s acts = Some t \<Longrightarrow>
    pool_run (pool (tcs_ctl s)
        (rest_of lib w (along act_events lib s acts @ events) (along act_drains lib s acts @ drains) s)
        (tcs_handlers s @ along (act_spawns lib) lib s acts)) (along act_turns lib s acts) =
      pool (tcs_ctl t) (rest_of lib w events drains t) (tcs_handlers t)"
proof (induction acts arbitrary: s)
  case (Cons act acts)
  then obtain u where u: "tcp_act lib s act = Some u" "tcp_run lib u acts = Some t"
    by (auto split: option.splits)
  have "tasks_ok available n u" by (rule tasks_ok_act [OF assms Cons.prems(1) u(1)])
  note Cons.IH [OF this u(2)]
  moreover note act_simulated [OF Cons.prems(1) u(1), of w "along act_events lib u acts @ events"
      "along act_drains lib u acts @ drains" "along (act_spawns lib) lib u acts"]
  ultimately show ?case using u(1) by (simp add: pool_run_def)
qed simp

text \<open>
  C10. The server refines the sequential runner. Whatever the controller it starts from, when the
  runner has returned, the sequential \<open>run_tcp_ndjson\<close> returns the same from the same
  controller, given the events that the run showed to the accept loop and to the drain and some
  world whose other clones report health at most as often as the run has actions; and the
  controller is as that world leaves it.
\<close>

theorem tcp_server_refines_runner:
  assumes "documented_semaphore lib available"
    and run: "tcp_run lib (tcp_start lib config bound c) acts = Some s"
    and returned: "tcs_main s = Finished (Returned r)"
  shows "\<exists>bs es w. let start = tcp_start lib config bound c in
    run_tcp_ndjson lib config bound (along act_events lib start acts) (along act_drains lib start acts)
        \<lparr>w_ctl = c, w_batches = bs\<rparr> = Some (w, r) \<and>
      tcs_ctl s = controller_run (w_ctl w) es \<and> list_all mild (es # bs) \<and>
      length (concat bs @ es) \<le> length acts"
proof -
  let ?s = "tcp_start lib config bound c" and ?w = "\<lparr>w_ctl = c, w_batches = []\<rparr>"
  let ?evs = "along act_events lib ?s acts" and ?ds = "along act_drains lib ?s acts"
    and ?hs = "along (act_spawns lib) lib ?s acts" and ?sch = "along act_turns lib ?s acts"
  have "tasks_ok available (tcp_max_connections config) ?s" by (rule tcp_run_tasks [OF assms(1), where acts = "[]"]) simp
  from run_simulated [OF assms(1) this run, of ?w "[]" "[]"]
  have "pool_run (pool c (tcp_program lib config bound ?evs ?ds ?w) ?hs) ?sch =
      pool (tcs_ctl s) (Finished (Some r)) (tcs_handlers s)"
    unfolding append_Nil2 start_rest by (simp add: tcp_start_def rest_of_def returned goes_on_def)
  moreover have "list_all (emits {Degrade, Recover}) ?hs"
    using spawns_connections [of lib ?s acts] by (auto simp: list_all_iff connection_emits)
  ultimately have "explained {Degrade, Recover} (length ?sch) c (tcp_program lib config bound ?evs ?ds ?w) (Some r) (tcs_ctl s)"
    using pool_is_world [of "{Degrade, Recover}" ?hs c "tcp_program lib config bound ?evs ?ds ?w" ?sch "Some r"]
    by (simp add: pool_def)
  then obtain bs v es where e: "perform (tcp_program lib config bound ?evs ?ds ?w) \<lparr>w_ctl = c, w_batches = bs\<rparr> = (v, Some r)"
      "tcs_ctl s = controller_run (w_ctl v) es" "set (concat bs @ es) \<subseteq> {Degrade, Recover}"
      "length (concat bs @ es) \<le> length ?sch"
    unfolding explained_def by blast
  have "length ?sch \<le> length acts" by (rule along_length) (rule one_each)
  moreover have "list_all mild (es # bs)" using e(3) by (auto simp: list_all_iff mild_def)
  moreover have "run_tcp_ndjson lib config bound ?evs ?ds \<lparr>w_ctl = c, w_batches = bs\<rparr> = Some (v, r)"
    using perform_tcp [of lib config bound ?evs ?ds "\<lparr>w_ctl = c, w_batches = bs\<rparr>" ?w] e(1) by simp
  ultimately show ?thesis using e(2,4) unfolding Let_def by (intro exI [of _ bs] exI [of _ es] exI [of _ v]) simp
qed

theorem tcp_server_refines_runner_witness:
  "\<exists>bs w r. let start = tcp_start counting_semaphore tcp_default (Inr ()) (fresh_controller 8) in
    run_tcp_ndjson counting_semaphore tcp_default (Inr ()) (along act_events counting_semaphore start example_actions)
      (along act_drains counting_semaphore start example_actions)
      \<lparr>w_ctl = fresh_controller 8, w_batches = bs\<rparr> = Some (w, r)"
proof -
  obtain s r where "tcp_run counting_semaphore
      (tcp_start counting_semaphore tcp_default (Inr ()) (fresh_controller 8)) example_actions = Some s"
      "tcs_main s = Finished (Returned r)"
    using example_run by (auto split: option.splits program.splits tcp_phase.splits)
  from tcp_server_refines_runner [OF counting_documented this] show ?thesis unfolding Let_def by blast
qed

end
