(* ===== verification/Websocket_Sessions.thy ===== *)
theory Websocket_Sessions
  imports Runners_Laws
begin

text \<open>
  The WebSocket server of \<open>src/transport.rs\<close> over time: handshakes, the sessions they are
  upgraded to, and the permits that sessions hold until they end in whichever way.
\<close>

section \<open>The server\<close>

record 's websocket_server =
  wsv_state :: "'s websocket_state"
  wsv_running :: "nat list"
  wsv_world :: world

text \<open>
  Connections are numbered by the environment. A session ends by itself, or its task is
  dropped: it panics, or the client never completes the upgrade. Either way the permit that its
  closure owns is released.
\<close>

datatype websocket_event =
    Handshake nat header_map
  | SessionEnds nat "io_error + unit" serve_outcome
  | SessionDropped nat
  | CancelServer

fun websocket_server_step ::
  "http_types \<Rightarrow> 's semaphore_lib \<Rightarrow> 's websocket_server \<Rightarrow> websocket_event \<Rightarrow> 's websocket_server" where
  "websocket_server_step ht lib s (Handshake i headers) =
     (case websocket_upgrade ht lib (wsv_state s) headers of
        (state, Upgraded _ _) \<Rightarrow> s\<lparr>wsv_state := state, wsv_running := wsv_running s @ [i]\<rparr>
      | (state, UpgradeRefused _ _) \<Rightarrow> s\<lparr>wsv_state := state\<rparr>)"
| "websocket_server_step ht lib s (SessionEnds i factory serve) =
     (if i \<in> set (wsv_running s) then
        (case websocket_session lib factory serve (wsv_state s) (wsv_world s) of
           (state, w) \<Rightarrow> s\<lparr>wsv_state := state, wsv_running := remove1 i (wsv_running s), wsv_world := w\<rparr>)
      else s)"
| "websocket_server_step ht lib s (SessionDropped i) =
     (if i \<in> set (wsv_running s) then
        s\<lparr>wsv_state := (wsv_state s)\<lparr>wss_permits := sem_release lib (wss_permits (wsv_state s))\<rparr>,
          wsv_running := remove1 i (wsv_running s)\<rparr>
      else s)"
| "websocket_server_step ht lib s CancelServer =
     s\<lparr>wsv_state := (wsv_state s)\<lparr>wss_cancelled := True\<rparr>\<rparr>"

definition websocket_server :: "'s websocket_state \<Rightarrow> world \<Rightarrow> 's websocket_server" where
  "websocket_server state w = \<lparr>wsv_state = state, wsv_running = [], wsv_world = w\<rparr>"

section \<open>Permits are neither lost nor made\<close>

definition sessions_capped ::
  "('s \<Rightarrow> nat) \<Rightarrow> header_policy \<Rightarrow> nat \<Rightarrow> nat \<Rightarrow> 's websocket_server \<Rightarrow> bool" where
  "sessions_capped available policy limit n s \<longleftrightarrow>
     available (wss_permits (wsv_state s)) + length (wsv_running s) = n \<and>
     wss_policy (wsv_state s) = policy \<and> wss_max_message_bytes (wsv_state s) = limit"

lemma sessions_capped_step:
  assumes "documented_semaphore lib available" "sessions_capped available policy limit n s"
  shows "sessions_capped available policy limit n (websocket_server_step ht lib s ev)"
proof (cases ev)
  case (Handshake i headers)
  then show ?thesis
    using assms(2) acquired [OF assms(1), of "wss_permits (wsv_state s)"]
    by (auto simp: sessions_capped_def websocket_upgrade_def split: sum.splits option.splits)
next
  case (SessionEnds i factory serve)
  then show ?thesis
    using assms by (auto simp: sessions_capped_def websocket_session_def documented_semaphore_def
        length_remove1 dest: length_pos_if_in_set)
next
  case (SessionDropped i)
  then show ?thesis
    using assms by (auto simp: sessions_capped_def documented_semaphore_def length_remove1
        dest: length_pos_if_in_set)
qed (use assms(2) in \<open>simp add: sessions_capped_def\<close>)

definition sessions_kept ::
  "'s semaphore_lib \<Rightarrow> ('s \<Rightarrow> nat) \<Rightarrow> header_policy \<Rightarrow> nat \<Rightarrow> nat \<Rightarrow> 's websocket_server \<Rightarrow> bool" where
  "sessions_kept lib available policy limit n s \<longleftrightarrow>
     documented_semaphore lib available \<and> sessions_capped available policy limit n s"

interpretation session_machine: invariant_machine
    "websocket_server_step ht lib" "sessions_kept lib available policy limit n"
  for ht lib available policy limit n
  by unfold_locales (simp add: sessions_kept_def sessions_capped_step)

lemma cancelled_run:
  "wss_cancelled (wsv_state (foldl (websocket_server_step ht lib) s events)) \<longleftrightarrow>
     wss_cancelled (wsv_state s) \<or> CancelServer \<in> set events"
proof (induction events arbitrary: s)
  case (Cons ev events)
  have "wss_cancelled (wsv_state (websocket_server_step ht lib s ev)) \<longleftrightarrow>
      wss_cancelled (wsv_state s) \<or> ev = CancelServer"
    by (cases ev) (auto simp: websocket_upgrade_def websocket_session_def split: sum.splits option.splits)
  with Cons show ?case by auto
qed simp

text \<open>What a run leaves of the router's state.\<close>

lemma websocket_sessions_inv:
  assumes "documented_semaphore lib available"
    and "build_websocket_router ht lib config False = Inr (path, state)"
    and "foldl (websocket_server_step ht lib) (websocket_server state w) events = s"
  shows "available (wss_permits (wsv_state s)) + length (wsv_running s) = ws_max_connections config"
    and "header_policy_new ht (ws_allowed_hosts config) (ws_allowed_origins config) True =
      Inr (wss_policy (wsv_state s))"
    and "wss_max_message_bytes (wsv_state s) = ws_max_message_bytes config"
    and "wss_cancelled (wsv_state s) \<longleftrightarrow> CancelServer \<in> set events"
proof -
  obtain policy where policy: "header_policy_new ht (ws_allowed_hosts config) (ws_allowed_origins config) True = Inr policy"
      "state = \<lparr>wss_policy = policy, wss_max_message_bytes = ws_max_message_bytes config,
         wss_permits = sem_new lib (ws_max_connections config), wss_cancelled = False\<rparr>"
    using assms(2) by (auto simp: build_websocket_router_def)
  have "sessions_kept lib available policy (ws_max_message_bytes config) (ws_max_connections config)
      (websocket_server state w)"
    using assms(1) by (simp add: sessions_kept_def sessions_capped_def websocket_server_def policy(2)
        documented_semaphore_def)
  then have "sessions_kept lib available policy (ws_max_message_bytes config) (ws_max_connections config) s"
    unfolding assms(3) [symmetric] by (rule session_machine.inv_run)
  then show "available (wss_permits (wsv_state s)) + length (wsv_running s) = ws_max_connections config"
      "header_policy_new ht (ws_allowed_hosts config) (ws_allowed_origins config) True =
        Inr (wss_policy (wsv_state s))"
      "wss_max_message_bytes (wsv_state s) = ws_max_message_bytes config"
    using policy(1) by (simp_all add: sessions_kept_def sessions_capped_def)
  show "wss_cancelled (wsv_state s) \<longleftrightarrow> CancelServer \<in> set events"
    unfolding assms(3) [symmetric] by (simp add: cancelled_run websocket_server_def policy(2))
qed

text \<open>
  The WebSocket server enforces its cap and its gate over time. After any handshakes,
  session ends and dropped sessions, the sessions that run and the free permits add up to
  \<open>max_connections\<close>; the next handshake is upgraded exactly when the server is not cancelled,
  fewer sessions than that run, and both headers are present and allow-listed; the upgraded
  socket is limited to the configured message size in frames and messages; and a refused
  handshake changes nothing, in particular it costs no permit.
\<close>

theorem websocket_sessions_are_gated_and_capped:
  assumes "documented_semaphore lib available"
    and "build_websocket_router ht lib config False = Inr (path, state)"
  shows "let s = foldl (websocket_server_step ht lib) (websocket_server state w) events;
      (state', response) = websocket_upgrade ht lib (wsv_state s) headers;
      s' = websocket_server_step ht lib s (Handshake i headers)
    in available (wss_permits (wsv_state s)) + length (wsv_running s) = ws_max_connections config \<and>
       (case response of
          Upgraded frame message \<Rightarrow> frame = ws_max_message_bytes config \<and> message = ws_max_message_bytes config \<and>
            wsv_running s' = wsv_running s @ [i]
        | UpgradeRefused _ _ \<Rightarrow> s' = s) \<and>
       ((\<exists>frame message. response = Upgraded frame message) \<longleftrightarrow>
          CancelServer \<notin> set events \<and> length (wsv_running s) < ws_max_connections config \<and>
          (\<exists>h q. headers ''host'' = Some (Some h) \<and> headers ''origin'' = Some (Some q) \<and>
             parse_host ht h \<noteq> None \<and> parse_host ht h \<in> set (map (parse_host ht) (ws_allowed_hosts config)) \<and>
             parse_origin ht q \<noteq> None \<and>
             parse_origin ht q \<in> set (map (parse_origin ht) (ws_allowed_origins config))))"
proof -
  let ?s = "foldl (websocket_server_step ht lib) (websocket_server state w) events"
  note s = websocket_sessions_inv [OF assms HOL.refl, of w events]
  have free: "0 < available (wss_permits (wsv_state ?s)) \<longleftrightarrow> length (wsv_running ?s) < ws_max_connections config"
    using s(1) by linarith
  show ?thesis
    using websocket_upgrade_gate [OF s(2) assms(1), of headers] s(1,3)
    unfolding s(4) free by (auto simp: Let_def split: prod.splits upgrade_response.splits)
qed

text \<open>With a cap of one, the first handshake is upgraded and a second one refused.\<close>

theorem websocket_sessions_are_gated_and_capped_witness:
  "\<exists>path state. build_websocket_router example_types counting_semaphore
       (websocket_default\<lparr>ws_allowed_hosts := [''localhost''], ws_allowed_origins := [''http://localhost''],
          ws_max_connections := 1\<rparr>) False = Inr (path, state) \<and>
     (let headers = (\<lambda>name. if name = ''host'' then Some (Some ''LOCALHOST'') else Some (Some ''http://localhost''));
          step = websocket_server_step example_types counting_semaphore;
          s = step (websocket_server state (example_world [])) (Handshake 1 headers)
      in wsv_running s = [1] \<and> step s (Handshake 2 headers) = s)"
proof -
  let ?config = "websocket_default\<lparr>ws_allowed_hosts := [''localhost''],
    ws_allowed_origins := [''http://localhost''], ws_max_connections := 1\<rparr>"
  let ?headers = "\<lambda>name :: str. if name = ''host'' then Some (Some ''LOCALHOST'') else Some (Some ''http://localhost'')"
  let ?step = "websocket_server_step example_types counting_semaphore"
  obtain policy where p:
      "header_policy_new example_types [''localhost''] [''http://localhost''] True = Inr policy"
    using example_policy by blast
  then obtain path state where r:
      "build_websocket_router example_types counting_semaphore ?config False = Inr (path, state)"
    by (auto simp: build_websocket_router_def)
  let ?start = "websocket_server state (example_world [])"
  let ?s = "?step ?start (Handshake 1 ?headers)"
  note cap = websocket_sessions_are_gated_and_capped [OF counting_documented r, of "example_world []"]
  have "wsv_running ?start = []" by (simp add: websocket_server_def)
  then have "wsv_running ?s = [1]"
    using cap [of "[]" ?headers 1] example_headers
    by (auto simp: Let_def simp del: websocket_server_step.simps split: prod.splits)
  moreover define s1 where "s1 = ?s"
  ultimately have "wsv_running s1 = [1]" by simp
  moreover have "foldl ?step ?start [Handshake 1 ?headers] = s1" by (simp add: s1_def)
  ultimately have "?step s1 (Handshake 2 ?headers) = s1"
    using cap [of "[Handshake 1 ?headers]" ?headers 2]
    by (simp add: Let_def del: websocket_server_step.simps foldl.simps split: prod.splits upgrade_response.splits)
  with \<open>wsv_running s1 = [1]\<close> show ?thesis
    using r unfolding Let_def s1_def by blast
qed

end
