(* ===== verification/Network_Server.thy ===== *)
theory Network_Server
  imports Rely_Guarantee Websocket_Sessions
begin

text \<open>
  The Streamable HTTP and the WebSocket server of \<open>src/transport.rs\<close> as they run. Both serve a
  router until serving ends or cancellation is seen, and neither keeps hold of the sessions that
  its router starts: a WebSocket session is a task of its own that may outlive the runner. The
  two differ in their router, which a \<open>service\<close> describes; \<open>axum::serve\<close> decides when requests
  arrive and when serving ends.
\<close>

section \<open>Services\<close>

text \<open>
  \<open>svc_admit\<close> answers a request: \<open>None\<close> refuses it, otherwise the router's new state and the
  calls that the session makes on the controller. \<open>svc_leave\<close> is the end of a session, however
  it ends, \<open>svc_cancel\<close> what the router sees of a cancelled token.
\<close>

record ('st, 'req) service =
  svc_valid :: "io_error + unit"
  svc_router :: "io_error + 'st"
  svc_admit :: "'st \<Rightarrow> 'req \<Rightarrow> ('st \<times> unit program) option"
  svc_leave :: "'st \<Rightarrow> 'st"
  svc_cancel :: "'st \<Rightarrow> 'st"
  svc_timeout :: str

text \<open>
  A request to the HTTP router. \<open>axum\<close> routes it by its exact path to the MCP service, behind the
  header check; the service is rmcp's, a parameter that decides, under the configuration it was
  given, whether a request gets a handler from the factory. Its documentation says that it
  refuses a body above the limit and, when asked to, a request without protocol metadata.
\<close>

record http_incoming =
  in_path :: str
  in_headers :: header_map
  in_body :: str

record rmcp_lib =
  rmcp_handles :: "rmcp_http_config \<Rightarrow> http_incoming \<Rightarrow> bool"
  rmcp_metadata :: "http_incoming \<Rightarrow> bool"

definition documented_rmcp :: "rmcp_lib \<Rightarrow> bool" where
  "documented_rmcp rmcp \<longleftrightarrow>
     (\<forall>cfg req. rmcp_handles rmcp cfg req \<longrightarrow>
        length (in_body req) \<le> rmcp_max_request_body_bytes cfg \<and>
        (rmcp_stateless_metadata_required cfg \<longrightarrow> rmcp_metadata rmcp req))"

definition http_service ::
  "http_types \<Rightarrow> rmcp_lib \<Rightarrow> http_transport_config \<Rightarrow>
     (http_router, http_incoming \<times> (io_error + unit)) service" where
  "http_service ht rmcp config =
     \<lparr>svc_valid = http_validate ht config,
      svc_router = build_http_router ht config,
      svc_admit = (\<lambda>router (req, factory).
        case strict_header_middleware ht (hr_policy router) (in_headers req) of
          PassedOn \<Rightarrow>
            if in_path req = hr_path router \<and> rmcp_handles rmcp (hr_service router) req
            then Some (router, http_session_program factory) else None
        | _ \<Rightarrow> None),
      svc_leave = (\<lambda>router. router),
      svc_cancel = (\<lambda>router. router),
      svc_timeout = ''HTTP transport shutdown timed out''\<rparr>"

definition websocket_service ::
  "http_types \<Rightarrow> 's semaphore_lib \<Rightarrow> websocket_transport_config \<Rightarrow>
     ('s websocket_state, header_map \<times> (io_error + unit) \<times> serve_outcome) service" where
  "websocket_service ht lib config =
     \<lparr>svc_valid = websocket_validate ht config,
      svc_router = and_then (build_websocket_router ht lib config False) (\<lambda>(path, state). Inr state),
      svc_admit = (\<lambda>state (headers, factory, serve).
        case websocket_upgrade ht lib state headers of
          (_, UpgradeRefused _ _) \<Rightarrow> None
        | (state', Upgraded _ _) \<Rightarrow> Some (state', connection_program factory serve)),
      svc_leave = (\<lambda>state. state\<lparr>wss_permits := sem_release lib (wss_permits state)\<rparr>),
      svc_cancel = (\<lambda>state. state\<lparr>wss_cancelled := True\<rparr>),
      svc_timeout = ''WebSocket transport shutdown timed out''\<rparr>"

section \<open>The server\<close>

datatype net_phase = Serving | Waiting | Ended "io_error + unit"

text \<open>
  The router's state is \<open>None\<close> until it is serving. Sessions are numbered in the order they are
  started; \<open>nts_live\<close> are those that run.
\<close>

record 'st net_server =
  nts_ctl :: controller
  nts_main :: "net_phase program"
  nts_sessions :: "unit program list"
  nts_live :: "nat list"
  nts_cancelled :: bool
  nts_router :: "'st option"

datatype 'req net_action =
    NetCalls
  | RouterOpens
  | SessionCalls nat
  | SessionGone nat bool
  | RequestArrives 'req
  | TokenCancelled
  | SelectsCancellation
  | ServingStops "io_error + unit"
  | DrainCompletes "io_error + unit"
  | GraceRunsOut

definition net_setup :: "('st, 'req) service \<Rightarrow> io_error + unit \<Rightarrow> net_phase program" where
  "net_setup svc bound =
     (case svc_valid svc of
        Inl error \<Rightarrow> Finished (Ended (Inl error))
      | Inr _ \<Rightarrow>
          and_also (transition_program Start) (\<lambda>started.
            case started of
              Inl error \<Rightarrow> Finished (Ended (Inl error))
            | Inr _ \<Rightarrow>
                (case and_then bound (\<lambda>_. svc_router svc) of
                   Inl error \<Rightarrow>
                     and_also (finish_with_program (Inl error)) (\<lambda>result. Finished (Ended result))
                 | Inr _ \<Rightarrow>
                     and_also (transition_program Started) (\<lambda>ready.
                       case ready of
                         Inl error \<Rightarrow> Finished (Ended (Inl error))
                       | Inr _ \<Rightarrow> Finished Serving))))"

definition net_finish :: "io_error + unit \<Rightarrow> net_phase program" where
  "net_finish result = and_also (finish_with_program result) (\<lambda>r. Finished (Ended r))"

definition net_drain :: "net_phase program" where
  "net_drain =
     and_also (transition_program Drain) (\<lambda>drained.
       case drained of Inl error \<Rightarrow> net_finish (Inl error) | Inr _ \<Rightarrow> Finished Waiting)"

definition net_serving_ended :: "io_error + unit \<Rightarrow> net_phase program" where
  "net_serving_ended result =
     and_also (if is_ok result then Finished () else mark_degraded_program) (\<lambda>_. net_finish result)"

definition net_start :: "('st, 'req) service \<Rightarrow> io_error + unit \<Rightarrow> controller \<Rightarrow> 'st net_server" where
  "net_start svc bound c =
     \<lparr>nts_ctl = c, nts_main = net_setup svc bound, nts_sessions = [], nts_live = [],
      nts_cancelled = False, nts_router = None\<rparr>"

text \<open>
  The router is served once \<open>axum::serve\<close> is first polled, at the \<open>select!\<close> or in the drain.
\<close>

fun net_act :: "('st, 'req) service \<Rightarrow> 'st net_server \<Rightarrow> 'req net_action \<Rightarrow> 'st net_server option" where
  "net_act svc s NetCalls =
     (if finished (nts_main s) then None
      else case advance (nts_main s) (nts_ctl s) of
             (p, c) \<Rightarrow> Some (s\<lparr>nts_main := p, nts_ctl := c\<rparr>))"
| "net_act svc s RouterOpens =
     (case (nts_router s, svc_router svc) of
        (None, Inr st) \<Rightarrow>
          if nts_main s = Finished Serving \<or> nts_main s = Finished Waiting
          then Some (s\<lparr>nts_router := Some (if nts_cancelled s then svc_cancel svc st else st)\<rparr>)
          else None
      | _ \<Rightarrow> None)"
| "net_act svc s (SessionCalls i) =
     (if i \<in> set (nts_live s) \<and> \<not> finished (nts_sessions s ! i) then
        (case advance (nts_sessions s ! i) (nts_ctl s) of
           (p, c) \<Rightarrow> Some (s\<lparr>nts_sessions := (nts_sessions s)[i := p], nts_ctl := c\<rparr>))
      else None)"
| "net_act svc s (SessionGone i dropped) =
     (if i \<in> set (nts_live s) \<and> (dropped \<or> finished (nts_sessions s ! i)) then
        Some (s\<lparr>nts_live := remove1 i (nts_live s), nts_router := map_option (svc_leave svc) (nts_router s)\<rparr>)
      else None)"
| "net_act svc s (RequestArrives req) =
     (case nts_router s of
        None \<Rightarrow> None
      | Some st \<Rightarrow>
          (case svc_admit svc st req of
             None \<Rightarrow> Some s
           | Some (st', p) \<Rightarrow>
               Some (s\<lparr>nts_router := Some st', nts_sessions := nts_sessions s @ [p],
                       nts_live := nts_live s @ [length (nts_sessions s)]\<rparr>)))"
| "net_act svc s TokenCancelled =
     Some (s\<lparr>nts_cancelled := True, nts_router := map_option (svc_cancel svc) (nts_router s)\<rparr>)"
| "net_act svc s SelectsCancellation =
     (case nts_main s of
        Finished Serving \<Rightarrow> if nts_cancelled s then Some (s\<lparr>nts_main := net_drain\<rparr>) else None
      | _ \<Rightarrow> None)"
| "net_act svc s (ServingStops r) =
     (case nts_main s of
        Finished Serving \<Rightarrow> Some (s\<lparr>nts_main := net_serving_ended r\<rparr>) | _ \<Rightarrow> None)"
| "net_act svc s (DrainCompletes r) =
     (case nts_main s of Finished Waiting \<Rightarrow> Some (s\<lparr>nts_main := net_finish r\<rparr>) | _ \<Rightarrow> None)"
| "net_act svc s GraceRunsOut =
     (case nts_main s of
        Finished Waiting \<Rightarrow> Some (s\<lparr>nts_main := net_finish (Inl (IoError TimedOut (svc_timeout svc)))\<rparr>)
      | _ \<Rightarrow> None)"

fun net_run :: "('st, 'req) service \<Rightarrow> 'st net_server \<Rightarrow> 'req net_action list \<Rightarrow> 'st net_server option" where
  "net_run svc s [] = Some s"
| "net_run svc s (act # acts) =
     (case net_act svc s act of None \<Rightarrow> None | Some s' \<Rightarrow> net_run svc s' acts)"

text \<open>How serving came to its end.\<close>

fun net_cause :: "str \<Rightarrow> 'req net_action list \<Rightarrow> (io_error + unit) option" where
  "net_cause timeout_message [] = None"
| "net_cause timeout_message (ServingStops r # acts) = Some r"
| "net_cause timeout_message (DrainCompletes r # acts) = Some r"
| "net_cause timeout_message (GraceRunsOut # acts) = Some (Inl (IoError TimedOut timeout_message))"
| "net_cause timeout_message (act # acts) = net_cause timeout_message acts"

end
