(* ===== verification/Network_Server_Laws.thy ===== *)
theory Network_Server_Laws
  imports Network_Server
begin

text \<open>
  What every run of the HTTP and of the WebSocket server guarantees about the lifecycle, and
  what becomes of the requests of the HTTP server.
\<close>

lemma net_run_append:
  "net_run svc s (as @ bs) = Option.bind (net_run svc s as) (\<lambda>t. net_run svc t bs)"
  by (induction as arbitrary: s) (auto split: option.splits)

lemma net_run_snoc: "net_run svc s (as @ [a]) = Option.bind (net_run svc s as) (\<lambda>t. net_act svc t a)"
  by (cases "net_run svc s as") (auto simp: net_run_append split: option.splits)

lemma net_cause_append:
  "net_cause m (as @ bs) = (case net_cause m as of None \<Rightarrow> net_cause m bs | Some r \<Rightarrow> Some r)"
proof (induction as)
  case (Cons a as)
  then show ?case by (cases a) auto
qed simp

section \<open>Sessions\<close>

text \<open>A service is healthy when its sessions are connection handlers of this program.\<close>

definition healthy :: "('st, 'req) service \<Rightarrow> bool" where
  "healthy svc \<longleftrightarrow> (\<forall>st req st' p. svc_admit svc st req = Some (st', p) \<longrightarrow> connection p)"

lemma services_healthy: "healthy (http_service ht rmcp hc)" "healthy (websocket_service ht lib wc)"
  by (auto simp: healthy_def http_service_def websocket_service_def connection_def
      split: middleware_response.splits prod.splits upgrade_response.splits)

definition sessions_ok :: "'st net_server \<Rightarrow> bool" where
  "sessions_ok s \<longleftrightarrow> list_all (emits {Degrade, Recover}) (nts_sessions s) \<and> distinct (nts_live s) \<and>
     (\<forall>i \<in> set (nts_live s). i < length (nts_sessions s))"

lemma emits_list_update:
  "list_all (emits E) ps \<Longrightarrow> i < length ps \<Longrightarrow> list_all (emits E) (ps[i := fst (advance (ps ! i) c)])"
  using emits_advance [of E "ps ! i" c]
  by (auto simp: list_all_iff dest!: set_update_subset_insert [THEN subsetD])

lemma sessions_ok_act:
  assumes "healthy svc" "sessions_ok s" "net_act svc s act = Some t"
  shows "sessions_ok t"
proof (cases act)
  case (SessionCalls i)
  with assms(2,3) emits_list_update [of _ "nts_sessions s" i "nts_ctl s"] show ?thesis
    by (auto simp: sessions_ok_def split_beta split: if_splits)
next
  case (SessionGone i dropped)
  with assms(2,3) show ?thesis
    by (auto simp: sessions_ok_def dest: notin_set_remove1 split: if_splits)
next
  case (RequestArrives req)
  have "emits {Degrade, Recover} p" if "svc_admit svc st req = Some (st', p)" for st st' p
    using assms(1) that connection_emits unfolding healthy_def by blast
  with RequestArrives assms(2,3) show ?thesis
    by (auto simp: sessions_ok_def less_Suc_eq split: option.splits)
qed (use assms(2,3) in \<open>auto simp: sessions_ok_def split_beta
    split: program.splits net_phase.splits if_splits option.splits sum.splits\<close>)

section \<open>The lifecycle follows the runner\<close>

definition net_ok ::
  "io_error + unit \<Rightarrow> (io_error + unit) option \<Rightarrow> net_phase \<Rightarrow> lifecycle_state \<Rightarrow> bool" where
  "net_ok bound cause phase st =
     (case phase of
        Serving \<Rightarrow> bound = Inr () \<and> cause = None \<and> kin Ready st
      | Waiting \<Rightarrow> bound = Inr () \<and> cause = None \<and> st = Draining
      | Ended r \<Rightarrow> st = Stopped \<and> (if is_ok bound then cause = Some r else r = bound))"

lemma stable_net_ok: "stable (net_ok bound cause)"
  by (auto simp: stable_def net_ok_def kin_trans split: net_phase.splits)

lemma finish_performs:
  assumes "calm 2 w"
  shows "\<exists>v. perform (net_finish r) w = (v, Ended r) \<and> world_state v = Stopped"
  using finish_with_calm [OF assms, of r] by (auto simp: net_finish_def perform_simps)

lemma net_setup_promises:
  assumes "svc_valid svc = Inr ()" "svc_router svc = Inr router" "state_of c = Created"
  shows "promises 5 (net_setup svc bound) c (net_ok bound None)"
proof (rule promisesI)
  fix w assume w: "w_ctl w = c" "calm 5 w"
  then obtain v u where v: "lifecycle_transition Start w = (v, Inr ())" "calm 2 v"
      "lifecycle_transition Started v = (u, Inr ())" "calm 3 u" "world_state u = Ready"
    using opened_calm [of 0 w] assms(3) by auto
  show "\<exists>x a. perform (net_setup svc bound) w = (x, a) \<and> net_ok bound None a (world_state x)"
  proof (cases bound)
    case (Inl e)
    with finish_with_calm [OF v(2), of "Inl e"] show ?thesis
      by (auto simp: net_setup_def assms perform_simps v net_ok_def is_ok_def)
  qed (simp add: net_setup_def assms perform_simps v net_ok_def)
qed

definition first_cause :: "'c option \<Rightarrow> 'c option \<Rightarrow> 'c option" where
  "first_cause cause new = (case cause of None \<Rightarrow> new | Some r \<Rightarrow> Some r)"

lemma first_cause_simps [simp]: "first_cause None new = new" "first_cause cause None = cause"
  by (simp_all add: first_cause_def split: option.splits)

text \<open>Every way out of a phase, from the promise that the phase was reached with.\<close>

lemma serving_promises:
  assumes "promises 5 (Finished Serving) c (net_ok bound cause)"
  shows "promises 5 net_drain c (net_ok bound cause)"
    and "promises 5 (net_serving_ended r) c (net_ok bound (first_cause cause (Some r)))"
proof -
  have at: "bound = Inr () \<and> cause = None \<and> kin Ready (world_state w)" if "w_ctl w = c" "calm 5 w" for w
    using assms that by (auto simp: promises_Finished net_ok_def calm_def)
  show "promises 5 net_drain c (net_ok bound cause)"
  proof (rule promisesI)
    fix w assume w: "w_ctl w = c" "calm 5 w"
    have "calm (Suc 4) w" using w(2) by simp
    then obtain v where "lifecycle_transition Drain w = (v, Inr ())" "world_state v = Draining"
      using at [OF w] by (elim drain_calm) auto
    with at [OF w] show "\<exists>v a. perform net_drain w = (v, a) \<and> net_ok bound cause a (world_state v)"
      by (simp add: net_drain_def perform_simps net_ok_def)
  qed
  show "promises 5 (net_serving_ended r) c (net_ok bound (first_cause cause (Some r)))"
    unfolding net_serving_ended_def
  proof (rule promises_and_also)
    fix w assume w: "w_ctl w = c" "calm 5 w"
    have "calm 2 (mark_degraded w)" "calm 2 w"
      using mark_calm [of 4 w] w(2) calm_less [of 4 "mark_degraded w" 2] calm_less [of 5 w 2]
      by (simp_all add: eval_nat_numeral)
    with at [OF w] finish_performs [of "mark_degraded w" r] finish_performs [of w r]
    show "\<exists>v a. perform (if is_ok r then Finished () else mark_degraded_program) w = (v, a) \<and>
        (\<exists>u b. perform (net_finish r) v = (u, b) \<and> net_ok bound (first_cause cause (Some r)) b (world_state u))"
      by (auto simp: perform_marks net_ok_def is_ok_def)
  qed
qed

lemma waiting_promises:
  assumes "promises 5 (Finished Waiting) c (net_ok bound cause)"
  shows "promises 5 (net_finish r) c (net_ok bound (first_cause cause (Some r)))"
proof (rule promisesI)
  fix w assume w: "w_ctl w = c" "calm 5 w"
  then have "bound = Inr () \<and> cause = None" using assms by (auto simp: promises_Finished net_ok_def calm_def)
  moreover have "calm 2 w" using w(2) by (rule calm_less) simp
  ultimately show "\<exists>v a. perform (net_finish r) w = (v, a) \<and>
      net_ok bound (first_cause cause (Some r)) a (world_state v)"
    using finish_performs [of w r] by (fastforce simp: net_ok_def is_ok_def)
qed

definition net_inv :: "io_error + unit \<Rightarrow> (io_error + unit) option \<Rightarrow> 'st net_server \<Rightarrow> bool" where
  "net_inv bound cause s \<longleftrightarrow> sessions_ok s \<and> promises 5 (nts_main s) (nts_ctl s) (net_ok bound cause)"

lemma net_inv_act:
  assumes healthy: "healthy svc" and inv: "net_inv bound cause s" and act: "net_act svc s act = Some t"
  shows "net_inv bound (first_cause cause (net_cause (svc_timeout svc) [act])) t"
proof -
  have ok: "sessions_ok s" and main: "promises 5 (nts_main s) (nts_ctl s) (net_ok bound cause)"
    using inv by (simp_all add: net_inv_def)
  have "promises 5 (nts_main t) (nts_ctl t)
      (net_ok bound (first_cause cause (net_cause (svc_timeout svc) [act])))"
  proof (cases act)
    case NetCalls
    with act promises_call [OF main] show ?thesis by (auto simp: split_beta split: if_splits)
  next
    case (SessionCalls i)
    then have "emits {Degrade, Recover} (nts_sessions s ! i)"
      using act ok by (auto simp: sessions_ok_def list_all_length split: if_splits)
    with SessionCalls act promises_reports [OF main stable_net_ok] show ?thesis
      by (auto simp: split_beta split: if_splits)
  next
    case SelectsCancellation
    with act main serving_promises(1) [of "nts_ctl s" bound cause] show ?thesis
      by (auto split: program.splits net_phase.splits if_splits)
  next
    case (ServingStops r)
    with act main serving_promises(2) [of "nts_ctl s" bound cause r] show ?thesis
      by (auto split: program.splits net_phase.splits)
  next
    case (DrainCompletes r)
    with act main waiting_promises [of "nts_ctl s" bound cause r] show ?thesis
      by (auto split: program.splits net_phase.splits)
  next
    case GraceRunsOut
    with act main waiting_promises [of "nts_ctl s" bound cause "Inl (IoError TimedOut (svc_timeout svc))"]
    show ?thesis by (auto split: program.splits net_phase.splits)
  qed (use act main in \<open>auto split: if_splits option.splits sum.splits\<close>)
  with sessions_ok_act [OF healthy ok act] show ?thesis by (simp add: net_inv_def)
qed

lemma net_inv_run:
  assumes "healthy svc" "net_inv bound None s"
  shows "net_run svc s acts = Some t \<Longrightarrow> net_inv bound (net_cause (svc_timeout svc) acts) t"
proof (induction acts arbitrary: t rule: rev_induct)
  case (snoc act acts)
  then obtain u where u: "net_run svc s acts = Some u" "net_act svc u act = Some t"
    by (auto simp: net_run_snoc bind_eq_Some_conv)
  have "net_cause (svc_timeout svc) (acts @ [act]) =
      first_cause (net_cause (svc_timeout svc) acts) (net_cause (svc_timeout svc) [act])"
    by (simp add: net_cause_append first_cause_def)
  with net_inv_act [OF assms(1) snoc.IH [OF u(1)] u(2)] show ?case by simp
qed (use assms(2) in simp)

lemma net_inv_start:
  assumes "controller_new cap = Inr c" "svc_valid svc = Inr ()" "svc_router svc = Inr router"
  shows "net_inv bound None (net_start svc bound c)"
  using net_setup_promises [OF assms(2,3)] new_controller [OF assms(1)]
  by (simp add: net_inv_def net_start_def sessions_ok_def)

section \<open>Revisions\<close>

lemma net_act_ctl:
  assumes "net_act svc s act = Some t"
  shows "nts_ctl t = nts_ctl s \<or> nts_ctl t = snd (advance (nts_main s) (nts_ctl s)) \<and> \<not> finished (nts_main s) \<or>
    (\<exists>i \<in> set (nts_live s). nts_ctl t = snd (advance (nts_sessions s ! i) (nts_ctl s)))"
  using assms
  by (cases act) (auto simp: split_beta split: program.splits net_phase.splits if_splits option.splits sum.splits)

lemma net_run_room:
  "net_run svc s acts = Some t \<Longrightarrow>
     revision_of (nts_ctl t) \<le> revision_of (nts_ctl s) + length acts \<and>
     ctl_poisoned (nts_ctl t) = ctl_poisoned (nts_ctl s)"
proof (induction acts arbitrary: s)
  case (Cons act acts)
  then obtain u where u: "net_act svc s act = Some u" "net_run svc u acts = Some t"
    by (auto split: option.splits)
  have "nts_ctl u = nts_ctl s \<or> (\<exists>ev. nts_ctl u = controller_step (nts_ctl s) ev)"
    using net_act_ctl [OF u(1)] by (metis advance_controller)
  with Cons.IH [OF u(2)] show ?case by (auto simp: revision_step split: if_splits)
qed simp

text \<open>Once the lifecycle is stopped, the sessions that are left cannot move it any more.\<close>

lemma reports_ignored: "emits {Degrade, Recover} p \<Longrightarrow> state_of c = Stopped \<Longrightarrow> snd (advance p c) = c"
  using emits_advance [of "{Degrade, Recover}" p c] by (auto simp: accepts_def)

lemma ended_freezes:
  assumes "healthy svc"
  shows "nts_main s = Finished (Ended r) \<Longrightarrow> state_of (nts_ctl s) = Stopped \<Longrightarrow> sessions_ok s \<Longrightarrow>
    net_run svc s acts = Some t \<Longrightarrow> nts_ctl t = nts_ctl s \<and> nts_main t = Finished (Ended r)"
proof (induction acts arbitrary: s)
  case (Cons act acts)
  then obtain u where u: "net_act svc s act = Some u" "net_run svc u acts = Some t"
    by (auto split: option.splits)
  have "snd (advance (nts_sessions s ! i) (nts_ctl s)) = nts_ctl s" if "i \<in> set (nts_live s)" for i
    using Cons.prems(2,3) that by (intro reports_ignored) (simp_all add: sessions_ok_def list_all_length)
  then have "nts_ctl u = nts_ctl s" using net_act_ctl [OF u(1)] Cons.prems(1) by auto
  moreover have "nts_main u = Finished (Ended r)"
    using u(1) Cons.prems(1) by (cases act) (auto simp: split_beta split: if_splits option.splits sum.splits)
  ultimately show ?case
    using Cons.IH [of u] Cons.prems(2) sessions_ok_act [OF assms Cons.prems(3) u(1)] u(2) by simp
qed simp

text \<open>
  What both servers have in common: where the lifecycle stands in each phase, and that a runner
  that has returned has returned what serving came to, in a state that nothing changes any more.
\<close>

definition conforms ::
  "('st, 'req) service \<Rightarrow> io_error + unit \<Rightarrow> 'req net_action list \<Rightarrow> 'st net_server \<Rightarrow> bool" where
  "conforms svc bound acts s \<longleftrightarrow>
     (case nts_main s of
        Finished Serving \<Rightarrow> state_of (nts_ctl s) \<in> {Ready, Degraded}
      | Finished Waiting \<Rightarrow> state_of (nts_ctl s) = Draining
      | Finished (Ended r) \<Rightarrow>
          (case bound of Inl error \<Rightarrow> r = Inl error | Inr _ \<Rightarrow> net_cause (svc_timeout svc) acts = Some r) \<and>
          state_of (nts_ctl s) = Stopped \<and>
          (\<forall>more t. net_run svc s more = Some t \<longrightarrow> nts_ctl t = nts_ctl s \<and> nts_main t = Finished (Ended r))
      | _ \<Rightarrow> True)"

lemma net_phase_holds:
  assumes "healthy svc" "svc_valid svc = Inr ()" "svc_router svc = Inr router" "controller_new cap = Inr c"
    and "net_run svc (net_start svc bound c) acts = Some s" "revision_of (nts_ctl s) + 5 < 2 ^ 64"
    and "nts_main s = Finished phase"
  shows "net_ok bound (net_cause (svc_timeout svc) acts) phase (state_of (nts_ctl s)) \<and> sessions_ok s"
proof -
  have "sessions_ok s \<and> promises 5 (nts_main s) (nts_ctl s) (net_ok bound (net_cause (svc_timeout svc) acts))"
    using net_inv_run [OF assms(1) net_inv_start [OF assms(4,2,3)] assms(5)] by (simp add: net_inv_def)
  moreover have "calm 5 \<lparr>w_ctl = nts_ctl s, w_batches = []\<rparr>"
    using net_run_room [OF assms(5)] new_controller [OF assms(4)] assms(6) by (simp add: calm_def net_start_def)
  ultimately show ?thesis using assms(7) by (simp add: promises_Finished)
qed

lemma net_server_conforms:
  assumes svc: "healthy svc" "svc_valid svc = Inr ()" "svc_router svc = Inr router"
    and new: "controller_new cap = Inr c"
    and run: "net_run svc (net_start svc bound c) acts = Some s" and room: "length acts + 5 < 2 ^ 64"
  shows "conforms svc bound acts s"
proof -
  have "revision_of (nts_ctl s) + 5 < 2 ^ 64"
    using net_run_room [OF run] new_controller [OF new] room by (simp add: net_start_def)
  note phase = net_phase_holds [OF svc new run this]
  show ?thesis
  proof (cases "nts_main s")
    case (Finished phase)
    note ok = phase [OF Finished, THEN conjunct1] and inv = phase [OF Finished, THEN conjunct2]
    show ?thesis
    proof (cases phase)
      case (Ended r)
      with Finished have main: "nts_main s = Finished (Ended r)" by simp
      have "state_of (nts_ctl s) = Stopped" using ok Ended by (simp add: net_ok_def)
      with ended_freezes [OF svc(1) main _ inv] ok show ?thesis
        unfolding conforms_def main by (cases bound) (auto simp: Ended net_ok_def is_ok_def)
    qed (use ok Finished in \<open>auto simp: conforms_def net_ok_def\<close>)
  qed (simp_all add: conforms_def)
qed

section \<open>Requests\<close>

text \<open>A request's headers against the allow-lists of a configuration.\<close>

definition headers_listed :: "http_types \<Rightarrow> str list \<Rightarrow> str list \<Rightarrow> bool \<Rightarrow> header_map \<Rightarrow> bool" where
  "headers_listed ht hosts origins require_origin headers \<longleftrightarrow>
     (\<exists>h allowed. headers ''host'' = Some (Some h) \<and> allowed \<in> set hosts \<and>
        parse_host ht h \<noteq> None \<and> parse_host ht h = parse_host ht allowed) \<and>
     (headers ''origin'' = None \<and> \<not> require_origin \<or>
      (\<exists>q allowed. headers ''origin'' = Some (Some q) \<and> allowed \<in> set origins \<and>
         parse_origin ht q \<noteq> None \<and> parse_origin ht q = parse_origin ht allowed))"

lemma listed_iff:
  "header_policy_new ht hosts origins require_origin = Inr policy \<Longrightarrow>
     headers_listed ht hosts origins require_origin headers \<longleftrightarrow> policy_validate ht policy headers = Inr ()"
  unfolding headers_listed_def by (rule policy_admits_iff [symmetric])

section \<open>HTTP\<close>

lemma http_router_kept:
  assumes "build_http_router ht config = Inr router"
  shows "net_run (http_service ht rmcp config) (net_start (http_service ht rmcp config) bound c) acts = Some t \<Longrightarrow>
    nts_router t \<in> {None, Some router}"
proof (induction acts arbitrary: t rule: rev_induct)
  case (snoc act acts)
  then obtain u where "nts_router u \<in> {None, Some router}" "net_act (http_service ht rmcp config) u act = Some t"
    by (auto simp: net_run_snoc bind_eq_Some_conv)
  then show ?case
    by (cases act) (auto simp: http_service_def assms split_beta
        split: program.splits net_phase.splits if_splits option.splits prod.splits middleware_response.splits)
qed (simp add: net_start_def)

text \<open>What the router gives rmcp to enforce.\<close>

definition rmcp_settings :: "http_transport_config \<Rightarrow> rmcp_http_config" where
  "rmcp_settings config =
     \<lparr>rmcp_legacy_session_mode = False, rmcp_json_response = True,
      rmcp_allowed_hosts = hc_allowed_hosts config, rmcp_allowed_origins = hc_allowed_origins config,
      rmcp_max_request_body_bytes = hc_max_body_bytes config, rmcp_stateless_metadata_required = True\<rparr>"

text \<open>
  C8. The Streamable HTTP server in every run, with any requests at any time and their handlers'
  calls interleaved with the runner's: the lifecycle is ready or degraded while it serves and
  draining while it waits for open requests; when the runner has returned it has returned
  exactly the bind error, what serving ended with or the timeout, the lifecycle is stopped, and
  handlers that are still running change neither the controller nor that result. A request
  starts a handler exactly when it is for \<open>/mcp\<close>, its headers are allow-listed and rmcp accepts
  it under the configured settings, and then its body is within the configured limit, at most
  256 KiB, and it carries the protocol metadata; any other request changes nothing.
\<close>

theorem http_server_conforms:
  assumes "documented_rmcp rmcp" "controller_new cap = Inr c" "http_validate ht config = Inr ()"
    and "net_run (http_service ht rmcp config) (net_start (http_service ht rmcp config) bound c) acts = Some s"
    and "length acts + 5 < 2 ^ 64"
  shows "conforms (http_service ht rmcp config) bound acts s \<and>
    (case net_act (http_service ht rmcp config) s (RequestArrives (req, factory)) of
       None \<Rightarrow> nts_router s = None
     | Some t \<Rightarrow>
         if in_path req = ''/mcp'' \<and>
           headers_listed ht (hc_allowed_hosts config) (hc_allowed_origins config) False (in_headers req) \<and>
           rmcp_handles rmcp (rmcp_settings config) req
         then nts_sessions t = nts_sessions s @ [http_session_program factory] \<and>
           length (in_body req) \<le> hc_max_body_bytes config \<and> length (in_body req) \<le> 262144 \<and>
           rmcp_metadata rmcp req
         else t = s)"
proof -
  obtain router where router: "build_http_router ht config = Inr router"
    using assms(3) by (auto simp: build_http_router_def http_validate_Inr is_ok_iff)
  then have policy: "header_policy_new ht (hc_allowed_hosts config) (hc_allowed_origins config) False = Inr (hr_policy router)"
    and built: "hr_path router = ''/mcp''" "hr_service router = rmcp_settings config"
    by (auto simp: build_http_router_def rmcp_settings_def STREAMABLE_HTTP_PATH_def)
  have "hc_max_body_bytes config \<le> 262144"
    using assms(3) by (simp add: http_validate_Inr MAX_MESSAGE_BYTES_def)
  then have handled: "length (in_body req) \<le> hc_max_body_bytes config \<and> length (in_body req) \<le> 262144 \<and>
      rmcp_metadata rmcp req" if "rmcp_handles rmcp (rmcp_settings config) req"
    using assms(1) that by (fastforce simp: documented_rmcp_def rmcp_settings_def)
  have "conforms (http_service ht rmcp config) bound acts s"
    by (rule net_server_conforms [OF services_healthy(1) _ _ assms(2,4,5)])
      (simp_all add: http_service_def assms(3) router)
  with http_router_kept [OF router assms(4)] handled show ?thesis
    by (auto simp: http_service_def strict_header_middleware_def listed_iff [OF policy] built split: sum.splits)
qed

section \<open>The runner returns\<close>

definition net_weight :: "net_phase \<Rightarrow> nat option" where
  "net_weight phase = (case phase of Serving \<Rightarrow> None | Waiting \<Rightarrow> Some 4 | Ended _ \<Rightarrow> Some 0)"

text \<open>The actions of the runner itself, as opposed to those of sessions, clients and the token's owner.\<close>

fun runner_action :: "'req net_action \<Rightarrow> bool" where
  "runner_action RouterOpens = False"
| "runner_action (SessionCalls _) = False"
| "runner_action (SessionGone _ _) = False"
| "runner_action (RequestArrives _) = False"
| "runner_action TokenCancelled = False"
| "runner_action _ = True"

lemma net_finish_spends: "spends net_weight (net_finish r) 3"
  unfolding net_finish_def
  by (rule spends_and_also [where n = 3 and m = 0]) (simp_all add: within_finish_with net_weight_def)

lemma net_leave_spends: "spends net_weight net_drain 5" "spends net_weight (net_serving_ended r) 5"
proof -
  show "spends net_weight net_drain 5"
    unfolding net_drain_def
    by (rule spends_and_also [where n = 1 and m = 4])
      (auto simp: within_transition net_weight_def intro: spends_mono [OF net_finish_spends] split: sum.splits)
  show "spends net_weight (net_serving_ended r) 5"
    unfolding net_serving_ended_def
    by (rule spends_and_also [where n = 2 and m = 3]) (simp_all add: within_mark net_finish_spends)
qed

lemma net_winds_act:
  assumes "spends net_weight (nts_main s) n" "net_act svc s act = Some t"
  shows "if runner_action act then 0 < n \<and> spends net_weight (nts_main t) (n - 1) else nts_main t = nts_main s"
proof (cases act)
  case NetCalls
  with assms spends_advance [of net_weight "nts_main s" n "nts_ctl s"] show ?thesis
    by (auto simp: finished_iff split_beta split: if_splits)
next
  case (DrainCompletes r)
  with assms spends_mono [OF net_finish_spends, of "n - 1" r] show ?thesis
    by (auto simp: net_weight_def split: program.splits net_phase.splits)
next
  case GraceRunsOut
  with assms spends_mono [OF net_finish_spends, of "n - 1" "Inl (IoError TimedOut (svc_timeout svc))"]
  show ?thesis by (auto simp: net_weight_def split: program.splits net_phase.splits)
qed (use assms in \<open>auto simp: net_weight_def split_beta
    split: program.splits net_phase.splits if_splits option.splits sum.splits\<close>)

lemma net_winds_run:
  "spends net_weight (nts_main s) n \<Longrightarrow> net_run svc s acts = Some t \<Longrightarrow>
     length (filter runner_action acts) \<le> n \<and> (\<exists>m. spends net_weight (nts_main t) m)"
proof (induction acts arbitrary: s n)
  case (Cons act acts)
  then obtain u where u: "net_act svc s act = Some u" "net_run svc u acts = Some t"
    by (auto split: option.splits)
  note step = net_winds_act [OF Cons.prems(1) u(1)]
  show ?case
  proof (cases "runner_action act")
    case True
    with step Cons.IH [of u "n - 1"] u(2) show ?thesis by auto
  next
    case False
    with step Cons.IH [of u n] u(2) Cons.prems(1) show ?thesis by auto
  qed
qed auto

text \<open>
  C9. The HTTP and the WebSocket runner return, whatever their sessions do: once serving has
  ended or cancellation has been selected, the runner takes at most five more actions, however
  many sessions are running or start meanwhile, and until it has returned it can take one, if
  only because its grace period runs out.
\<close>

theorem network_runner_winds_down:
  assumes "net_run svc (net_start svc bound c) (before @ leave # after) = Some s"
    and "leave = SelectsCancellation \<or> leave = ServingStops r"
  shows "length (filter runner_action after) \<le> 5 \<and>
    ((\<exists>r. nts_main s = Finished (Ended r)) \<or>
     net_act svc s NetCalls \<noteq> None \<or> net_act svc s GraceRunsOut \<noteq> None)"
proof -
  obtain t u where t: "net_act svc t leave = Some u" "net_run svc u after = Some s"
    using assms(1) by (auto simp: net_run_append bind_eq_Some_conv split: option.splits)
  have "spends net_weight (nts_main u) 5"
    using t(1) assms(2) net_leave_spends by (auto split: program.splits net_phase.splits if_splits)
  then obtain m where m: "length (filter runner_action after) \<le> 5" "spends net_weight (nts_main s) m"
    using net_winds_run [OF _ t(2)] by blast
  have "(\<exists>r. nts_main s = Finished (Ended r)) \<or> net_act svc s NetCalls \<noteq> None \<or> net_act svc s GraceRunsOut \<noteq> None"
  proof (cases "finished (nts_main s)")
    case True
    then obtain phase where "nts_main s = Finished phase" by (auto simp: finished_iff)
    with m(2) show ?thesis by (cases phase) (auto simp: net_weight_def)
  qed (auto split: prod.splits)
  with m(1) show ?thesis by blast
qed

section \<open>A run\<close>

lemmas net_eval = controller_eval program_eval net_start_def net_setup_def net_drain_def net_finish_def
  counting_simps

definition listed_headers :: header_map where
  "listed_headers name = (if name = ''host'' then Some (Some ''LOCALHOST'') else Some (Some ''http://localhost''))"

lemma listed_admitted:
  assumes "header_policy_new example_types [''localhost''] [''http://localhost''] required = Inr policy"
  shows "policy_validate example_types policy listed_headers = Inr ()"
  using policy_admits_iff [OF assms, of listed_headers] example_headers by (auto simp: listed_headers_def)

definition listed_http :: http_transport_config where
  "listed_http = http_default\<lparr>hc_allowed_hosts := [''localhost''], hc_allowed_origins := [''http://localhost'']\<rparr>"

text \<open>A handler whose factory failed is still to report when the server has drained.\<close>

definition example_incoming :: http_incoming where
  "example_incoming = \<lparr>in_path = ''/mcp'', in_headers = listed_headers, in_body = ''{}''\<rparr>"

definition example_rmcp :: rmcp_lib where
  "example_rmcp =
     \<lparr>rmcp_handles = (\<lambda>cfg req. length (in_body req) \<le> rmcp_max_request_body_bytes cfg \<and>
        (rmcp_stateless_metadata_required cfg \<longrightarrow> in_headers req ''mcp-protocol-version'' \<noteq> None)),
      rmcp_metadata = (\<lambda>req. in_headers req ''mcp-protocol-version'' \<noteq> None)\<rparr>"

lemma example_rmcp_documented: "documented_rmcp example_rmcp"
  by (simp add: documented_rmcp_def example_rmcp_def)

definition example_http_requests :: "(http_incoming \<times> (io_error + unit)) net_action list" where
  "example_http_requests =
     [NetCalls, NetCalls, RouterOpens, RequestArrives (example_incoming, Inl (IoError OtherKind ''x'')), TokenCancelled,
      SelectsCancellation, NetCalls, DrainCompletes (Inr ()), NetCalls, NetCalls]"

lemma listed_http_validates: "http_validate example_types listed_http = Inr ()"
  using example_defaults_valid(1) example_policy [of False]
  by (auto simp: http_validate_Inr listed_http_def is_ok_iff)

lemma example_http_run:
  "\<exists>s. net_run (http_service example_types example_rmcp listed_http)
       (net_start (http_service example_types example_rmcp listed_http) (Inr ()) (fresh_controller 8))
       example_http_requests = Some s \<and> nts_main s = Finished (Ended (Inr ())) \<and> nts_live s = [0]"
proof -
  obtain policy where policy: "header_policy_new example_types [''localhost''] [''http://localhost''] False = Inr policy"
    using example_policy by blast
  show ?thesis
    using policy listed_admitted [OF policy] listed_http_validates
    by (simp add: example_http_requests_def net_eval http_service_def build_http_router_def
        strict_header_middleware_def listed_http_def example_incoming_def example_rmcp_def listed_headers_def
        STREAMABLE_HTTP_PATH_def http_default_def http_for_bind_def Let_def split_beta MAX_MESSAGE_BYTES_def)
qed

theorem http_server_conforms_witness:
  "\<exists>s. net_run (http_service example_types example_rmcp listed_http)
       (net_start (http_service example_types example_rmcp listed_http) (Inr ()) (fresh_controller 8))
       example_http_requests = Some s \<and>
     (\<forall>more t. net_run (http_service example_types example_rmcp listed_http) s more = Some t \<longrightarrow> nts_ctl t = nts_ctl s)"
proof -
  obtain s where s: "net_run (http_service example_types example_rmcp listed_http)
       (net_start (http_service example_types example_rmcp listed_http) (Inr ()) (fresh_controller 8))
       example_http_requests = Some s" "nts_main s = Finished (Ended (Inr ()))"
    using example_http_run by blast
  have "controller_new 8 = Inr (fresh_controller 8)" by (simp add: controller_new_eq)
  moreover have "length example_http_requests + 5 < 2 ^ 64" by (simp add: example_http_requests_def)
  ultimately have "conforms (http_service example_types example_rmcp listed_http) (Inr ()) example_http_requests s"
    using http_server_conforms [OF example_rmcp_documented _ listed_http_validates s(1)] by blast
  with s show ?thesis by (simp add: conforms_def)
qed

theorem network_runner_winds_down_witness:
  "\<exists>s. net_run (http_service example_types example_rmcp listed_http)
       (net_start (http_service example_types example_rmcp listed_http) (Inr ()) (fresh_controller 8))
       (take 5 example_http_requests @ SelectsCancellation # drop 6 example_http_requests) = Some s \<and>
     length (filter runner_action (drop 6 example_http_requests)) \<le> 5"
proof -
  have split: "take 5 example_http_requests @ SelectsCancellation # drop 6 example_http_requests = example_http_requests"
    by (simp add: example_http_requests_def)
  obtain s where "net_run (http_service example_types example_rmcp listed_http)
       (net_start (http_service example_types example_rmcp listed_http) (Inr ()) (fresh_controller 8))
       (take 5 example_http_requests @ SelectsCancellation # drop 6 example_http_requests) = Some s"
    using example_http_run by (auto simp: split)
  then show ?thesis using network_runner_winds_down [OF _ disjI1 [OF HOL.refl]] by blast
qed

end
