(* ===== verification/Websocket_Server.thy ===== *)
theory Websocket_Server
  imports Network_Server_Laws
begin

text \<open>
  The WebSocket server with its sessions: its router goes through the states that
  \<open>Websocket_Sessions\<close> describes, so its cap and its gate hold in every run of the server.
\<close>

section \<open>The router goes through the states of its sessions\<close>

text \<open>The router's state and the sessions that run are those of a run of \<open>Websocket_Sessions\<close>.\<close>

definition tracks ::
  "http_types \<Rightarrow> 's semaphore_lib \<Rightarrow> 's websocket_state \<Rightarrow> world \<Rightarrow> 's websocket_state net_server \<Rightarrow> bool" where
  "tracks ht lib st0 w s \<longleftrightarrow>
     (case nts_router s of
        None \<Rightarrow> nts_live s = []
      | Some st \<Rightarrow> \<exists>events. (nts_cancelled s \<longleftrightarrow> CancelServer \<in> set events) \<and>
          foldl (websocket_server_step ht lib) (websocket_server st0 w) events =
            \<lparr>wsv_state = st, wsv_running = nts_live s, wsv_world = w\<rparr>)"

lemma tracks_event:
  assumes "tracks ht lib st0 w s" "nts_router s = Some st"
    and "websocket_server_step ht lib \<lparr>wsv_state = st, wsv_running = nts_live s, wsv_world = w\<rparr> ev =
      \<lparr>wsv_state = st', wsv_running = live, wsv_world = w\<rparr>"
    and "nts_router t = Some st'" "nts_live t = live" "nts_cancelled t \<longleftrightarrow> nts_cancelled s \<or> ev = CancelServer"
  shows "tracks ht lib st0 w t"
proof -
  obtain events where "nts_cancelled s \<longleftrightarrow> CancelServer \<in> set events"
      "foldl (websocket_server_step ht lib) (websocket_server st0 w) events =
         \<lparr>wsv_state = st, wsv_running = nts_live s, wsv_world = w\<rparr>"
    using assms(1,2) by (auto simp: tracks_def)
  with assms(3-6) show ?thesis by (auto simp: tracks_def intro!: exI [of _ "events @ [ev]"])
qed

lemma tracks_same:
  "tracks ht lib st0 w s \<Longrightarrow> nts_router t = nts_router s \<Longrightarrow> nts_live t = nts_live s \<Longrightarrow>
     nts_cancelled t = nts_cancelled s \<Longrightarrow> tracks ht lib st0 w t"
  by (simp only: tracks_def)

lemma tracks_act:
  assumes "build_websocket_router ht lib config False = Inr (path, st0)"
    and tracks: "tracks ht lib st0 w s" and act: "net_act (websocket_service ht lib config) s act = Some t"
  shows "tracks ht lib st0 w t"
proof (cases act)
  case RouterOpens
  with act tracks assms(1) show ?thesis
    by (auto simp: tracks_def websocket_service_def websocket_server_def
        split: option.splits sum.splits if_splits intro: exI [of _ "[CancelServer]"] exI [of _ "[]"])
next
  case (SessionGone i dropped)
  with act have t: "i \<in> set (nts_live s)"
      "t = s\<lparr>nts_live := remove1 i (nts_live s), nts_router :=
        map_option (svc_leave (websocket_service ht lib config)) (nts_router s)\<rparr>"
    by (auto split: if_splits)
  with tracks obtain st where "nts_router s = Some st" by (auto simp: tracks_def split: option.splits)
  with t show ?thesis
    by (intro tracks_event [OF tracks, where ev = "SessionDropped i"]) (auto simp: websocket_service_def)
next
  case (RequestArrives req)
  obtain headers factory serve where req: "req = (headers, factory, serve)" by (cases req) auto
  obtain st where st: "nts_router s = Some st" using act RequestArrives by (auto split: option.splits)
  obtain st' response where up: "websocket_upgrade ht lib st headers = (st', response)"
    by (cases "websocket_upgrade ht lib st headers")
  show ?thesis
  proof (cases response)
    case (UpgradeRefused code body)
    with act RequestArrives st up req tracks show ?thesis by (auto simp: websocket_service_def)
  next
    case (Upgraded frame message)
    with act RequestArrives st up req show ?thesis
      by (intro tracks_event [OF tracks, where ev = "Handshake (length (nts_sessions s)) headers"])
        (auto simp: websocket_service_def)
  qed
next
  case TokenCancelled
  with act show ?thesis
  proof (cases "nts_router s")
    case (Some st)
    with act TokenCancelled show ?thesis
      by (intro tracks_event [OF tracks, where ev = CancelServer]) (auto simp: websocket_service_def)
  qed (use tracks in \<open>auto simp: tracks_def\<close>)
qed (use act in \<open>auto intro!: tracks_same [OF tracks] simp: split_beta
    split: program.splits net_phase.splits if_splits\<close>)

lemma tracks_run:
  assumes "build_websocket_router ht lib config False = Inr (path, st0)"
  shows "net_run (websocket_service ht lib config) (net_start (websocket_service ht lib config) bound c) acts = Some t \<Longrightarrow>
    tracks ht lib st0 w t"
proof (induction acts arbitrary: t rule: rev_induct)
  case (snoc act acts)
  then show ?case using tracks_act [OF assms] by (auto simp: net_run_snoc bind_eq_Some_conv)
qed (auto simp: net_start_def tracks_def)

text \<open>
  C7. The WebSocket server in every run: its lifecycle and its result are as for HTTP, sessions
  that outlive the runner included; while it is up, the running sessions and the free permits
  add up to \<open>max_connections\<close>; and a handshake starts a session exactly when the token is not
  cancelled, fewer sessions than that are running and both headers are present and
  allow-listed, and otherwise changes nothing.
\<close>

theorem websocket_server_conforms:
  assumes "documented_semaphore lib available"
    and "controller_new cap = Inr c" "websocket_validate ht config = Inr ()"
    and "net_run (websocket_service ht lib config) (net_start (websocket_service ht lib config) bound c) acts = Some s"
    and "length acts + 5 < 2 ^ 64"
  shows "conforms (websocket_service ht lib config) bound acts s \<and>
    (case nts_router s of
       None \<Rightarrow> nts_live s = []
     | Some st \<Rightarrow> available (wss_permits st) + length (nts_live s) = ws_max_connections config) \<and>
    (case net_act (websocket_service ht lib config) s (RequestArrives (headers, factory, serve)) of
       None \<Rightarrow> nts_router s = None
     | Some t \<Rightarrow>
         if \<not> nts_cancelled s \<and> length (nts_live s) < ws_max_connections config \<and>
           headers_listed ht (ws_allowed_hosts config) (ws_allowed_origins config) True headers
         then nts_sessions t = nts_sessions s @ [connection_program factory serve] \<and>
           nts_live t = nts_live s @ [length (nts_sessions s)] else t = s)"
proof -
  obtain path st0 where router: "build_websocket_router ht lib config False = Inr (path, st0)"
    using assms(3) by (auto simp: build_websocket_router_def websocket_validate_Inr is_ok_iff)
  have conforms: "conforms (websocket_service ht lib config) bound acts s"
    by (rule net_server_conforms [OF services_healthy(2) _ _ assms(2,4,5)])
      (simp_all add: websocket_service_def assms(3) router)
  show ?thesis
  proof (cases "nts_router s")
    case None
    with tracks_run [OF router assms(4)] conforms show ?thesis by (simp add: tracks_def)
  next
    case (Some st)
    let ?w = "example_world []"
    obtain events where e: "nts_cancelled s \<longleftrightarrow> CancelServer \<in> set events"
        "foldl (websocket_server_step ht lib) (websocket_server st0 ?w) events =
           \<lparr>wsv_state = st, wsv_running = nts_live s, wsv_world = ?w\<rparr>"
      using tracks_run [OF router assms(4), of ?w] Some by (auto simp: tracks_def)
    note st = websocket_sessions_inv [OF assms(1) router e(2), simplified]
    have free: "length (nts_live s) < ws_max_connections config \<longleftrightarrow> 0 < available (wss_permits st)"
      using st(1) by linarith
    obtain state' response where up: "websocket_upgrade ht lib st headers = (state', response)"
      by (cases "websocket_upgrade ht lib st headers")
    have "(\<exists>f m. response = Upgraded f m) \<longleftrightarrow> \<not> nts_cancelled s \<and> 0 < available (wss_permits st) \<and>
        headers_listed ht (ws_allowed_hosts config) (ws_allowed_origins config) True headers"
      using acquired [OF assms(1), of "wss_permits st"] up
      by (auto simp: listed_iff [OF st(2)] e(1) st(4) websocket_upgrade_def split: sum.splits option.splits if_splits)
    with Some up st(1) conforms show ?thesis
      unfolding free by (cases response) (auto simp: websocket_service_def)
  qed
qed

section \<open>A run\<close>

text \<open>
  With a cap of one, a session is started, a second handshake is refused, and the session is
  still running, and about to report, when the runner returns the timeout of its drain.
\<close>

definition listed_websocket :: websocket_transport_config where
  "listed_websocket = websocket_default\<lparr>ws_allowed_hosts := [''localhost''],
     ws_allowed_origins := [''http://localhost''], ws_max_connections := 1\<rparr>"

definition example_requests :: "(header_map \<times> (io_error + unit) \<times> serve_outcome) net_action list" where
  "example_requests =
     [NetCalls, NetCalls, RouterOpens, RequestArrives (listed_headers, Inr (), TaskFailed),
      RequestArrives (listed_headers, Inr (), TaskFailed), SessionCalls 0, TokenCancelled,
      SelectsCancellation, NetCalls, GraceRunsOut, NetCalls, NetCalls]"

lemma listed_validates: "websocket_validate example_types listed_websocket = Inr ()"
  using example_defaults_valid(2) example_policy [of True]
  by (auto simp: websocket_validate_Inr listed_websocket_def is_ok_iff)

lemma example_requests_run:
  "\<exists>s. net_run (websocket_service example_types counting_semaphore listed_websocket)
       (net_start (websocket_service example_types counting_semaphore listed_websocket) (Inr ()) (fresh_controller 8))
       example_requests = Some s \<and>
     (\<exists>r. nts_main s = Finished (Ended r)) \<and> nts_live s = [0] \<and> \<not> finished (nts_sessions s ! 0)"
proof -
  obtain policy where policy: "header_policy_new example_types [''localhost''] [''http://localhost''] True = Inr policy"
    using example_policy by blast
  show ?thesis
    using policy listed_admitted [OF policy] listed_validates
    by (simp add: example_requests_def net_eval websocket_service_def build_websocket_router_def
        websocket_upgrade_def listed_websocket_def)
qed

theorem websocket_server_conforms_witness:
  "\<exists>s. net_run (websocket_service example_types counting_semaphore listed_websocket)
       (net_start (websocket_service example_types counting_semaphore listed_websocket) (Inr ()) (fresh_controller 8))
       example_requests = Some s \<and> nts_live s = [0] \<and> state_of (nts_ctl s) = Stopped"
proof -
  obtain s r where s: "net_run (websocket_service example_types counting_semaphore listed_websocket)
       (net_start (websocket_service example_types counting_semaphore listed_websocket) (Inr ()) (fresh_controller 8))
       example_requests = Some s" "nts_main s = Finished (Ended r)" "nts_live s = [0]"
    using example_requests_run by blast
  have "controller_new 8 = Inr (fresh_controller 8)" by (simp add: controller_new_eq)
  moreover have "length example_requests + 5 < 2 ^ 64" by (simp add: example_requests_def)
  ultimately have "conforms (websocket_service example_types counting_semaphore listed_websocket) (Inr ()) example_requests s"
    using websocket_server_conforms [OF counting_documented _ listed_validates s(1)] by blast
  with s show ?thesis by (auto simp: conforms_def)
qed

end
