(* ===== verification/Program_Threads.thy ===== *)
theory Program_Threads
  imports Rely_Guarantee
begin

text \<open>
  Programs on threads. A server is a main program, the programs of its handlers, and the rest of
  its state, with actions of its own; here each call of a program is made by a thread, as
  \<open>Lifecycle_Threads\<close> describes it, access by access under the mutex, while other threads and
  the server's own actions go on. The same server whose calls are atomic simulates it, so what
  is shown of servers with atomic calls holds of threads.
\<close>

section \<open>Programs and calls\<close>

definition next_call :: "'a program \<Rightarrow> call option" where
  "next_call p =
     (case p of Finished _ \<Rightarrow> None | Transit ev _ \<Rightarrow> Some (CallTransition ev) | Look _ \<Rightarrow> Some CallSnapshot)"

text \<open>A program goes on with the answer to its call.\<close>

definition resume :: "'a program \<Rightarrow> answer \<Rightarrow> 'a program" where
  "resume p a =
     (case (p, a) of
        (Transit _ k, AnsTransition r) \<Rightarrow> k r
      | (Look k, AnsSnapshot r) \<Rightarrow> k r
      | _ \<Rightarrow> p)"

lemma next_call_finished: "next_call p = None \<longleftrightarrow> finished p"
  by (cases p) (simp_all add: next_call_def)

lemma advance_resumes:
  "next_call p = Some c \<Longrightarrow> atomic_call view c d = (e, a) \<Longrightarrow> advance p d = (resume p a, e)"
  by (cases p) (auto simp: next_call_def resume_def split: prod.splits)

section \<open>Servers\<close>

text \<open>
  The actions of a server, on its main program, its handlers and the rest of its state; which
  handlers may call; and whose end an action is, for a handler does not end in the middle of a
  call.
\<close>

record ('p, 'x, 'l) server_actions =
  sa_local :: "'p program \<Rightarrow> unit program list \<Rightarrow> 'x \<Rightarrow> 'l \<Rightarrow> ('p program \<times> unit program list \<times> 'x) option"
  sa_calling :: "'x \<Rightarrow> nat set"
  sa_ends :: "'l \<Rightarrow> nat option"

record ('p, 'x) threaded =
  tn_threads :: threads
  tn_main :: "'p program"
  tn_handlers :: "unit program list"
  tn_rest :: 'x

text \<open>The main program runs on thread 0, handler \<open>i\<close> on thread \<open>Suc i\<close>.\<close>

inductive threaded_step ::
  "watch_view \<Rightarrow> ('p, 'x, 'l) server_actions \<Rightarrow> ('p, 'x) threaded \<Rightarrow> 'l option \<Rightarrow> ('p, 'x) threaded \<Rightarrow> bool"
  for view sa where
  main_invokes: "next_call (tn_main s) = Some c \<Longrightarrow>
    thread_step view (tn_threads s) (Some (Invoke 0 c)) th \<Longrightarrow>
    threaded_step view sa s None (s\<lparr>tn_threads := th\<rparr>)"
| handler_invokes: "i \<in> sa_calling sa (tn_rest s) \<Longrightarrow> i < length (tn_handlers s) \<Longrightarrow>
    next_call (tn_handlers s ! i) = Some c \<Longrightarrow>
    thread_step view (tn_threads s) (Some (Invoke (Suc i) c)) th \<Longrightarrow>
    threaded_step view sa s None (s\<lparr>tn_threads := th\<rparr>)"
| accesses: "thread_step view (tn_threads s) None th \<Longrightarrow>
    threaded_step view sa s None (s\<lparr>tn_threads := th\<rparr>)"
| main_returns: "thread_step view (tn_threads s) (Some (Reply 0 a)) th \<Longrightarrow>
    threaded_step view sa s None (s\<lparr>tn_threads := th, tn_main := resume (tn_main s) a\<rparr>)"
| handler_returns: "thread_step view (tn_threads s) (Some (Reply (Suc i) a)) th \<Longrightarrow>
    threaded_step view sa s None
      (s\<lparr>tn_threads := th, tn_handlers := (tn_handlers s)[i := resume (tn_handlers s ! i) a]\<rparr>)"
| acts: "sa_local sa (tn_main s) (tn_handlers s) (tn_rest s) l = Some (p, hs, x) \<Longrightarrow>
    (\<And>i. sa_ends sa l = Some i \<Longrightarrow> th_pc (tn_threads s) (Suc i) = Idle) \<Longrightarrow>
    threaded_step view sa s (Some l) (s\<lparr>tn_main := p, tn_handlers := hs, tn_rest := x\<rparr>)"

text \<open>The same with atomic calls.\<close>

record ('p, 'x) atomic_server =
  sv_ctl :: controller
  sv_main :: "'p program"
  sv_handlers :: "unit program list"
  sv_rest :: 'x

inductive atomic_server_step ::
  "('p, 'x, 'l) server_actions \<Rightarrow> ('p, 'x) atomic_server \<Rightarrow> 'l option \<Rightarrow> ('p, 'x) atomic_server \<Rightarrow> bool"
  for sa where
  main_calls: "\<not> finished (sv_main s) \<Longrightarrow> advance (sv_main s) (sv_ctl s) = (p, c) \<Longrightarrow>
    atomic_server_step sa s None (s\<lparr>sv_ctl := c, sv_main := p\<rparr>)"
| handler_calls: "i \<in> sa_calling sa (sv_rest s) \<Longrightarrow> i < length (sv_handlers s) \<Longrightarrow>
    \<not> finished (sv_handlers s ! i) \<Longrightarrow> advance (sv_handlers s ! i) (sv_ctl s) = (p, c) \<Longrightarrow>
    atomic_server_step sa s None (s\<lparr>sv_ctl := c, sv_handlers := (sv_handlers s)[i := p]\<rparr>)"
| acts: "sa_local sa (sv_main s) (sv_handlers s) (sv_rest s) l = Some (p, hs, x) \<Longrightarrow>
    atomic_server_step sa s (Some l) (s\<lparr>sv_main := p, sv_handlers := hs, sv_rest := x\<rparr>)"

section \<open>The interface of a server\<close>

text \<open>
  An action changes the main program only where it has no call to make, and then whatever the
  handlers are doing; it only adds handlers; it looks at no handler but the one whose end it is;
  and it stops no other handler from calling.
\<close>

locale spawning_server =
  fixes sa :: "('p, 'x, 'l) server_actions"
  assumes main_untouched: "sa_local sa p hs x l = Some (q, gs, y) \<Longrightarrow> \<not> finished p \<Longrightarrow>
      q = p \<and> sa_local sa p' hs x l = Some (p', gs, y)"
    and handlers_kept: "sa_local sa p hs x l = Some (q, gs, y) \<Longrightarrow> \<exists>new. gs = hs @ new \<and>
      (\<forall>hs'. length hs' = length hs \<and> (\<forall>i. sa_ends sa l = Some i \<longrightarrow> hs' ! i = hs ! i) \<longrightarrow>
         sa_local sa p hs' x l = Some (q, hs' @ new, y))"
    and still_calling: "sa_local sa p hs x l = Some (q, gs, y) \<Longrightarrow> i \<in> sa_calling sa x \<Longrightarrow>
      sa_ends sa l \<noteq> Some i \<Longrightarrow> i \<in> sa_calling sa y"
    and ends_calling: "sa_local sa p hs x l = Some (q, gs, y) \<Longrightarrow> sa_ends sa l = Some i \<Longrightarrow> i \<in> sa_calling sa x"
    and calling_new: "sa_local sa p hs x l = Some (q, gs, y) \<Longrightarrow> i \<in> sa_calling sa y \<Longrightarrow>
      i \<in> sa_calling sa x \<or> length hs \<le> i \<and> i < length gs"
begin

end

section \<open>The simulation\<close>

text \<open>A call that has been committed and not yet returned has already advanced its program.\<close>

definition ahead :: "atomic_pc \<Rightarrow> 'a program \<Rightarrow> 'a program" where
  "ahead pc p = (case pc of AAnswered a \<Rightarrow> resume p a | _ \<Rightarrow> p)"

definition fits :: "atomic_pc \<Rightarrow> 'a program \<Rightarrow> bool" where
  "fits pc p = (case pc of AIdle \<Rightarrow> True | ACalled c \<Rightarrow> next_call p = Some c
     | AAnswered _ \<Rightarrow> \<not> finished p | ADead \<Rightarrow> False)"

definition threads_agree ::
  "('p, 'x, 'l) server_actions \<Rightarrow> ('p, 'x) threaded \<Rightarrow> atomic \<Rightarrow> ('p, 'x) atomic_server \<Rightarrow> bool" where
  "threads_agree sa s a m \<longleftrightarrow> linearized (tn_threads s) a \<and> sv_ctl m = am_ctl a \<and> sv_rest m = tn_rest s \<and>
     fits (am_pc a 0) (tn_main s) \<and> sv_main m = ahead (am_pc a 0) (tn_main s) \<and>
     length (sv_handlers m) = length (tn_handlers s) \<and>
     (\<forall>i < length (tn_handlers s). fits (am_pc a (Suc i)) (tn_handlers s ! i) \<and>
        sv_handlers m ! i = ahead (am_pc a (Suc i)) (tn_handlers s ! i)) \<and>
     (\<forall>i. am_pc a (Suc i) \<noteq> AIdle \<longrightarrow> i \<in> sa_calling sa (tn_rest s)) \<and>
     (\<forall>i \<in> sa_calling sa (tn_rest s). i < length (tn_handlers s))"

lemma ahead_simps [simp]:
  "ahead AIdle p = p" "ahead (ACalled c) p = p" "ahead (AAnswered a) p = resume p a"
  by (simp_all add: ahead_def)

lemma fits_simps [simp]:
  "fits AIdle p" "fits (ACalled c) p \<longleftrightarrow> next_call p = Some c" "fits (AAnswered a) p \<longleftrightarrow> \<not> finished p"
  "\<not> fits ADead p"
  by (simp_all add: fits_def)

inductive_cases atomic_invokesE: "atomic_step view a (Some (Invoke t c)) b"
inductive_cases atomic_repliesE: "atomic_step view a (Some (Reply t r)) b"
inductive_cases atomic_commitsE: "atomic_step view a None b"

lemma fits_finished: "fits pc p \<Longrightarrow> finished p \<Longrightarrow> pc = AIdle"
  by (cases pc) (auto simp: next_call_finished [symmetric])

lemma abs_idle: "abs_pc pc = AIdle \<longleftrightarrow> pc = Idle"
  by (cases pc) simp_all

lemma invoked_agrees:
  assumes R: "threads_agree sa s a m" and st: "thread_step view (tn_threads s) (Some (Invoke t c)) th"
    and call: "t = 0 \<and> next_call (tn_main s) = Some c \<or> (\<exists>i. t = Suc i \<and> i \<in> sa_calling sa (tn_rest s) \<and>
      i < length (tn_handlers s) \<and> next_call (tn_handlers s ! i) = Some c)"
  shows "\<exists>b. threads_agree sa (s\<lparr>tn_threads := th\<rparr>) b m"
proof -
  have "linearized (tn_threads s) a" using R by (simp add: threads_agree_def)
  then obtain b where b: "atomic_step view a (Some (Invoke t c)) b" "linearized th b"
    using simulate_step [OF _ st] by blast
  from b(1) have "am_pc a t = AIdle" "b = a\<lparr>am_pc := (am_pc a)(t := ACalled c)\<rparr>"
    by (auto elim: atomic_invokesE)
  with R b(2) call have "threads_agree sa (s\<lparr>tn_threads := th\<rparr>) b m"
    by (auto simp: threads_agree_def)
  then show ?thesis by blast
qed

lemma returned_agrees:
  assumes R: "threads_agree sa s a m" and st: "thread_step view (tn_threads s) (Some (Reply t r)) th"
  shows "\<exists>b. threads_agree sa (case t of
      0 \<Rightarrow> s\<lparr>tn_threads := th, tn_main := resume (tn_main s) r\<rparr>
    | Suc i \<Rightarrow> s\<lparr>tn_threads := th, tn_handlers := (tn_handlers s)[i := resume (tn_handlers s ! i) r]\<rparr>) b m"
proof -
  have "linearized (tn_threads s) a" using R by (simp add: threads_agree_def)
  then obtain b where b: "atomic_step view a (Some (Reply t r)) b" "linearized th b"
    using simulate_step [OF _ st] by blast
  from b(1) have pc: "am_pc a t = AAnswered r" "b = a\<lparr>am_pc := (am_pc a)(t := AIdle)\<rparr>"
    by (auto elim: atomic_repliesE)
  have "threads_agree sa (case t of
      0 \<Rightarrow> s\<lparr>tn_threads := th, tn_main := resume (tn_main s) r\<rparr>
    | Suc i \<Rightarrow> s\<lparr>tn_threads := th, tn_handlers := (tn_handlers s)[i := resume (tn_handlers s ! i) r]\<rparr>) b m"
    using R b(2) pc by (auto simp: threads_agree_def nth_list_update split: nat.splits)
  then show ?thesis by blast
qed

lemma accessed_agrees:
  assumes R: "threads_agree sa s a m" and st: "thread_step view (tn_threads s) None th"
  shows "threads_agree sa (s\<lparr>tn_threads := th\<rparr>) a m \<or>
    (\<exists>b n. atomic_server_step sa m None n \<and> threads_agree sa (s\<lparr>tn_threads := th\<rparr>) b n)"
proof -
  have "linearized (tn_threads s) a" using R by (simp add: threads_agree_def)
  then consider "linearized th a" | b where "atomic_step view a None b" "linearized th b"
    using simulate_step [OF _ st] by blast
  then show ?thesis
  proof cases
    case 1
    with R have "threads_agree sa (s\<lparr>tn_threads := th\<rparr>) a m" by (simp add: threads_agree_def)
    then show ?thesis by blast
  next
    case 2
    from 2(1) obtain t c d r where c: "am_pc a t = ACalled c" "atomic_call view c (am_ctl a) = (d, r)"
        "b = \<lparr>am_ctl = d, am_pc = (am_pc a)(t := AAnswered r)\<rparr>"
      by (auto elim: atomic_commitsE)
    show ?thesis
    proof (cases t)
      case 0
      with R c(1) have p: "next_call (tn_main s) = Some c" "sv_main m = tn_main s" "sv_ctl m = am_ctl a"
        by (auto simp: threads_agree_def)
      then have "atomic_server_step sa m None (m\<lparr>sv_ctl := d, sv_main := resume (tn_main s) r\<rparr>)"
        using advance_resumes [OF p(1) c(2)]
        by (intro atomic_server_step.main_calls) (auto simp: next_call_finished [symmetric])
      moreover have "threads_agree sa (s\<lparr>tn_threads := th\<rparr>) b (m\<lparr>sv_ctl := d, sv_main := resume (tn_main s) r\<rparr>)"
        using R 2(2) c 0 p(1) by (auto simp: threads_agree_def next_call_finished [symmetric])
      ultimately show ?thesis by blast
    next
      case (Suc i)
      with R c(1) have i: "i < length (tn_handlers s)" "i \<in> sa_calling sa (tn_rest s)"
        unfolding threads_agree_def by auto
      then have "fits (am_pc a (Suc i)) (tn_handlers s ! i) \<and> sv_handlers m ! i = ahead (am_pc a (Suc i)) (tn_handlers s ! i)"
        using R by (simp add: threads_agree_def)
      with R c(1) Suc have p: "next_call (tn_handlers s ! i) = Some c" "sv_handlers m ! i = tn_handlers s ! i"
          "sv_ctl m = am_ctl a" "length (sv_handlers m) = length (tn_handlers s)" "sv_rest m = tn_rest s"
        by (simp_all add: threads_agree_def)
      let ?n = "m\<lparr>sv_ctl := d, sv_handlers := (sv_handlers m)[i := resume (tn_handlers s ! i) r]\<rparr>"
      have "atomic_server_step sa m None ?n"
        using advance_resumes [OF p(1) c(2)] i p
        by (intro atomic_server_step.handler_calls) (auto simp: next_call_finished [symmetric])
      moreover have "threads_agree sa (s\<lparr>tn_threads := th\<rparr>) b ?n"
        using R 2(2) c Suc p(1) i by (auto simp: threads_agree_def next_call_finished [symmetric] nth_list_update)
      ultimately show ?thesis by blast
    qed
  qed
qed

subsection \<open>Steps counted\<close>

text \<open>
  How far a thread is with its call. With nine steps charged to each call when it is committed,
  the balance of the thread that moves grows by one at least with every other step.
\<close>

fun position :: "thread_pc \<Rightarrow> nat" where
  "position Idle = 0"
| "position (Called _) = 1"
| "position (Holding _) = 2"
| "position (ReadOne _) = 3"
| "position (Checked _ _ _ _) = 3"
| "position (Stored _ _ _ _) = 4"
| "position (Evicted _ _ _ _) = 5"
| "position (Recorded _ _ _ _) = 6"
| "position (Sent _) = 7"
| "position (Answered _) = 8"
| "position Dead = 0"

definition balance :: "thread_pc \<Rightarrow> int" where
  "balance pc = int (position pc) - (case abs_pc pc of AAnswered _ \<Rightarrow> 9 | _ \<Rightarrow> 0)"

definition balances :: "nat \<Rightarrow> threads \<Rightarrow> int" where
  "balances k th = (\<Sum>t \<le> k. balance (th_pc th t))"

lemma balance_bounds: "-2 \<le> balance pc" "balance pc \<le> 6"
  by (cases pc; simp add: balance_def)+

lemma balances_bounds: "- 2 * int k - 2 \<le> balances k th" "balances k th \<le> 6 * int k + 6"
  using sum_bounded_below [of "{..k}" "-2 :: int" "\<lambda>t. balance (th_pc th t)"]
    sum_bounded_above [of "{..k}" "\<lambda>t. balance (th_pc th t)" 6]
  by (simp_all add: balances_def balance_bounds algebra_simps)

lemma balances_upd:
  "t \<le> k \<Longrightarrow> th_pc th' = (th_pc th)(t := pc) \<Longrightarrow>
     balances k th' = balances k th + balance pc - balance (th_pc th t)"
  by (simp add: balances_def sum.remove [of "{..k}" t])

lemma access_moves:
  assumes "thread_step view th None th'"
  obtains t pc where "th_pc th' = (th_pc th)(t := pc)" "position (th_pc th t) < position pc"
    "abs_pc (th_pc th t) \<noteq> AIdle"
  using assms by cases fastforce+

lemma access_balance:
  assumes "thread_step view th None th'" "\<And>t. th_pc th t \<noteq> Idle \<Longrightarrow> t \<le> k"
  shows "balances k th - 8 \<le> balances k th'"
    and "linearized th a \<Longrightarrow> linearized th' a \<Longrightarrow> balances k th + 1 \<le> balances k th'"
proof -
  obtain t pc where t: "th_pc th' = (th_pc th)(t := pc)" "position (th_pc th t) < position pc"
      "abs_pc (th_pc th t) \<noteq> AIdle"
    using assms(1) by (rule access_moves)
  then have k: "balances k th' = balances k th + balance pc - balance (th_pc th t)"
    using assms(2) by (intro balances_upd) (auto simp: abs_idle)
  show "balances k th - 8 \<le> balances k th'"
    using t(2) unfolding k by (auto simp: balance_def split: atomic_pc.splits)
  show "balances k th + 1 \<le> balances k th'" if "linearized th a" "linearized th' a"
  proof -
    have "abs_pc pc = abs_pc (th_pc th t)"
      using linearizedD(1) [OF that(1), of t] linearizedD(1) [OF that(2), of t] t(1) by simp
    then show ?thesis using t(2) unfolding k by (simp add: balance_def)
  qed
qed

lemma call_balance:
  "thread_step view th (Some (Invoke t c)) th' \<Longrightarrow> t \<le> k \<Longrightarrow> balances k th' = balances k th + 1"
  "thread_step view th (Some (Reply t r)) th' \<Longrightarrow> t \<le> k \<Longrightarrow> balances k th' = balances k th + 1"
  by (erule thread_step.cases; simp add: balances_upd balance_def)+

lemma next_call_cases: "next_call p = Some c \<Longrightarrow> c = CallSnapshot \<or> (\<exists>ev. c = CallTransition ev)"
  by (cases p) (auto simp: next_call_def)

lemma fits_calls:
  "fits pc p \<Longrightarrow> pc \<noteq> ADead \<and> (pc = ACalled c \<longrightarrow> c = CallSnapshot \<or> (\<exists>ev. c = CallTransition ev))"
  using next_call_cases [of p c] by auto

lemma calls_fit:
  assumes "threads_agree sa s a m"
  shows "am_pc a t \<noteq> ADead" "am_pc a t = ACalled c \<Longrightarrow> c = CallSnapshot \<or> (\<exists>ev. c = CallTransition ev)"
proof -
  have "(\<exists>p. fits (am_pc a t) (p :: 'a program)) \<or> (\<exists>q. fits (am_pc a t) (q :: unit program))"
    using assms by (cases t) (auto simp: threads_agree_def, metis fits_simps(1))
  then have "am_pc a t \<noteq> ADead \<and> (am_pc a t = ACalled c \<longrightarrow> c = CallSnapshot \<or> (\<exists>ev. c = CallTransition ev))"
    by (elim disjE exE; intro fits_calls)
  then show "am_pc a t \<noteq> ADead" "am_pc a t = ACalled c \<Longrightarrow> c = CallSnapshot \<or> (\<exists>ev. c = CallTransition ev)"
    by blast+
qed

context spawning_server
begin

lemma acted_agrees:
  assumes R: "threads_agree sa s a m" and act: "sa_local sa (tn_main s) (tn_handlers s) (tn_rest s) l = Some (p, hs, x)"
    and idle: "\<And>i. sa_ends sa l = Some i \<Longrightarrow> th_pc (tn_threads s) (Suc i) = Idle"
  shows "\<exists>n. atomic_server_step sa m (Some l) n \<and>
    threads_agree sa (s\<lparr>tn_main := p, tn_handlers := hs, tn_rest := x\<rparr>) a n"
proof -
  have lin: "am_pc a t = abs_pc (th_pc (tn_threads s) t)" for t
    using R linearizedD(1) by (auto simp: threads_agree_def)
  have free: "am_pc a (Suc i) = AIdle" if "sa_ends sa l = Some i" for i
    using idle [OF that] lin [of "Suc i"] by simp
  define q where "q = (if finished (tn_main s) then p else sv_main m)"
  have main: "sa_local sa (sv_main m) (tn_handlers s) (tn_rest s) l = Some (q, hs, x)"
    "q = ahead (am_pc a 0) p" "fits (am_pc a 0) p"
  proof -
    have "fits (am_pc a 0) (tn_main s)" "sv_main m = ahead (am_pc a 0) (tn_main s)"
      using R by (simp_all add: threads_agree_def)
    then show "sa_local sa (sv_main m) (tn_handlers s) (tn_rest s) l = Some (q, hs, x)"
        "q = ahead (am_pc a 0) p" "fits (am_pc a 0) p"
      using act main_untouched [OF act, of "sv_main m"] fits_finished [of "am_pc a 0" "tn_main s"]
      by (cases "finished (tn_main s)"; simp add: q_def)+
  qed
  obtain new where new: "hs = tn_handlers s @ new" and any:
    "\<And>hs'. length hs' = length (tn_handlers s) \<Longrightarrow> (\<And>i. sa_ends sa l = Some i \<Longrightarrow> hs' ! i = tn_handlers s ! i) \<Longrightarrow>
       sa_local sa (sv_main m) hs' (tn_rest s) l = Some (q, hs' @ new, x)"
    using handlers_kept [OF main(1)] by blast
  have "sa_local sa (sv_main m) (sv_handlers m) (tn_rest s) l = Some (q, sv_handlers m @ new, x)"
  proof (rule any)
    show "sv_handlers m ! i = tn_handlers s ! i" if "sa_ends sa l = Some i" for i
      using R free [OF that] ends_calling [OF act that] by (auto simp: threads_agree_def)
  qed (use R in \<open>simp add: threads_agree_def\<close>)
  moreover have "sv_rest m = tn_rest s" using R by (simp add: threads_agree_def)
  ultimately have "atomic_server_step sa m (Some l) (m\<lparr>sv_main := q, sv_handlers := sv_handlers m @ new, sv_rest := x\<rparr>)"
    by (intro atomic_server_step.acts) simp
  moreover have "threads_agree sa (s\<lparr>tn_main := p, tn_handlers := hs, tn_rest := x\<rparr>) a
      (m\<lparr>sv_main := q, sv_handlers := sv_handlers m @ new, sv_rest := x\<rparr>)"
  proof -
    have "am_pc a (Suc i) = AIdle" if "\<not> i < length (tn_handlers s)" for i
      using R that by (auto simp: threads_agree_def)
    moreover have "i \<in> sa_calling sa x" if "am_pc a (Suc i) \<noteq> AIdle" for i
      using R that free by (intro still_calling [OF act]) (auto simp: threads_agree_def)
    moreover have "i < length hs" if "i \<in> sa_calling sa x" for i
      using calling_new [OF act that] R by (auto simp: threads_agree_def new)
    ultimately show ?thesis
      using R main(2,3) by (auto simp: threads_agree_def new nth_append)
  qed
  ultimately show ?thesis by blast
qed

text \<open>Each step on threads is a step with atomic calls, or one that is charged to such a call.\<close>

lemma busy_threads: "threads_agree sa s a m \<Longrightarrow> th_pc (tn_threads s) t \<noteq> Idle \<Longrightarrow> t \<le> length (tn_handlers s)"
  by (cases t) (auto simp: threads_agree_def linearized_def abs_idle dest: Suc_leI)

lemma threads_simulated:
  assumes R: "threads_agree sa s a m" and st: "threaded_step view sa s l s'"
    and k: "length (tn_handlers s) \<le> k"
  shows "\<exists>b. l = None \<and> threads_agree sa s' b m \<and> balances k (tn_threads s) + 1 \<le> balances k (tn_threads s') \<or>
    (\<exists>n. atomic_server_step sa m l n \<and> threads_agree sa s' b n \<and>
      balances k (tn_threads s) - 8 \<le> balances k (tn_threads s'))"
  using st
proof cases
  case (main_invokes c th)
  with invoked_agrees [OF R, of view 0 c th] call_balance(1) [of view _ 0 c th k] show ?thesis by auto
next
  case (handler_invokes i c th)
  with invoked_agrees [OF R, of view "Suc i" c th] call_balance(1) [of view _ "Suc i" c th k] k
  show ?thesis by auto
next
  case (accesses th)
  note bal = access_balance [OF accesses(3) order_trans [OF busy_threads [OF R] k]]
  from accessed_agrees [OF R accesses(3)] show ?thesis
  proof
    assume same: "threads_agree sa (s\<lparr>tn_threads := th\<rparr>) a m"
    with R have "linearized (tn_threads s) a" "linearized th a" by (simp_all add: threads_agree_def)
    with bal(2) same accesses show ?thesis by auto
  qed (use bal(1) accesses in auto)
next
  case (main_returns r th)
  with returned_agrees [OF R, of view 0 r th] call_balance(2) [of view _ 0 r th k] show ?thesis by auto
next
  case (handler_returns i r th)
  have "th_pc (tn_threads s) (Suc i) \<noteq> Idle" using handler_returns(3) by cases auto
  with busy_threads [OF R] k have "Suc i \<le> k" by (meson order_trans)
  with handler_returns returned_agrees [OF R, of view "Suc i" r th] call_balance(2) [of view _ "Suc i" r th k]
  show ?thesis by auto
next
  case (acts l p hs x)
  with acted_agrees [OF R acts(3)] show ?thesis by auto
qed

lemma handlers_stay: "threaded_step view sa s l s' \<Longrightarrow> length (tn_handlers s) \<le> length (tn_handlers s')"
  by (erule threaded_step.cases) (use handlers_kept in fastforce)+

lemma handlers_stay_trail:
  "trail (threaded_step view sa) s ls s' \<Longrightarrow> length (tn_handlers s) \<le> length (tn_handlers s')"
  by (induction ls arbitrary: s) (auto dest!: handlers_stay intro: order_trans)

text \<open>So runs on threads are runs with atomic calls, and not much longer.\<close>

lemma trail_simulated:
  assumes "trail (threaded_step view sa) s ls s'" "threads_agree sa s a m" "length (tn_handlers s') \<le> k"
  shows "\<exists>ks n b. trail (atomic_server_step sa) m ks n \<and> threads_agree sa s' b n \<and> observed ks = observed ls \<and>
    int (length ls) + balances k (tn_threads s) \<le> 9 * int (length ks) + balances k (tn_threads s')"
  using assms(1,2)
proof (induction ls arbitrary: s a m)
  case Nil
  then show ?case by (intro exI [of _ "[]"] exI [of _ m] exI [of _ a]) simp
next
  case (Cons l ls)
  then obtain u where u: "threaded_step view sa s l u" "trail (threaded_step view sa) u ls s'" by auto
  have "length (tn_handlers s) \<le> k" using handlers_stay [OF u(1)] handlers_stay_trail [OF u(2)] assms(3) by simp
  from threads_simulated [OF Cons.prems(2) u(1) this] show ?case
  proof (elim exE disjE conjE)
    fix b assume b: "l = None" "threads_agree sa u b m" "balances k (tn_threads s) + 1 \<le> balances k (tn_threads u)"
    from Cons.IH [OF u(2) b(2)] obtain ks n' b' where ks: "trail (atomic_server_step sa) m ks n'"
        "threads_agree sa s' b' n'" "observed ks = observed ls"
        "int (length ls) + balances k (tn_threads u) \<le> 9 * int (length ks) + balances k (tn_threads s')"
      by blast
    with b(1,3) show ?thesis
      by (intro exI [of _ ks] exI [of _ n'] exI [of _ b']) (simp add: observed_Cons)
  next
    fix b n assume b: "atomic_server_step sa m l n" "threads_agree sa u b n"
      "balances k (tn_threads s) - 8 \<le> balances k (tn_threads u)"
    from Cons.IH [OF u(2) b(2)] obtain ks n' b' where ks: "trail (atomic_server_step sa) n ks n'"
        "threads_agree sa s' b' n'" "observed ks = observed ls"
        "int (length ls) + balances k (tn_threads u) \<le> 9 * int (length ks) + balances k (tn_threads s')"
      by blast
    with b show ?thesis
      by (intro exI [of _ "l # ks"] exI [of _ n'] exI [of _ b']) (auto simp: observed_Cons split: option.splits)
  qed
qed

end

end
