(* ===== verification/Program_Schedules.thy ===== *)
theory Program_Schedules
  imports Program_Threads
begin

text \<open>
  What schedules of a server on threads can do: some thread can always go on where one is inside
  a call, threads at rest are the server with atomic calls, and every run with atomic calls is
  the outcome of a run on threads.
\<close>

section \<open>No thread is in the way of another\<close>

text \<open>
  A thread that has called can go on, or the one that has the lock can; no other program has to
  do anything for it.
\<close>

lemma owner_moves:
  assumes "threads_agree sa s a m" "th_owner (tn_threads s) = Some t"
  shows "\<exists>th. thread_step view (tn_threads s) None th"
proof -
  have lin: "linearized (tn_threads s) a" using assms(1) by (simp add: threads_agree_def)
  have "in_section (th_pc (tn_threads s) t)" using linearizedD(2) [OF lin] assms(2) by simp
  moreover have "am_pc a t \<noteq> ACalled CallBorrow"
    using calls_fit [OF assms(1), of t] by auto
  moreover have "am_pc a t = abs_pc (th_pc (tn_threads s) t)" by (rule linearizedD(1) [OF lin])
  ultimately show ?thesis
  proof (cases "th_pc (tn_threads s) t")
    case (Holding c)
    then show ?thesis
    proof (cases c)
      case (CallTransition ev)
      show ?thesis
      proof (cases "transition_target (state_of (th_ctl (tn_threads s))) ev")
        case None
        with Holding CallTransition show ?thesis by (blast intro: thread_step.invalid)
      next
        case (Some target)
        with Holding CallTransition show ?thesis
          by (cases "checked_add_u64 (snap_revision (ctl_snapshot (th_ctl (tn_threads s)))) 1")
            (blast intro: thread_step.exhausted thread_step.check)+
      qed
    qed (use Holding \<open>am_pc a t \<noteq> ACalled CallBorrow\<close> \<open>am_pc a t = abs_pc _\<close> in
      \<open>auto intro: thread_step.intros\<close>)
  qed (auto intro: thread_step.intros)
qed

lemma threads_move:
  assumes R: "threads_agree sa s a m" and t: "th_pc (tn_threads s) t \<noteq> Idle"
  shows "\<exists>s'. threaded_step view sb s None s'"
proof -
  have lin: "linearized (tn_threads s) a" using R by (simp add: threads_agree_def)
  show ?thesis
  proof (cases "th_owner (tn_threads s)")
    case (Some u)
    from owner_moves [OF R this] show ?thesis by (blast intro: threaded_step.accesses)
  next
    case None
    then have "\<not> in_section (th_pc (tn_threads s) t)" using linearizedD(2) [OF lin] by simp
    moreover have "am_pc a t = abs_pc (th_pc (tn_threads s) t)" by (rule linearizedD(1) [OF lin])
    ultimately consider c where "th_pc (tn_threads s) t = Called c" "c \<noteq> CallBorrow"
      | r where "th_pc (tn_threads s) t = Answered r"
      using t calls_fit [OF R, of t] by (cases "th_pc (tn_threads s) t") auto
    then show ?thesis
    proof cases
      case 1
      with None have "\<exists>th. thread_step view (tn_threads s) None th"
        by (cases "ctl_poisoned (th_ctl (tn_threads s))") (blast intro: thread_step.lock thread_step.lock_poisoned)+
      then show ?thesis by (blast intro: threaded_step.accesses)
    next
      case 2
      then have "thread_step view (tn_threads s) (Some (Reply t r)) (at_pc (tn_threads s) t Idle)"
        by (rule thread_step.reply)
      then show ?thesis
        by (cases t) (blast intro: threaded_step.main_returns threaded_step.handler_returns)+
    qed
  qed
qed

text \<open>Where no thread is in a call, the server with atomic calls is the server on threads.\<close>

lemma all_idle:
  assumes "threads_agree sa s a m" "\<And>t. th_pc (tn_threads s) t = Idle"
  shows "th_owner (tn_threads s) = None" "sv_main m = tn_main s" "sv_handlers m = tn_handlers s"
    and "\<not> ctl_poisoned (th_ctl (tn_threads s)) \<Longrightarrow> sv_ctl m = th_ctl (tn_threads s)"
proof -
  have lin: "linearized (tn_threads s) a" using assms(1) by (simp add: threads_agree_def)
  show owner: "th_owner (tn_threads s) = None"
    using linearizedD(2) [OF lin] assms(2) by (metis in_section_simps(1) not_Some_eq)
  have "am_pc a t = AIdle" for t using linearizedD(1) [OF lin] assms(2) by simp
  with assms(1) show "sv_main m = tn_main s" "sv_handlers m = tn_handlers s"
    by (auto simp: threads_agree_def intro!: nth_equalityI)
  show "sv_ctl m = th_ctl (tn_threads s)" if "\<not> ctl_poisoned (th_ctl (tn_threads s))"
    using linearizedD(4,6) [OF lin] owner assms(1) that by (auto simp: threads_agree_def)
qed

lemma checked_add_grows: "checked_add_u64 n 1 = Some k \<Longrightarrow> unat n < unat k"
  by (auto simp: checked_add_u64_Some)

text \<open>The data that the lock protects is never behind what was committed.\<close>

lemma data_ahead:
  assumes "threads_agree sa s a m" "\<not> ctl_poisoned (th_ctl (tn_threads s))"
  shows "revision_of (sv_ctl m) \<le> revision_of (th_ctl (tn_threads s))"
proof -
  have lin: "linearized (tn_threads s) a" and ctl: "sv_ctl m = am_ctl a"
    using assms(1) by (simp_all add: threads_agree_def)
  show ?thesis
  proof (cases "th_owner (tn_threads s)")
    case None
    then show ?thesis using linearizedD(4,6) [OF lin] assms(2) by (auto simp: ctl)
  next
    case (Some t)
    then have "in_flight (am_ctl a) (th_pc (tn_threads s) t) (th_ctl (tn_threads s))"
      using linearizedD(5) [OF lin] by blast
    then show ?thesis
      by (cases "th_pc (tn_threads s) t")
        (auto simp: ctl decided_def dest: checked_add_grows)
  qed
qed

section \<open>Threads do all that atomic calls do\<close>

text \<open>A call that nobody disturbs runs to its answer.\<close>

lemma silent_step:
  "thread_step view s None u \<Longrightarrow> \<exists>n. trail (thread_step view) u (replicate n None) v \<Longrightarrow>
     \<exists>n. trail (thread_step view) s (replicate n None) v"
  by (elim exE) (rule_tac x = "Suc n" in exI, auto)

lemma silent_end: "u = v \<Longrightarrow> \<exists>n. trail (thread_step view) u (replicate n None) v"
  by (rule exI [of _ 0]) simp

lemma call_alone:
  assumes "th_pc th t = Called c" "th_owner th = None" "\<not> ctl_poisoned (th_ctl th)" "next_call p = Some c"
    and "atomic_call view c (th_ctl th) = (d, r)"
  shows "\<exists>n. trail (thread_step view) th (replicate n None)
    (th\<lparr>th_ctl := d, th_owner := None, th_pc := (th_pc th)(t := Answered r)\<rparr>)"
proof (cases c)
  case CallSnapshot
  have lock: "thread_step view th None (at_pc (th\<lparr>th_owner := Some t\<rparr>) t (Holding c))"
    using assms(1-3) CallSnapshot by (intro thread_step.lock) auto
  show ?thesis
    by (rule silent_step [OF lock], rule silent_step [OF thread_step.snapshot [where t = t]], simp add: CallSnapshot,
      rule silent_end)
      (use assms(3,5) in \<open>auto intro!: threads.equality simp: CallSnapshot at_pc_def unlock_with_def atomic_defs\<close>)
next
  case (CallTransition ev)
  have lock: "thread_step view th None (at_pc (th\<lparr>th_owner := Some t\<rparr>) t (Holding c))"
    using assms(1-3) CallTransition by (intro thread_step.lock) auto
  note step = silent_step [OF lock]
  show ?thesis
  proof (cases "transition_target (state_of (th_ctl th)) ev")
    case None
    show ?thesis
      by (rule step, rule silent_step [OF thread_step.invalid [where t = t, OF _ HOL.refl]],
        simp add: CallTransition, simp add: None, rule silent_end)
        (use assms(3,5) None in \<open>auto intro!: threads.equality simp: CallTransition at_pc_def unlock_with_def atomic_defs\<close>)
  next
    case target: (Some target)
    show ?thesis
    proof (cases "checked_add_u64 (snap_revision (ctl_snapshot (th_ctl th))) 1")
      case None
      show ?thesis
        by (rule step, rule silent_step [OF thread_step.exhausted [where t = t]],
          simp add: CallTransition, simp add: target, simp add: None, rule silent_end)
          (use assms(3,5) None target in \<open>auto intro!: threads.equality simp: CallTransition at_pc_def unlock_with_def atomic_defs\<close>)
    next
      case (Some revision)
      show ?thesis
        by (rule step, rule silent_step [OF thread_step.check [where t = t, OF _ HOL.refl]],
          simp add: CallTransition, simp add: target, simp add: Some,
          rule silent_step [OF thread_step.store [where t = t]], simp,
          rule silent_step [OF thread_step.evict [where t = t]], simp,
          rule silent_step [OF thread_step.record_it [where t = t]], simp,
          rule silent_step [OF thread_step.send [where t = t]], simp,
          rule silent_step [OF thread_step.release [where t = t]], simp, rule silent_end)
          (use assms(3,5) Some target in
            \<open>auto intro!: threads.equality simp: CallTransition at_pc_def unlock_with_def atomic_defs push_audit_def Let_def\<close>)
    qed
  qed
qed (use assms(4) next_call_cases in auto)

definition on_threads :: "('p, 'x) atomic_server \<Rightarrow> ('p, 'x) threaded" where
  "on_threads m = \<lparr>tn_threads = threads_new (sv_ctl m), tn_main = sv_main m, tn_handlers = sv_handlers m,
     tn_rest = sv_rest m\<rparr>"

lemma accesses_lifted:
  "trail (thread_step view) th (replicate n None) th' \<Longrightarrow>
     trail (threaded_step view sa) (s\<lparr>tn_threads := th\<rparr>) (replicate n None) (s\<lparr>tn_threads := th'\<rparr>)"
proof (induction n arbitrary: th)
  case (Suc n)
  then obtain u where u: "thread_step view th None u" "trail (thread_step view) u (replicate n None) th'" by auto
  have "threaded_step view sa (s\<lparr>tn_threads := th\<rparr>) None (s\<lparr>tn_threads := th\<rparr>\<lparr>tn_threads := u\<rparr>)"
    using u(1) by (intro threaded_step.accesses) simp
  with Suc.IH [OF u(2)] show ?case by auto
qed simp

text \<open>A thread invokes, accesses and returns; what it returns resumes its program.\<close>

lemma call_realised:
  assumes sound: "\<not> ctl_poisoned (sv_ctl m)" and p: "next_call p = Some c" "advance p (sv_ctl m) = (q, d)"
    and invoke: "\<And>th. thread_step view (threads_new (sv_ctl m)) (Some (Invoke t c)) th \<Longrightarrow>
      threaded_step view sa (on_threads m) None (on_threads m\<lparr>tn_threads := th\<rparr>)"
    and reply: "\<And>th s r. thread_step view (tn_threads s) (Some (Reply t r)) th \<Longrightarrow>
      threaded_step view sa s None (resumed s th r)"
    and resumed: "\<And>th r th'. resume p r = q \<Longrightarrow>
      resumed (on_threads m\<lparr>tn_threads := th'\<rparr>) (threads_new d) r = on_threads n"
  shows "\<exists>ls. trail (threaded_step view sa) (on_threads m) ls (on_threads n) \<and> observed ls = [] \<and> \<not> ctl_poisoned d"
proof -
  obtain e r where call: "atomic_call view c (sv_ctl m) = (e, r)" by (cases "atomic_call view c (sv_ctl m)")
  from advance_resumes [OF p(1) call] p(2) have q: "resume p r = q" "e = d" by simp_all
  let ?th0 = "at_pc (threads_new (sv_ctl m)) t (Called c)"
  let ?th1 = "?th0\<lparr>th_ctl := d, th_owner := None, th_pc := (th_pc ?th0)(t := Answered r)\<rparr>"
  have "threaded_step view sa (on_threads m) None (on_threads m\<lparr>tn_threads := ?th0\<rparr>)"
    by (intro invoke thread_step.invoke) (simp add: threads_new_def)
  moreover obtain k where "trail (thread_step view) ?th0 (replicate k None) ?th1"
    using call_alone [of ?th0 t c p view e r] sound p(1) call unfolding q(2) by (auto simp: threads_new_def)
  moreover have "thread_step view ?th1 (Some (Reply t r)) (at_pc ?th1 t Idle)"
    by (rule thread_step.reply) simp
  then have "threaded_step view sa (on_threads m\<lparr>tn_threads := ?th1\<rparr>) None
      (resumed (on_threads m\<lparr>tn_threads := ?th1\<rparr>) (at_pc ?th1 t Idle) r)"
    by (intro reply) simp
  moreover have "at_pc ?th1 t Idle = threads_new d" by (simp add: at_pc_def threads_new_def fun_upd_idem)
  ultimately have "trail (threaded_step view sa) (on_threads m) (None # replicate k None @ [None]) (on_threads n)"
    using accesses_lifted [of view ?th0 k ?th1 sa "on_threads m"] resumed [OF q(1)] by (auto simp: trail_append)
  moreover have "\<not> ctl_poisoned d"
    using advance_controller [of p "sv_ctl m"] p(2) sound by auto
  ultimately show ?thesis
    by (intro exI [of _ "None # replicate k None @ [None]"]) (simp add: observed_Cons observed_append observed_silent)
qed

lemma step_realised:
  assumes "atomic_server_step sa m l n" "\<not> ctl_poisoned (sv_ctl m)"
  shows "\<exists>ls. trail (threaded_step view sa) (on_threads m) ls (on_threads n) \<and> observed ls = observed [l] \<and>
    \<not> ctl_poisoned (sv_ctl n)"
  using assms(1)
proof cases
  case (main_calls q d)
  then obtain c where c: "next_call (sv_main m) = Some c" by (auto simp: next_call_finished [symmetric])
  have "\<exists>ls. trail (threaded_step view sa) (on_threads m) ls (on_threads n) \<and> observed ls = [] \<and> \<not> ctl_poisoned d"
  proof (rule call_realised [OF assms(2) c main_calls(4), where t = 0])
    show "threaded_step view sa (on_threads m) None (on_threads m\<lparr>tn_threads := th\<rparr>)"
      if "thread_step view (threads_new (sv_ctl m)) (Some (Invoke 0 c)) th" for th
      using c that by (intro threaded_step.main_invokes) (simp_all add: on_threads_def)
    show "threaded_step view sa s None (s\<lparr>tn_threads := th, tn_main := resume (tn_main s) r\<rparr>)"
      if "thread_step view (tn_threads s) (Some (Reply 0 r)) th" for th s r
      using that by (rule threaded_step.main_returns)
  qed (simp add: on_threads_def main_calls)
  with main_calls show ?thesis by (simp add: observed_Cons)
next
  case (handler_calls i q d)
  then obtain c where c: "next_call (sv_handlers m ! i) = Some c" by (auto simp: next_call_finished [symmetric])
  have "\<exists>ls. trail (threaded_step view sa) (on_threads m) ls (on_threads n) \<and> observed ls = [] \<and> \<not> ctl_poisoned d"
  proof (rule call_realised [OF assms(2) c handler_calls(6), where t = "Suc i"])
    show "threaded_step view sa (on_threads m) None (on_threads m\<lparr>tn_threads := th\<rparr>)"
      if "thread_step view (threads_new (sv_ctl m)) (Some (Invoke (Suc i) c)) th" for th
      using c that handler_calls by (intro threaded_step.handler_invokes) (simp_all add: on_threads_def)
    show "threaded_step view sa s None
        (s\<lparr>tn_threads := th, tn_handlers := (tn_handlers s)[i := resume (tn_handlers s ! i) r]\<rparr>)"
      if "thread_step view (tn_threads s) (Some (Reply (Suc i) r)) th" for th s r
      using that by (rule threaded_step.handler_returns)
  qed (simp add: on_threads_def handler_calls)
  with handler_calls show ?thesis by (simp add: observed_Cons)
next
  case (acts act p hs x)
  then have "threaded_step view sa (on_threads m) (Some act) (on_threads m\<lparr>tn_main := p, tn_handlers := hs, tn_rest := x\<rparr>)"
    by (intro threaded_step.acts) (simp_all add: on_threads_def threads_new_def)
  then show ?thesis
    using acts assms(2) by (intro exI [of _ "[Some act]"]) (simp add: on_threads_def)
qed

text \<open>So every run with atomic calls is the outcome of a run on threads.\<close>

lemma trail_realised:
  "trail (atomic_server_step sa) m ks n \<Longrightarrow> \<not> ctl_poisoned (sv_ctl m) \<Longrightarrow>
     \<exists>ls. trail (threaded_step view sa) (on_threads m) ls (on_threads n) \<and> observed ls = observed ks"
proof (induction ks arbitrary: m)
  case Nil
  then show ?case by (intro exI [of _ "[]"]) simp
next
  case (Cons k ks)
  then obtain u where u: "atomic_server_step sa m k u" "trail (atomic_server_step sa) u ks n" by auto
  from step_realised [OF u(1) Cons.prems(2), of view] obtain ls where
    "trail (threaded_step view sa) (on_threads m) ls (on_threads u)" "observed ls = observed [k]" "\<not> ctl_poisoned (sv_ctl u)"
    by blast
  moreover from Cons.IH [OF u(2) this(3)] obtain ms where
    "trail (threaded_step view sa) (on_threads u) ms (on_threads n)" "observed ms = observed ks" by blast
  ultimately show ?case
    by (intro exI [of _ "ls @ ms"]) (auto simp: trail_append observed_append observed_Cons split: option.splits)
qed

end
