(* ===== verification/Threaded_Servers.thy ===== *)
theory Threaded_Servers
  imports Program_Schedules
begin

text \<open>
  Servers whose actions include the calls of their programs. What such a server has to satisfy
  for its threads to do exactly what it does is the locale \<open>served\<close>; the TCP, the HTTP and the
  WebSocket server are instances.
\<close>

section \<open>Models of servers\<close>

text \<open>
  How a server consists of the controller, its main program, its handlers and the rest; which
  actions are calls, of the main program (\<open>Some None\<close>) or of a handler; whose calls are possible;
  and whose end an action is.
\<close>

record ('s, 'p, 'x, 'l) server_model =
  md_act :: "'s \<Rightarrow> 'l \<Rightarrow> 's option"
  md_ctl :: "'s \<Rightarrow> controller"
  md_main :: "'s \<Rightarrow> 'p program"
  md_handlers :: "'s \<Rightarrow> unit program list"
  md_rest :: "'s \<Rightarrow> 'x"
  md_build :: "controller \<Rightarrow> 'p program \<Rightarrow> unit program list \<Rightarrow> 'x \<Rightarrow> 's"
  md_caller :: "'l \<Rightarrow> nat option option"
  md_calling :: "'x \<Rightarrow> nat set"
  md_ends :: "'l \<Rightarrow> nat option"

text \<open>The actions that are no calls do not look at the controller, so any will do.\<close>

definition actions_of :: "('s, 'p, 'x, 'l) server_model \<Rightarrow> ('p, 'x, 'l) server_actions" where
  "actions_of md =
     \<lparr>sa_local = (\<lambda>p hs x l.
        if md_caller md l = None
        then map_option (\<lambda>s. (md_main md s, md_handlers md s, md_rest md s))
          (md_act md (md_build md (fresh_controller 1) p hs x) l)
        else None),
      sa_calling = md_calling md, sa_ends = md_ends md\<rparr>"

text \<open>
  The steps that need no handler to do anything: a handler makes no new call, though one that is
  inside a call goes on to its end, as the call neither waits nor depends on the handler; and of
  the server's own actions there are those that \<open>helps\<close> says need none.
\<close>

definition unaided_step ::
  "watch_view \<Rightarrow> ('s, 'p, 'x, 'l) server_model \<Rightarrow> ('l \<Rightarrow> bool) \<Rightarrow>
     ('p, 'x) threaded \<Rightarrow> 'l option \<Rightarrow> ('p, 'x) threaded \<Rightarrow> bool" where
  "unaided_step view md helps s l t \<longleftrightarrow>
     threaded_step view ((actions_of md)\<lparr>sa_calling := \<lambda>_. {}\<rparr>) s l t \<and> (\<forall>act. l = Some act \<longrightarrow> helps act)"

definition parts :: "('s, 'p, 'x, 'l) server_model \<Rightarrow> 's \<Rightarrow> ('p, 'x) atomic_server" where
  "parts md s = \<lparr>sv_ctl = md_ctl md s, sv_main = md_main md s, sv_handlers = md_handlers md s, sv_rest = md_rest md s\<rparr>"

definition assemble :: "('s, 'p, 'x, 'l) server_model \<Rightarrow> ('p, 'x) atomic_server \<Rightarrow> 's" where
  "assemble md m = md_build md (sv_ctl m) (sv_main m) (sv_handlers m) (sv_rest m)"

text \<open>A server's threads at the start, in a state where none of them is inside a call.\<close>

definition threads_of :: "('s, 'p, 'x, 'l) server_model \<Rightarrow> 's \<Rightarrow> ('p, 'x) threaded" where
  "threads_of md s = on_threads (parts md s)"

primrec model_run :: "('s, 'p, 'x, 'l) server_model \<Rightarrow> 's \<Rightarrow> 'l list \<Rightarrow> 's option" where
  "model_run md s [] = Some s"
| "model_run md s (l # ls) = (case md_act md s l of None \<Rightarrow> None | Some t \<Rightarrow> model_run md t ls)"

definition uncalled :: "('s, 'p, 'x, 'l) server_model \<Rightarrow> 'l list \<Rightarrow> 'l list" where
  "uncalled md ls = filter (\<lambda>l. md_caller md l = None) ls"

definition known :: "('s, 'p, 'x, 'l) server_model \<Rightarrow> 's \<Rightarrow> bool" where
  "known md s \<longleftrightarrow> (\<forall>i \<in> md_calling md (md_rest md s). i < length (md_handlers md s))"

lemma uncalled_simps [simp]:
  "uncalled md [] = []"
  "uncalled md (l # ls) = (if md_caller md l = None then l # uncalled md ls else uncalled md ls)"
  by (simp_all add: uncalled_def)

lemma parts_simps [simp]:
  "sv_ctl (parts md s) = md_ctl md s" "sv_main (parts md s) = md_main md s"
  "sv_handlers (parts md s) = md_handlers md s" "sv_rest (parts md s) = md_rest md s"
  by (simp_all add: parts_def)

lemma threads_of_simps [simp]:
  "tn_threads (threads_of md s) = threads_new (md_ctl md s)" "tn_main (threads_of md s) = md_main md s"
  "tn_handlers (threads_of md s) = md_handlers md s" "tn_rest (threads_of md s) = md_rest md s"
  by (simp_all add: threads_of_def on_threads_def)

lemma unaided_is_step: "unaided_step view md helps s l t \<Longrightarrow> threaded_step view (actions_of md) s l t"
  unfolding unaided_step_def by (erule conjE, erule threaded_step.cases) (auto intro: threaded_step.intros)

section \<open>The interface of a server\<close>

text \<open>
  A call is one call of its program. The other actions leave the controller alone and do not
  depend on it; they change the main program only where it has no call to make; they only add
  handlers, look at none but the one that ends, and stop no other from calling.
\<close>

locale served =
  fixes md :: "('s, 'p, 'x, 'l) server_model"
  assumes build: "md_ctl md (md_build md c p hs x) = c" "md_main md (md_build md c p hs x) = p"
      "md_handlers md (md_build md c p hs x) = hs" "md_rest md (md_build md c p hs x) = x"
    and rebuild: "md_build md (md_ctl md s) (md_main md s) (md_handlers md s) (md_rest md s) = s"
    and callers: "\<exists>l. md_caller md l = Some None" "\<exists>l. md_caller md l = Some (Some i)"
    and main_acts: "md_caller md l = Some None \<Longrightarrow> md_act md s l =
      (if finished (md_main md s) then None
       else Some (md_build md (snd (advance (md_main md s) (md_ctl md s))) (fst (advance (md_main md s) (md_ctl md s)))
         (md_handlers md s) (md_rest md s)))"
    and handler_acts: "md_caller md l = Some (Some i) \<Longrightarrow> md_act md s l =
      (if i \<in> md_calling md (md_rest md s) \<and> \<not> finished (md_handlers md s ! i)
       then Some (md_build md (snd (advance (md_handlers md s ! i) (md_ctl md s))) (md_main md s)
         ((md_handlers md s)[i := fst (advance (md_handlers md s ! i) (md_ctl md s))]) (md_rest md s))
       else None)"
    and local_acts: "md_caller md l = None \<Longrightarrow> md_act md (md_build md c p hs x) l = Some t \<Longrightarrow>
      md_act md (md_build md d p hs x) l = Some (md_build md d (md_main md t) (md_handlers md t) (md_rest md t))"
    and main_kept: "md_caller md l = None \<Longrightarrow> md_act md s l = Some t \<Longrightarrow> \<not> finished (md_main md s) \<Longrightarrow>
      md_main md t = md_main md s \<and>
      md_act md (md_build md (md_ctl md s) p (md_handlers md s) (md_rest md s)) l =
        Some (md_build md (md_ctl md s) p (md_handlers md t) (md_rest md t))"
    and handlers_added: "md_caller md l = None \<Longrightarrow> md_act md s l = Some t \<Longrightarrow>
      \<exists>new. md_handlers md t = md_handlers md s @ new \<and>
        (\<forall>hs. length hs = length (md_handlers md s) \<and>
            (\<forall>i. md_ends md l = Some i \<longrightarrow> hs ! i = md_handlers md s ! i) \<longrightarrow>
           md_act md (md_build md (md_ctl md s) (md_main md s) hs (md_rest md s)) l =
             Some (md_build md (md_ctl md s) (md_main md t) (hs @ new) (md_rest md t)))"
    and calls_kept: "md_caller md l = None \<Longrightarrow> md_act md s l = Some t \<Longrightarrow> i \<in> md_calling md (md_rest md s) \<Longrightarrow>
      md_ends md l \<noteq> Some i \<Longrightarrow> i \<in> md_calling md (md_rest md t)"
    and ends_known: "md_caller md l = None \<Longrightarrow> md_act md s l = Some t \<Longrightarrow> md_ends md l = Some i \<Longrightarrow>
      i \<in> md_calling md (md_rest md s)"
    and calls_new: "md_caller md l = None \<Longrightarrow> md_act md s l = Some t \<Longrightarrow> i \<in> md_calling md (md_rest md t) \<Longrightarrow>
      i \<in> md_calling md (md_rest md s) \<or> length (md_handlers md s) \<le> i \<and> i < length (md_handlers md t)"
begin

lemma assemble_parts [simp]: "assemble md (parts md s) = s" "parts md (assemble md m) = m"
  by (simp_all add: assemble_def parts_def build rebuild)

lemma assemble_simps [simp]:
  "md_ctl md (assemble md m) = sv_ctl m" "md_main md (assemble md m) = sv_main m"
  "md_handlers md (assemble md m) = sv_handlers m" "md_rest md (assemble md m) = sv_rest m"
  by (simp_all add: assemble_def build)

lemma actions_simps [simp]: "sa_calling (actions_of md) = md_calling md" "sa_ends (actions_of md) = md_ends md"
  by (simp_all add: actions_of_def)

lemma local_iff:
  "sa_local (actions_of md) p hs x l = Some (q, gs, y) \<longleftrightarrow>
     md_caller md l = None \<and> md_act md (md_build md c p hs x) l = Some (md_build md c q gs y)"
proof
  assume "sa_local (actions_of md) p hs x l = Some (q, gs, y)"
  then obtain t where "md_caller md l = None" "md_act md (md_build md (fresh_controller 1) p hs x) l = Some t"
      "q = md_main md t" "gs = md_handlers md t" "y = md_rest md t"
    by (auto simp: actions_of_def split: if_splits)
  with local_acts [of l "fresh_controller 1" p hs x t c]
  show "md_caller md l = None \<and> md_act md (md_build md c p hs x) l = Some (md_build md c q gs y)" by simp
next
  assume act: "md_caller md l = None \<and> md_act md (md_build md c p hs x) l = Some (md_build md c q gs y)"
  with local_acts [of l c p hs x _ "fresh_controller 1"]
  have "md_act md (md_build md (fresh_controller 1) p hs x) l = Some (md_build md (fresh_controller 1) q gs y)"
    by (simp add: build)
  with act show "sa_local (actions_of md) p hs x l = Some (q, gs, y)" by (simp add: actions_of_def build)
qed

end

sublocale served \<subseteq> spawning_server "actions_of md"
proof
  fix p q p' hs gs x y l i
  let ?s = "md_build md (fresh_controller 1) p hs x" and ?t = "md_build md (fresh_controller 1) q gs y"
  assume "sa_local (actions_of md) p hs x l = Some (q, gs, y)"
  then have act: "md_caller md l = None" "md_act md ?s l = Some ?t"
    by (simp_all add: local_iff [where c = "fresh_controller 1"])
  show "q = p \<and> sa_local (actions_of md) p' hs x l = Some (p', gs, y)" if "\<not> finished p"
    using main_kept [OF act, of p'] that act(1) by (simp add: build local_iff [where c = "fresh_controller 1"])
  show "\<exists>new. gs = hs @ new \<and>
      (\<forall>hs'. length hs' = length hs \<and> (\<forall>i. sa_ends (actions_of md) l = Some i \<longrightarrow> hs' ! i = hs ! i) \<longrightarrow>
         sa_local (actions_of md) p hs' x l = Some (q, hs' @ new, y))"
    using handlers_added [OF act] act(1) by (simp add: build local_iff [where c = "fresh_controller 1"])
  show "i \<in> sa_calling (actions_of md) y" if "i \<in> sa_calling (actions_of md) x" "sa_ends (actions_of md) l \<noteq> Some i"
    using calls_kept [OF act, of i] that by (simp add: build)
  show "i \<in> sa_calling (actions_of md) x" if "sa_ends (actions_of md) l = Some i"
    using ends_known [OF act, of i] that by (simp add: build)
  show "i \<in> sa_calling (actions_of md) x \<or> length hs \<le> i \<and> i < length gs" if "i \<in> sa_calling (actions_of md) y"
    using calls_new [OF act, of i] that by (simp add: build)
qed

section \<open>Atomic steps and actions\<close>

context served
begin

lemma local_act_parts:
  assumes "md_caller md l = None" "md_act md s l = Some t"
  shows "md_ctl md t = md_ctl md s"
    and "sa_local (actions_of md) (md_main md s) (md_handlers md s) (md_rest md s) l =
      Some (md_main md t, md_handlers md t, md_rest md t)"
proof -
  have act: "md_act md (md_build md (md_ctl md s) (md_main md s) (md_handlers md s) (md_rest md s)) l = Some t"
    using assms(2) by (simp add: rebuild)
  note local_acts [OF assms(1) act, of "md_ctl md s"]
  with act have t: "t = md_build md (md_ctl md s) (md_main md t) (md_handlers md t) (md_rest md t)" by simp
  from arg_cong [OF t, of "md_ctl md"] show "md_ctl md t = md_ctl md s" by (simp add: build)
  show "sa_local (actions_of md) (md_main md s) (md_handlers md s) (md_rest md s) l =
      Some (md_main md t, md_handlers md t, md_rest md t)"
    unfolding local_iff [where c = "md_ctl md s"] using assms(1) act t by simp
qed

lemma step_is_act:
  assumes "atomic_server_step (actions_of md) m k n"
  shows "\<exists>l. md_act md (assemble md m) l = Some (assemble md n) \<and> k = (if md_caller md l = None then Some l else None)"
  using assms
proof cases
  case (main_calls p c)
  obtain l where "md_caller md l = Some None" using callers(1) by blast
  with main_calls show ?thesis by (intro exI [of _ l]) (simp add: main_acts assemble_def build)
next
  case (handler_calls i p c)
  obtain l where "md_caller md l = Some (Some i)" using callers(2) by blast
  with handler_calls show ?thesis by (intro exI [of _ l]) (simp add: handler_acts assemble_def build)
next
  case (acts l p hs x)
  then have "md_caller md l = None" "md_act md (assemble md m) l = Some (assemble md n)"
    by (simp_all add: local_iff [where c = "sv_ctl m"] assemble_def)
  with acts show ?thesis by auto
qed

lemma act_is_step:
  assumes "md_act md s l = Some t" "known md s"
  shows "atomic_server_step (actions_of md) (parts md s) (if md_caller md l = None then Some l else None) (parts md t)"
proof (cases "md_caller md l")
  case None
  note t = local_act_parts [OF None assms(1)]
  from t(2) have "atomic_server_step (actions_of md) (parts md s) (Some l)
      (parts md s\<lparr>sv_main := md_main md t, sv_handlers := md_handlers md t, sv_rest := md_rest md t\<rparr>)"
    by (intro atomic_server_step.acts) simp
  then show ?thesis by (simp add: None parts_def t(1))
next
  case (Some who)
  show ?thesis
  proof (cases who)
    case None
    with Some assms(1) have t: "\<not> finished (md_main md s)"
        "t = md_build md (snd (advance (md_main md s) (md_ctl md s))) (fst (advance (md_main md s) (md_ctl md s)))
         (md_handlers md s) (md_rest md s)"
      by (simp_all add: main_acts split: if_splits)
    then have "atomic_server_step (actions_of md) (parts md s) None
        (parts md s\<lparr>sv_ctl := snd (advance (md_main md s) (md_ctl md s)), sv_main := fst (advance (md_main md s) (md_ctl md s))\<rparr>)"
      by (intro atomic_server_step.main_calls) simp_all
    then show ?thesis using Some by (simp add: t(2) parts_def build)
  next
    case (Some i)
    with \<open>md_caller md l = Some who\<close> assms(1) have t: "i \<in> md_calling md (md_rest md s)"
        "\<not> finished (md_handlers md s ! i)"
        "t = md_build md (snd (advance (md_handlers md s ! i) (md_ctl md s))) (md_main md s)
         ((md_handlers md s)[i := fst (advance (md_handlers md s ! i) (md_ctl md s))]) (md_rest md s)"
      by (simp_all add: handler_acts split: if_splits)
    with assms(2) have "atomic_server_step (actions_of md) (parts md s) None
        (parts md s\<lparr>sv_ctl := snd (advance (md_handlers md s ! i) (md_ctl md s)),
          sv_handlers := (sv_handlers (parts md s))[i := fst (advance (md_handlers md s ! i) (md_ctl md s))]\<rparr>)"
      by (intro atomic_server_step.handler_calls) (simp_all add: known_def)
    then show ?thesis using Some \<open>md_caller md l = Some who\<close> by (simp add: t(3) parts_def build)
  qed
qed

lemma known_act:
  assumes "md_act md s l = Some t" "known md s"
  shows "known md t \<and> length (md_handlers md s) \<le> length (md_handlers md t)"
proof (cases "md_caller md l")
  case None
  with handlers_added [OF None assms(1)] calls_new [OF None assms(1)] assms(2) show ?thesis
    by (fastforce simp: known_def)
next
  case (Some who)
  with assms show ?thesis
    by (cases who) (auto simp: main_acts handler_acts known_def build split: if_splits)
qed

section \<open>Runs\<close>

lemma trail_is_run:
  "trail (atomic_server_step (actions_of md)) m ks n \<Longrightarrow>
     \<exists>ls. model_run md (assemble md m) ls = Some (assemble md n) \<and> length ls = length ks \<and> uncalled md ls = observed ks"
proof (induction ks arbitrary: m)
  case Nil
  then show ?case by (intro exI [of _ "[]"]) simp
next
  case (Cons k ks)
  then obtain u where u: "atomic_server_step (actions_of md) m k u" "trail (atomic_server_step (actions_of md)) u ks n"
    by auto
  from step_is_act [OF u(1)] Cons.IH [OF u(2)] obtain l ls where
    "md_act md (assemble md m) l = Some (assemble md u)" "k = (if md_caller md l = None then Some l else None)"
    "model_run md (assemble md u) ls = Some (assemble md n)" "length ls = length ks" "uncalled md ls = observed ks"
    by blast
  then show ?case by (intro exI [of _ "l # ls"]) (simp add: observed_Cons)
qed

lemma run_is_trail:
  "model_run md s ls = Some t \<Longrightarrow> known md s \<Longrightarrow>
     \<exists>ks. trail (atomic_server_step (actions_of md)) (parts md s) ks (parts md t) \<and> observed ks = uncalled md ls"
proof (induction ls arbitrary: s)
  case Nil
  then show ?case by (intro exI [of _ "[]"]) simp
next
  case (Cons l ls)
  then obtain u where u: "md_act md s l = Some u" "model_run md u ls = Some t" by (auto split: option.splits)
  with Cons.IH [OF u(2)] known_act [OF u(1) Cons.prems(2)] obtain ks where
    "trail (atomic_server_step (actions_of md)) (parts md u) ks (parts md t)" "observed ks = uncalled md ls" by blast
  with act_is_step [OF u(1) Cons.prems(2)] show ?case
    by (intro exI [of _ "(if md_caller md l = None then Some l else None) # ks"]) (auto simp: observed_Cons)
qed

text \<open>What a run on threads comes to, and how long it is, in actions of the server.\<close>

lemma threads_run:
  assumes "trail (threaded_step view (actions_of md)) s ls t" "threads_agree (actions_of md) s a m"
  obtains acts b n where "model_run md (assemble md m) acts = Some (assemble md n)"
    "threads_agree (actions_of md) t b n" "uncalled md acts = observed ls"
    "int (length ls) + balances (length (tn_handlers t)) (tn_threads s) \<le>
       9 * int (length acts) + balances (length (tn_handlers t)) (tn_threads t)"
proof -
  obtain ks n b where ks: "trail (atomic_server_step (actions_of md)) m ks n"
      "threads_agree (actions_of md) t b n" "observed ks = observed ls"
      "int (length ls) + balances (length (tn_handlers t)) (tn_threads s) \<le>
         9 * int (length ks) + balances (length (tn_handlers t)) (tn_threads t)"
    using trail_simulated [OF assms order_refl] by blast
  from trail_is_run [OF ks(1)] ks(2-4) that show ?thesis by metis
qed

lemma start_agrees: "known md s \<Longrightarrow> threads_agree (actions_of md) (threads_of md s) (atomic_new (md_ctl md s)) (parts md s)"
  using linearized_new [of "md_ctl md s"] by (simp add: threads_agree_def atomic_new_def known_def)

lemma threads_run_start:
  assumes "trail (threaded_step view (actions_of md)) (threads_of md s) ls t" "known md s"
  obtains acts b n where "model_run md s acts = Some (assemble md n)" "threads_agree (actions_of md) t b n"
    "uncalled md acts = observed ls"
proof -
  obtain acts b n where "model_run md (assemble md (parts md s)) acts = Some (assemble md n)"
      "threads_agree (actions_of md) t b n" "uncalled md acts = observed ls"
    using assms(1) start_agrees [OF assms(2)] by (rule threads_run)
  with that show ?thesis by simp
qed

lemma run_on_threads:
  assumes "known md s" "\<not> ctl_poisoned (md_ctl md s)" "model_run md s acts = Some t"
  shows "\<exists>ls. trail (threaded_step view (actions_of md)) (threads_of md s) ls (threads_of md t) \<and>
    observed ls = uncalled md acts"
  using run_is_trail [OF assms(3,1)] trail_realised [of "actions_of md" "parts md s" _ "parts md t" view] assms(2)
  by (fastforce simp: threads_of_def)

lemma act_ctl:
  assumes "md_act md s l = Some t"
  shows "md_ctl md t = md_ctl md s \<or> (\<exists>ev. md_ctl md t = controller_step (md_ctl md s) ev)"
proof (cases "md_caller md l")
  case None
  with local_act_parts(1) assms show ?thesis by blast
next
  case (Some who)
  with assms advance_controller [of "md_main md s" "md_ctl md s"]
    advance_controller [of "md_handlers md s ! the who" "md_ctl md s"] show ?thesis
    by (cases who) (auto simp: main_acts handler_acts build split: if_splits)
qed

lemma run_sound: "model_run md s acts = Some t \<Longrightarrow> ctl_poisoned (md_ctl md t) = ctl_poisoned (md_ctl md s)"
proof (induction acts arbitrary: s)
  case (Cons l acts)
  then show ?case by (auto split: option.splits dest!: act_ctl)
qed simp

lemma never_poisoned:
  assumes "model_run md s acts = Some (assemble md n)" "threads_agree (actions_of md) t b n"
    "\<not> ctl_poisoned (md_ctl md s)"
  shows "\<not> ctl_poisoned (th_ctl (tn_threads t))"
  using run_sound [OF assms(1)] assms(2,3) linearizedD(4) [of "tn_threads t" b] by (simp add: threads_agree_def)

text \<open>Where no thread is inside a call, the threads have done what the server can do.\<close>

lemma threads_are_atomic:
  assumes "known md s" "\<not> ctl_poisoned (md_ctl md s)"
  shows "(\<exists>ls. trail (threaded_step view (actions_of md)) (threads_of md s) ls (threads_of md t) \<and> observed ls = acts) \<longleftrightarrow>
    (\<exists>all. model_run md s all = Some t \<and> uncalled md all = acts)"
proof
  assume "\<exists>ls. trail (threaded_step view (actions_of md)) (threads_of md s) ls (threads_of md t) \<and> observed ls = acts"
  then obtain ls where ls: "trail (threaded_step view (actions_of md)) (threads_of md s) ls (threads_of md t)"
      "observed ls = acts" by blast
  obtain all b n where n: "model_run md s all = Some (assemble md n)"
      "threads_agree (actions_of md) (threads_of md t) b n" "uncalled md all = observed ls"
    using ls(1) assms(1) by (rule threads_run_start)
  have idle: "th_pc (tn_threads (threads_of md t)) i = Idle" for i by (simp add: threads_new_def)
  note rest = all_idle(2,3) [OF n(2) idle] all_idle(4) [OF n(2) idle never_poisoned [OF n(1,2) assms(2)]]
  have "sv_rest n = md_rest md t" using n(2) by (simp add: threads_agree_def)
  with rest have "n = parts md t" by (simp add: threads_new_def)
  with n ls(2) show "\<exists>all. model_run md s all = Some t \<and> uncalled md all = acts" by auto
next
  assume "\<exists>all. model_run md s all = Some t \<and> uncalled md all = acts"
  with run_on_threads [OF assms] show
    "\<exists>ls. trail (threaded_step view (actions_of md)) (threads_of md s) ls (threads_of md t) \<and> observed ls = acts"
    by blast
qed

section \<open>The end of the main program\<close>

lemma main_agrees:
  assumes "threads_agree (actions_of md) s b m" "finished (tn_main s)"
  shows "sv_main m = tn_main s"
  using assms fits_finished [of "am_pc b 0" "tn_main s"] by (auto simp: threads_agree_def)

lemma no_thread_left:
  assumes "threads_agree (actions_of md) s b m" "finished (tn_main s)" "md_calling md (tn_rest s) = {}"
  shows "th_pc (tn_threads s) t = Idle"
proof -
  have "am_pc b t = AIdle"
    using assms fits_finished [of "am_pc b 0" "tn_main s"] by (cases t) (auto simp: threads_agree_def)
  then show ?thesis
    using assms(1) linearizedD(1) [of "tn_threads s" b t]
    by (auto simp: threads_agree_def abs_idle eq_commute [of AIdle])
qed

lemma nothing_moves:
  assumes "threads_agree (actions_of md) s b m" "finished (tn_main s)" "md_calling md (tn_rest s) = {}"
    and "\<And>l. md_act md (assemble md m) l = None"
  shows "\<not> threaded_step view (actions_of md) s l t"
proof
  note idle = no_thread_left [OF assms(1-3)]
  have same: "sv_main m = tn_main s" "sv_handlers m = tn_handlers s" "sv_rest m = tn_rest s"
    using all_idle(2,3) [OF assms(1) idle] assms(1) by (simp_all add: threads_agree_def)
  assume "threaded_step view (actions_of md) s l t"
  then show False
  proof cases
    case (accesses th)
    then show ?thesis using idle by (auto elim!: access_moves)
  next
    case (main_returns r th)
    from main_returns(3) show ?thesis using idle by cases auto
  next
    case (handler_returns i r th)
    from handler_returns(3) show ?thesis using idle by cases auto
  next
    case (acts l p hs x)
    with assms(4) show ?thesis by (auto simp: local_iff [where c = "sv_ctl m"] assemble_def same)
  qed (use assms(2,3) in \<open>auto simp: next_call_finished [symmetric]\<close>)
qed

text \<open>
  Where nothing can move that needs no handler, no thread is inside a call, the main program has
  none to make, and the server cannot act unaided either.
\<close>

lemma unaided_rest:
  assumes "threads_agree (actions_of md) s b m" "\<And>l t. \<not> unaided_step view md helps s l t"
  shows "finished (tn_main s) \<and> sv_main m = tn_main s \<and>
    (\<forall>l. md_caller md l = None \<and> helps l \<longrightarrow> md_act md (assemble md m) l = None)"
proof -
  let ?sb = "(actions_of md)\<lparr>sa_calling := \<lambda>_. {}\<rparr>"
  have quiet: "\<not> threaded_step view ?sb s None t" for t
    using assms(2) [of None] by (simp add: unaided_step_def)
  have idle: "th_pc (tn_threads s) t = Idle" for t
    using threads_move [OF assms(1), of t view ?sb] quiet by blast
  have same: "sv_main m = tn_main s" "sv_handlers m = tn_handlers s" "sv_rest m = tn_rest s"
    using all_idle(2,3) [OF assms(1) idle] assms(1) by (simp_all add: threads_agree_def)
  have "next_call (tn_main s) = None"
  proof (rule ccontr)
    assume "next_call (tn_main s) \<noteq> None"
    then obtain c where "next_call (tn_main s) = Some c" by blast
    with thread_step.invoke [OF idle [of 0]] have "\<exists>t. threaded_step view ?sb s None t"
      by (blast intro: threaded_step.main_invokes)
    with quiet show False by blast
  qed
  moreover have "md_act md (assemble md m) l = None" if "md_caller md l = None" "helps l" for l
  proof (rule ccontr)
    assume "md_act md (assemble md m) l \<noteq> None"
    then obtain t where "md_act md (assemble md m) l = Some t" by blast
    with local_act_parts(2) [OF that(1) this] obtain p hs x where
      "sa_local ?sb (tn_main s) (tn_handlers s) (tn_rest s) l = Some (p, hs, x)" by (simp add: same)
    then have "threaded_step view ?sb s (Some l) (s\<lparr>tn_main := p, tn_handlers := hs, tn_rest := x\<rparr>)"
      using idle by (intro threaded_step.acts)
    with that(2) assms(2) show False by (auto simp: unaided_step_def)
  qed
  ultimately show ?thesis using same by (simp add: next_call_finished)
qed

end

end
