(* ===== verification/Tcp_Threads.thy ===== *)
theory Tcp_Threads
  imports Tcp_Server_Laws Threaded_Servers
begin

text \<open>
  The TCP server on threads. The runner and each connection task make their calls access by
  access, under the controller's mutex, while the others and the accept loop go on; nothing of
  \<open>Tcp_Server_Laws\<close> is lost by it. A critical section holds no \<open>await\<close> and nothing that panics,
  so a task ends between its calls, whether it is aborted, panics or has served.
\<close>

section \<open>The server as a model\<close>

record 's task_set =
  tsk_running :: "nat list"
  tsk_ended :: "bool list"
  tsk_permits :: 's

definition task_set :: "'s tcp_server \<Rightarrow> 's task_set" where
  "task_set s = \<lparr>tsk_running = tcs_running s, tsk_ended = tcs_ended s, tsk_permits = tcs_permits s\<rparr>"

definition server_of :: "controller \<Rightarrow> tcp_phase program \<Rightarrow> unit program list \<Rightarrow> 's task_set \<Rightarrow> 's tcp_server" where
  "server_of c p hs x = \<lparr>tcs_ctl = c, tcs_main = p, tcs_handlers = hs, tcs_running = tsk_running x,
     tcs_ended = tsk_ended x, tcs_permits = tsk_permits x\<rparr>"

definition tcp_caller :: "tcp_action \<Rightarrow> nat option option" where
  "tcp_caller act = (case act of RunnerCalls \<Rightarrow> Some None | HandlerCalls i \<Rightarrow> Some (Some i) | _ \<Rightarrow> None)"

definition tcp_ends :: "tcp_action \<Rightarrow> nat option" where
  "tcp_ends act = (case act of HandlerEnds i _ \<Rightarrow> Some i | TaskAborted i \<Rightarrow> Some i | _ \<Rightarrow> None)"

definition tcp_model :: "'s semaphore_lib \<Rightarrow> ('s tcp_server, tcp_phase, 's task_set, tcp_action) server_model" where
  "tcp_model lib =
     \<lparr>md_act = tcp_act lib, md_ctl = tcs_ctl, md_main = tcs_main, md_handlers = tcs_handlers, md_rest = task_set,
      md_build = server_of, md_caller = tcp_caller, md_calling = (\<lambda>x. set (tsk_running x)), md_ends = tcp_ends\<rparr>"

lemma tcp_model_simps [simp]:
  "md_act (tcp_model lib) = tcp_act lib" "md_ctl (tcp_model lib) = tcs_ctl" "md_main (tcp_model lib) = tcs_main"
  "md_handlers (tcp_model lib) = tcs_handlers" "md_rest (tcp_model lib) = task_set"
  "md_build (tcp_model lib) = server_of" "md_caller (tcp_model lib) = tcp_caller"
  "md_calling (tcp_model lib) = (\<lambda>x. set (tsk_running x))" "md_ends (tcp_model lib) = tcp_ends"
  by (simp_all add: tcp_model_def)

lemma server_of_simps [simp]:
  "tcs_ctl (server_of c p hs x) = c" "tcs_main (server_of c p hs x) = p"
  "tcs_handlers (server_of c p hs x) = hs" "tcs_running (server_of c p hs x) = tsk_running x"
  "tcs_ended (server_of c p hs x) = tsk_ended x" "tcs_permits (server_of c p hs x) = tsk_permits x"
  "task_set (server_of c p hs x) = x" "server_of (tcs_ctl s) (tcs_main s) (tcs_handlers s) (task_set s) = s"
  by (simp_all add: server_of_def task_set_def)

lemma task_set_simps [simp]:
  "tsk_running (task_set s) = tcs_running s" "tsk_ended (task_set s) = tcs_ended s"
  "tsk_permits (task_set s) = tcs_permits s"
  by (simp_all add: task_set_def)

lemma tcp_caller_simps [simp]:
  "tcp_caller act = Some None \<longleftrightarrow> act = RunnerCalls" "tcp_caller act = Some (Some i) \<longleftrightarrow> act = HandlerCalls i"
  "tcp_caller act = None \<longleftrightarrow> act \<noteq> RunnerCalls \<and> (\<forall>i. act \<noteq> HandlerCalls i)"
  by (cases act; simp add: tcp_caller_def)+

lemma tcp_ends_iff [simp]: "tcp_ends act = Some i \<longleftrightarrow> (\<exists>failed. act = HandlerEnds i failed) \<or> act = TaskAborted i"
  by (cases act) (simp_all add: tcp_ends_def)

interpretation tcp_threads: served "tcp_model lib" for lib :: "'s semaphore_lib"
proof
  fix s t :: "'s tcp_server" and act p
  assume caller: "md_caller (tcp_model lib) act = None" and "md_act (tcp_model lib) s act = Some t"
  then have act: "tcp_act lib s act = Some t" by simp
  show "md_main (tcp_model lib) t = md_main (tcp_model lib) s \<and>
      md_act (tcp_model lib) (md_build (tcp_model lib) (md_ctl (tcp_model lib) s) p
          (md_handlers (tcp_model lib) s) (md_rest (tcp_model lib) s)) act =
        Some (md_build (tcp_model lib) (md_ctl (tcp_model lib) s) p
          (md_handlers (tcp_model lib) t) (md_rest (tcp_model lib) t))"
    if "\<not> finished (md_main (tcp_model lib) s)"
    using act caller that
    by (cases act) (auto simp: server_of_def task_set_def task_ended_def aborts_tasks_def split: program.splits list.splits if_splits)
  show "\<exists>new. md_handlers (tcp_model lib) t = md_handlers (tcp_model lib) s @ new \<and>
      (\<forall>hs. length hs = length (md_handlers (tcp_model lib) s) \<and>
          (\<forall>i. md_ends (tcp_model lib) act = Some i \<longrightarrow> hs ! i = md_handlers (tcp_model lib) s ! i) \<longrightarrow>
         md_act (tcp_model lib) (md_build (tcp_model lib) (md_ctl (tcp_model lib) s)
             (md_main (tcp_model lib) s) hs (md_rest (tcp_model lib) s)) act =
           Some (md_build (tcp_model lib) (md_ctl (tcp_model lib) s) (md_main (tcp_model lib) t)
             (hs @ new) (md_rest (tcp_model lib) t)))"
    using act caller
    by (cases act) (auto simp: server_of_def task_set_def task_ended_def aborts_tasks_def
        split: program.splits tcp_phase.splits list.splits if_splits option.splits)
  show "i \<in> md_calling (tcp_model lib) (md_rest (tcp_model lib) t)"
    if "i \<in> md_calling (tcp_model lib) (md_rest (tcp_model lib) s)" "md_ends (tcp_model lib) act \<noteq> Some i" for i
    using act caller that
    by (cases act) (auto split: program.splits tcp_phase.splits list.splits if_splits option.splits)
  show "i \<in> md_calling (tcp_model lib) (md_rest (tcp_model lib) s)" if "md_ends (tcp_model lib) act = Some i" for i
    using act that by (auto split: if_splits)
  show "i \<in> md_calling (tcp_model lib) (md_rest (tcp_model lib) s) \<or>
      length (md_handlers (tcp_model lib) s) \<le> i \<and> i < length (md_handlers (tcp_model lib) t)"
    if "i \<in> md_calling (tcp_model lib) (md_rest (tcp_model lib) t)" for i
    using act caller that
    by (cases act) (auto dest: notin_set_remove1
        split: program.splits tcp_phase.splits list.splits if_splits option.splits)
next
  fix act c d p hs and x :: "'s task_set" and t
  assume "md_caller (tcp_model lib) act = None"
    "md_act (tcp_model lib) (md_build (tcp_model lib) c p hs x) act = Some t"
  then show "md_act (tcp_model lib) (md_build (tcp_model lib) d p hs x) act =
      Some (md_build (tcp_model lib) d (md_main (tcp_model lib) t) (md_handlers (tcp_model lib) t) (md_rest (tcp_model lib) t))"
    by (cases act) (auto simp: server_of_def task_set_def task_ended_def aborts_tasks_def
        split: program.splits tcp_phase.splits list.splits if_splits option.splits)
qed (auto simp: server_of_def task_set_def task_ended_def aborts_tasks_def split_beta)

section \<open>Runs on threads\<close>

lemma tcp_model_run: "model_run (tcp_model lib) s acts = tcp_run lib s acts"
  by (induction acts arbitrary: s) (auto split: option.splits)

lemma tcp_start_known: "known (tcp_model lib) (tcp_start lib config bound c)"
  by (simp add: known_def tcp_start_def)

text \<open>
  C11. Atomic calls lose nothing and add nothing. A state of the server in which no thread is inside
  a call is reached by its threads, access by access and with certain actions of its own, just
  when it is reached with the same actions by atomic calls.
\<close>

theorem tcp_threads_are_atomic:
  assumes "\<not> ctl_poisoned c"
  shows "(\<exists>ls. trail (threaded_step view (actions_of (tcp_model lib)))
        (threads_of (tcp_model lib) (tcp_start lib config bound c)) ls (threads_of (tcp_model lib) s) \<and>
      observed ls = acts) \<longleftrightarrow>
    (\<exists>all. tcp_run lib (tcp_start lib config bound c) all = Some s \<and> uncalled (tcp_model lib) all = acts)"
proof -
  have "\<not> ctl_poisoned (md_ctl (tcp_model lib) (tcp_start lib config bound c))"
    using assms by (simp add: tcp_start_def)
  from tcp_threads.threads_are_atomic [OF tcp_start_known this, of view s acts] show ?thesis
    by (simp only: tcp_model_run)
qed

lemma cause_uncalled: "tcp_cause (uncalled (tcp_model lib) acts) = tcp_cause acts"
  by (induction acts rule: tcp_cause.induct) simp_all

text \<open>
  C3. The server on threads, down to each access of the mutex: when its runner has returned, it has
  returned exactly the cause that ended its loop (or the bind error), the lifecycle is stopped,
  nobody holds the lock or is inside a call, every task has been joined and every permit is
  back, and no step of any thread is possible any more.
\<close>

theorem tcp_threads_leave_nothing_behind:
  assumes "documented_semaphore lib available" "controller_new cap = Inr c" "tcp_validate config = Inr ()"
    and "trail (threaded_step view (actions_of (tcp_model lib)))
      (threads_of (tcp_model lib) (tcp_start lib config bound c)) ls s"
    and "revision_of (th_ctl (tn_threads s)) + 5 < 2 ^ 64" "tn_main s = Finished (Returned r)"
  shows "(case bound of Inl error \<Rightarrow> r = Inl error | Inr _ \<Rightarrow> tcp_cause (observed ls) = Some r) \<and>
    state_of (th_ctl (tn_threads s)) = Stopped \<and> th_owner (tn_threads s) = None \<and>
    (\<forall>t. th_pc (tn_threads s) t = Idle) \<and> tsk_running (tn_rest s) = [] \<and> tsk_ended (tn_rest s) = [] \<and>
    available (tsk_permits (tn_rest s)) = tcp_max_connections config \<and>
    (\<forall>l t. \<not> threaded_step view (actions_of (tcp_model lib)) s l t)"
proof -
  obtain acts b m where m: "tcp_run lib (tcp_start lib config bound c) acts = Some (assemble (tcp_model lib) m)"
      "threads_agree (actions_of (tcp_model lib)) s b m" "uncalled (tcp_model lib) acts = observed ls"
    using tcp_threads.threads_run_start [OF assms(4) tcp_start_known] by (metis tcp_model_run)
  let ?s = "assemble (tcp_model lib) m"
  have rest: "sv_rest m = tn_rest s" using m(2) by (simp add: threads_agree_def)
  have sound: "\<not> ctl_poisoned (th_ctl (tn_threads s))"
    using tcp_threads.never_poisoned [OF _ m(2)] m(1) new_controller [OF assms(2)]
    by (simp add: tcp_model_run tcp_start_def)
  have main: "tcs_main ?s = Finished (Returned r)"
    using tcp_threads.main_agrees [OF m(2)] tcp_threads.assemble_simps(2) [of lib m] assms(6) by simp
  have parts: "tcs_ctl ?s = sv_ctl m" "task_set ?s = tn_rest s"
    using tcp_threads.assemble_simps(1,4) [of lib m] by (simp_all add: rest)
  then have tsk: "tcs_running ?s = tsk_running (tn_rest s)" "tcs_ended ?s = tsk_ended (tn_rest s)"
      "tcs_permits ?s = tsk_permits (tn_rest s)"
    by (metis task_set_simps)+
  have "revision_of (tcs_ctl ?s) + 5 < 2 ^ 64" using data_ahead [OF m(2) sound] assms(5) by (simp add: parts)
  note ends = tcp_phase_holds [OF assms(1-3) m(1) this main]
  then have tasks: "tsk_running (tn_rest s) = []" "tsk_ended (tn_rest s) = []" and idle: "idle ?s"
    by (simp_all add: phase_ok_def idle_def tsk)
  have fin: "finished (tn_main s)" "md_calling (tcp_model lib) (tn_rest s) = {}"
    by (simp_all add: assms(6) tasks)
  note rest_idle = tcp_threads.no_thread_left [OF m(2) fin]
  have "available (tsk_permits (tn_rest s)) = tcp_max_connections config"
    using tcp_run_tasks [OF assms(1) m(1)] by (simp add: tasks_ok_def tsk tasks)
  moreover have "\<not> threaded_step view (actions_of (tcp_model lib)) s l t" for l t
    by (rule tcp_threads.nothing_moves [OF m(2) fin]) (simp add: returned_is_final [OF main idle])
  ultimately show ?thesis
    using ends tasks rest_idle all_idle(1) [OF m(2) rest_idle] all_idle(4) [OF m(2) rest_idle sound]
      cause_uncalled [of lib acts] m(3) parts(1)
    by (auto simp: phase_ok_def is_ok_def split: sum.splits)
qed

lemma tcp_rests:
  assumes "documented_semaphore lib available"
    and "trail (threaded_step view (actions_of (tcp_model lib)))
      (threads_of (tcp_model lib) (tcp_start lib config bound c)) (before @ Some leave # after) s"
    and "leave = SeesCancellation \<or> leave = AcceptFails e"
  shows "length after \<le> 80 + 62 * length (tn_handlers s) \<and>
    ((\<exists>r. tn_main s = Finished (Returned r)) \<or> (\<exists>l t. unaided_step view (tcp_model lib) unaided s l t))"
proof -
  let ?md = "tcp_model lib" and ?h = "length (tn_handlers s)"
  obtain u v where u: "trail (threaded_step view (actions_of ?md)) (threads_of ?md (tcp_start lib config bound c)) before u"
      "threaded_step view (actions_of ?md) u (Some leave) v" "trail (threaded_step view (actions_of ?md)) v after s"
    using assms(2) by (auto simp: trail_append)
  obtain acts b m where m: "tcp_run lib (tcp_start lib config bound c) acts = Some (assemble ?md m)"
      "threads_agree (actions_of ?md) u b m"
    using tcp_threads.threads_run_start [OF u(1) tcp_start_known] by (metis tcp_model_run)
  note ok = tcp_run_tasks [OF assms(1) m(1)]
  obtain b' n where n: "atomic_server_step (actions_of ?md) m (Some leave) n" "threads_agree (actions_of ?md) v b' n"
    using tcp_threads.threads_simulated [OF m(2) u(2) order_refl] by auto
  have act: "tcp_act lib (assemble ?md m) leave = Some (assemble ?md n)"
    using tcp_threads.step_is_act [OF n(1)] by (auto split: if_splits)
  obtain acts' b'' n' where n': "tcp_run lib (assemble ?md n) acts' = Some (assemble ?md n')"
      "threads_agree (actions_of ?md) s b'' n'"
      "int (length after) + balances ?h (tn_threads v) \<le> 9 * int (length acts') + balances ?h (tn_threads s)"
    using tcp_threads.threads_run [OF u(3) n(2)] by (metis tcp_model_run)
  have handlers: "tcs_handlers (assemble ?md k) = sv_handlers k" for k
    using tcp_threads.assemble_simps(3) [of lib k] by simp
  let ?w = "8 + 6 * length (sv_handlers n)"
  have "winds ?w (assemble ?md n)" using leaving_winds [OF ok act assms(3)] by (simp add: handlers)
  then have w: "length acts' \<le> ?w" "winds (?w - length acts') (assemble ?md n')"
    using winds_run [OF assms(1) _ tasks_ok_act [OF assms(1) ok act] n'(1)] by blast+
  have "length (sv_handlers n) \<le> length (sv_handlers n')" using handlers_grow [OF n'(1)] by (simp add: handlers)
  moreover have "length (sv_handlers n') = ?h" using n'(2) by (simp add: threads_agree_def)
  ultimately have "int (length acts') \<le> 8 + 6 * int ?h" using w(1) by simp
  with n'(3) balances_bounds(1) [of ?h "tn_threads v"] balances_bounds(2) [of ?h "tn_threads s"]
  have len: "length after \<le> 80 + 62 * ?h" by linarith
  have "\<exists>r. tn_main s = Finished (Returned r)" if "\<And>l t. \<not> unaided_step view ?md unaided s l t"
  proof -
    note rest = tcp_threads.unaided_rest [OF n'(2) that]
    have main: "tcs_main (assemble ?md n') = tn_main s"
      using rest tcp_threads.assemble_simps(2) [of lib n'] by simp
    have "tcp_act lib (assemble ?md n') act = None" if "unaided act" for act
    proof (cases "act = RunnerCalls")
      case True
      then show ?thesis using rest main by simp
    next
      case False
      moreover have "act \<noteq> HandlerCalls i" for i using that by auto
      ultimately show ?thesis using rest that by (simp del: tcp_act.simps)
    qed
    with never_stuck [OF w(2), of lib] main show ?thesis by auto
  qed
  with len show ?thesis by blast
qed

text \<open>Nothing that needs no handler starts one.\<close>

lemma unaided_keeps_handlers:
  assumes "unaided_step view (tcp_model lib) unaided s l t"
  shows "length (tn_handlers t) = length (tn_handlers s)"
proof -
  have "threaded_step view ((actions_of (tcp_model lib))\<lparr>sa_calling := \<lambda>_. {}\<rparr>) s l t"
    and helps: "\<And>act. l = Some act \<Longrightarrow> unaided act"
    using assms by (simp_all add: unaided_step_def)
  then show ?thesis
  proof cases
    case (acts act p hs x)
    then have "sa_local (actions_of (tcp_model lib)) (tn_main s) (tn_handlers s) (tn_rest s) act = Some (p, hs, x)"
      and act: "unaided act"
      using helps by simp_all
    then have "md_act (tcp_model lib) (server_of (fresh_controller 1) (tn_main s) (tn_handlers s) (tn_rest s)) act =
        Some (server_of (fresh_controller 1) p hs x)"
      using tcp_threads.local_iff [of lib "tn_main s" "tn_handlers s" "tn_rest s" act p hs x "fresh_controller 1"]
      by (simp add: tcp_model_def)
    then have "hs = tn_handlers s"
      using act by (cases act) (auto simp: server_of_def task_ended_def split_beta
        split: program.splits tcp_phase.splits list.splits if_splits)
    with acts show ?thesis by simp
  qed simp_all
qed

text \<open>
  C4. The server on threads comes to rest, whatever its tasks do or fail to do. After its loop
  has ended, by cancellation or a failed accept, at most 80 steps of its threads are possible,
  and 62 for each connection that was ever accepted, however the scheduler interleaves them; and
  until the runner has returned, some step is possible that needs no task: one inside a call, the
  runner's own, the deadline, the end of an aborted task, a join. By such steps alone it gets
  to its return, also with connections that never answer, make no further call and never end.
\<close>

theorem tcp_threads_come_to_rest:
  assumes "documented_semaphore lib available"
    and "trail (threaded_step view (actions_of (tcp_model lib)))
      (threads_of (tcp_model lib) (tcp_start lib config bound c)) (before @ Some leave # after) s"
    and "leave = SeesCancellation \<or> leave = AcceptFails e"
  shows "length after \<le> 80 + 62 * length (tn_handlers s) \<and>
    ((\<exists>r. tn_main s = Finished (Returned r)) \<or> (\<exists>l t. unaided_step view (tcp_model lib) unaided s l t)) \<and>
    (\<exists>ls t r. trail (unaided_step view (tcp_model lib) unaided) s ls t \<and> tn_main t = Finished (Returned r))"
proof -
  let ?h = "length (tn_handlers s)"
  have "\<exists>ls t r. trail (unaided_step view (tcp_model lib) unaided) s ls t \<and> tn_main t = Finished (Returned r)"
    using assms(2)
  proof (induction "80 + 62 * ?h - length after" arbitrary: after s rule: less_induct)
    case less
    note rests = tcp_rests [OF assms(1) less.prems(1) assms(3)]
    show ?case
    proof (cases "\<exists>r. tn_main s = Finished (Returned r)")
      case True
      then show ?thesis by (intro exI [of _ "[]"] exI [of _ s]) simp
    next
      case False
      then obtain l t where t: "unaided_step view (tcp_model lib) unaided s l t" using rests by blast
      have trail: "trail (threaded_step view (actions_of (tcp_model lib)))
          (threads_of (tcp_model lib) (tcp_start lib config bound c)) (before @ Some leave # after @ [l]) t"
        using less.prems(1) unaided_is_step [OF t] by (auto simp: trail_append)
      have same: "length (tn_handlers t) = length (tn_handlers s)" using unaided_keeps_handlers [OF t] .
      have "length (after @ [l]) \<le> 80 + 62 * length (tn_handlers t)"
        using tcp_rests [OF assms(1) trail assms(3)] by blast
      then have "80 + 62 * length (tn_handlers t) - length (after @ [l]) < 80 + 62 * length (tn_handlers s) - length after"
        using same by simp
      from less.hyps [OF this trail] obtain ls u r where
        "trail (unaided_step view (tcp_model lib) unaided) t ls u" "tn_main u = Finished (Returned r)" by blast
      with t show ?thesis by (intro exI [of _ "l # ls"] exI [of _ u]) auto
    qed
  qed
  with tcp_rests [OF assms] show ?thesis by blast
qed

section \<open>A run on threads\<close>

lemma example_uncalled:
  "uncalled (tcp_model lib) example_actions =
     [AcceptsConnection (Inr ()) TaskFinished, AcceptsConnection (Inr ()) TaskFailed, HandlerEnds 0 True,
      JoinsTask, SeesCancellation, DeadlineFires, TaskAborted 1, JoinsTask, TasksGone]"
  by (simp add: example_actions_def uncalled_def tcp_caller_def del: tcp_caller_simps)

lemma example_on_threads:
  obtains ls s r where
    "trail (threaded_step last (actions_of (tcp_model counting_semaphore)))
      (threads_of (tcp_model counting_semaphore) (tcp_start counting_semaphore tcp_default (Inr ()) (fresh_controller 8)))
      ls (threads_of (tcp_model counting_semaphore) s)"
    "observed ls = uncalled (tcp_model counting_semaphore) example_actions" "tcs_main s = Finished (Returned r)"
    "tcp_run counting_semaphore (tcp_start counting_semaphore tcp_default (Inr ()) (fresh_controller 8))
      example_actions = Some s"
proof -
  let ?s = "tcp_start counting_semaphore tcp_default (Inr ()) (fresh_controller 8)"
  obtain s r where s: "tcp_run counting_semaphore ?s example_actions = Some s" "tcs_main s = Finished (Returned r)"
    using example_run by (auto split: option.splits program.splits tcp_phase.splits)
  have "\<not> ctl_poisoned (md_ctl (tcp_model counting_semaphore) ?s)" by (simp add: tcp_start_def fresh_controller_def)
  from tcp_threads.run_on_threads [OF tcp_start_known this, of example_actions s last] s that show ?thesis
    by (auto simp: tcp_model_run)
qed

theorem tcp_threads_are_atomic_witness:
  "\<exists>ls s. trail (threaded_step last (actions_of (tcp_model counting_semaphore)))
      (threads_of (tcp_model counting_semaphore) (tcp_start counting_semaphore tcp_default (Inr ()) (fresh_controller 8)))
      ls (threads_of (tcp_model counting_semaphore) s) \<and>
    observed ls = uncalled (tcp_model counting_semaphore) example_actions"
proof -
  obtain s where "tcp_run counting_semaphore (tcp_start counting_semaphore tcp_default (Inr ()) (fresh_controller 8))
      example_actions = Some s"
    using example_run by (auto split: option.splits)
  moreover have "\<not> ctl_poisoned (fresh_controller 8)" by (simp add: fresh_controller_def)
  ultimately show ?thesis using tcp_threads_are_atomic [THEN iffD2] by blast
qed

theorem tcp_threads_leave_nothing_behind_witness:
  "\<exists>ls s. trail (threaded_step last (actions_of (tcp_model counting_semaphore)))
      (threads_of (tcp_model counting_semaphore) (tcp_start counting_semaphore tcp_default (Inr ()) (fresh_controller 8)))
      ls s \<and> state_of (th_ctl (tn_threads s)) = Stopped \<and> th_owner (tn_threads s) = None"
proof -
  obtain ls s r where s: "trail (threaded_step last (actions_of (tcp_model counting_semaphore)))
      (threads_of (tcp_model counting_semaphore) (tcp_start counting_semaphore tcp_default (Inr ()) (fresh_controller 8)))
      ls (threads_of (tcp_model counting_semaphore) s)" "tcs_main s = Finished (Returned r)"
      "tcp_run counting_semaphore (tcp_start counting_semaphore tcp_default (Inr ()) (fresh_controller 8))
        example_actions = Some s"
    by (rule example_on_threads)
  have "controller_new 8 = Inr (fresh_controller 8)" by (simp add: controller_new_eq)
  moreover have "revision_of (tcs_ctl s) + 5 < 2 ^ 64"
    using tcp_run_room [OF s(3)] by (simp add: tcp_start_def fresh_controller_def INITIAL_def example_actions_def)
  then have "revision_of (th_ctl (tn_threads (threads_of (tcp_model counting_semaphore) s))) + 5 < 2 ^ 64"
    by (simp add: threads_new_def)
  moreover have "tn_main (threads_of (tcp_model counting_semaphore) s) = Finished (Returned r)" by (simp add: s(2))
  ultimately have "state_of (th_ctl (tn_threads (threads_of (tcp_model counting_semaphore) s))) = Stopped \<and>
      th_owner (tn_threads (threads_of (tcp_model counting_semaphore) s)) = None"
    using tcp_threads_leave_nothing_behind [OF counting_documented _ example_defaults_valid(3) s(1)] by blast
  with s(1) show ?thesis by blast
qed

theorem tcp_threads_come_to_rest_witness:
  "\<exists>before after s. trail (threaded_step last (actions_of (tcp_model counting_semaphore)))
      (threads_of (tcp_model counting_semaphore) (tcp_start counting_semaphore tcp_default (Inr ()) (fresh_controller 8)))
      (before @ Some SeesCancellation # after) s \<and> after \<noteq> [] \<and> length after \<le> 80 + 62 * length (tn_handlers s)"
proof -
  obtain ls s r where s: "trail (threaded_step last (actions_of (tcp_model counting_semaphore)))
      (threads_of (tcp_model counting_semaphore) (tcp_start counting_semaphore tcp_default (Inr ()) (fresh_controller 8)))
      ls (threads_of (tcp_model counting_semaphore) s)"
      "observed ls = uncalled (tcp_model counting_semaphore) example_actions" by (rule example_on_threads)
  have "SeesCancellation \<in> set (observed ls)" by (simp add: s(2) example_uncalled)
  then have "Some SeesCancellation \<in> set ls" by (simp add: observed_set)
  then obtain before after where ls: "ls = before @ Some SeesCancellation # after" by (auto dest: split_list)
  have "after \<noteq> []"
  proof
    assume "after = []"
    with s(2) ls show False by (simp add: observed_append observed_Cons example_uncalled)
  qed
  with s(1) ls tcp_threads_come_to_rest [OF counting_documented, of last tcp_default "Inr ()" "fresh_controller 8"
      before SeesCancellation after "threads_of (tcp_model counting_semaphore) s"]
  show ?thesis by blast
qed

end
