(* ===== verification/Network_Threads.thy ===== *)
theory Network_Threads
  imports Network_Server_Laws Threaded_Servers
begin

text \<open>
  The HTTP and the WebSocket server on threads: the runner and each session make their calls
  access by access, under the controller's mutex, while requests arrive and sessions end.
\<close>

section \<open>The server as a model\<close>

record 'st serving_state =
  srv_live :: "nat list"
  srv_cancelled :: bool
  srv_router :: "'st option"

definition serving_state :: "'st net_server \<Rightarrow> 'st serving_state" where
  "serving_state s = \<lparr>srv_live = nts_live s, srv_cancelled = nts_cancelled s, srv_router = nts_router s\<rparr>"

definition net_server_of ::
  "controller \<Rightarrow> net_phase program \<Rightarrow> unit program list \<Rightarrow> 'st serving_state \<Rightarrow> 'st net_server" where
  "net_server_of c p hs x = \<lparr>nts_ctl = c, nts_main = p, nts_sessions = hs, nts_live = srv_live x,
     nts_cancelled = srv_cancelled x, nts_router = srv_router x\<rparr>"

definition net_caller :: "'req net_action \<Rightarrow> nat option option" where
  "net_caller act = (case act of NetCalls \<Rightarrow> Some None | SessionCalls i \<Rightarrow> Some (Some i) | _ \<Rightarrow> None)"

definition net_ends :: "'req net_action \<Rightarrow> nat option" where
  "net_ends act = (case act of SessionGone i _ \<Rightarrow> Some i | _ \<Rightarrow> None)"

definition net_model ::
  "('st, 'req) service \<Rightarrow> ('st net_server, net_phase, 'st serving_state, 'req net_action) server_model" where
  "net_model svc =
     \<lparr>md_act = net_act svc, md_ctl = nts_ctl, md_main = nts_main, md_handlers = nts_sessions, md_rest = serving_state,
      md_build = net_server_of, md_caller = net_caller, md_calling = (\<lambda>x. set (srv_live x)), md_ends = net_ends\<rparr>"

lemma net_model_simps [simp]:
  "md_act (net_model svc) = net_act svc" "md_ctl (net_model svc) = nts_ctl" "md_main (net_model svc) = nts_main"
  "md_handlers (net_model svc) = nts_sessions" "md_rest (net_model svc) = serving_state"
  "md_build (net_model svc) = net_server_of" "md_caller (net_model svc) = net_caller"
  "md_calling (net_model svc) = (\<lambda>x. set (srv_live x))" "md_ends (net_model svc) = net_ends"
  by (simp_all add: net_model_def)

lemma net_server_of_simps [simp]:
  "nts_ctl (net_server_of c p hs x) = c" "nts_main (net_server_of c p hs x) = p"
  "nts_sessions (net_server_of c p hs x) = hs" "nts_live (net_server_of c p hs x) = srv_live x"
  "serving_state (net_server_of c p hs x) = x"
  "net_server_of (nts_ctl s) (nts_main s) (nts_sessions s) (serving_state s) = s"
  by (simp_all add: net_server_of_def serving_state_def)

lemma srv_live_simp [simp]: "srv_live (serving_state s) = nts_live s"
  by (simp add: serving_state_def)

lemma net_caller_simps [simp]:
  "net_caller act = Some None \<longleftrightarrow> act = NetCalls" "net_caller act = Some (Some i) \<longleftrightarrow> act = SessionCalls i"
  "net_caller act = None \<longleftrightarrow> act \<noteq> NetCalls \<and> (\<forall>i. act \<noteq> SessionCalls i)"
  by (cases act; simp add: net_caller_def)+

lemma net_ends_iff [simp]: "net_ends act = Some i \<longleftrightarrow> (\<exists>dropped. act = SessionGone i dropped)"
  by (cases act) (simp_all add: net_ends_def)

interpretation net_threads: served "net_model svc" for svc :: "('st, 'req) service"
proof
  fix s t :: "'st net_server" and act :: "'req net_action" and p
  assume caller: "md_caller (net_model svc) act = None" and "md_act (net_model svc) s act = Some t"
  then have act: "net_act svc s act = Some t" by simp
  show "md_main (net_model svc) t = md_main (net_model svc) s \<and>
      md_act (net_model svc) (md_build (net_model svc) (md_ctl (net_model svc) s) p
          (md_handlers (net_model svc) s) (md_rest (net_model svc) s)) act =
        Some (md_build (net_model svc) (md_ctl (net_model svc) s) p
          (md_handlers (net_model svc) t) (md_rest (net_model svc) t))"
    if "\<not> finished (md_main (net_model svc) s)"
    using act caller that
    by (cases act) (auto simp: net_server_of_def serving_state_def
        split: program.splits if_splits option.splits sum.splits)
  show "\<exists>new. md_handlers (net_model svc) t = md_handlers (net_model svc) s @ new \<and>
      (\<forall>hs. length hs = length (md_handlers (net_model svc) s) \<and>
          (\<forall>i. md_ends (net_model svc) act = Some i \<longrightarrow> hs ! i = md_handlers (net_model svc) s ! i) \<longrightarrow>
         md_act (net_model svc) (md_build (net_model svc) (md_ctl (net_model svc) s)
             (md_main (net_model svc) s) hs (md_rest (net_model svc) s)) act =
           Some (md_build (net_model svc) (md_ctl (net_model svc) s) (md_main (net_model svc) t)
             (hs @ new) (md_rest (net_model svc) t)))"
    using act caller
    by (cases act) (auto simp: net_server_of_def serving_state_def
        split: program.splits net_phase.splits if_splits option.splits sum.splits)
  show "i \<in> md_calling (net_model svc) (md_rest (net_model svc) t)"
    if "i \<in> md_calling (net_model svc) (md_rest (net_model svc) s)" "md_ends (net_model svc) act \<noteq> Some i" for i
    using act caller that
    by (cases act) (auto split: program.splits net_phase.splits if_splits option.splits sum.splits)
  show "i \<in> md_calling (net_model svc) (md_rest (net_model svc) s)" if "md_ends (net_model svc) act = Some i" for i
    using act that by (auto split: if_splits)
  show "i \<in> md_calling (net_model svc) (md_rest (net_model svc) s) \<or>
      length (md_handlers (net_model svc) s) \<le> i \<and> i < length (md_handlers (net_model svc) t)"
    if "i \<in> md_calling (net_model svc) (md_rest (net_model svc) t)" for i
    using act caller that
    by (cases act) (auto dest: notin_set_remove1
        split: program.splits net_phase.splits if_splits option.splits sum.splits)
next
  fix act :: "'req net_action" and c d p hs and x :: "'st serving_state" and t
  assume "md_caller (net_model svc) act = None"
    "md_act (net_model svc) (md_build (net_model svc) c p hs x) act = Some t"
  then show "md_act (net_model svc) (md_build (net_model svc) d p hs x) act =
      Some (md_build (net_model svc) d (md_main (net_model svc) t) (md_handlers (net_model svc) t) (md_rest (net_model svc) t))"
    by (cases act) (auto simp: net_server_of_def serving_state_def
        split: program.splits net_phase.splits if_splits option.splits sum.splits)
qed (auto simp: net_server_of_def serving_state_def split_beta)

section \<open>Runs on threads\<close>

lemma net_model_run: "model_run (net_model svc) s acts = net_run svc s acts"
  by (induction acts arbitrary: s) (auto split: option.splits)

lemma net_start_known: "known (net_model svc) (net_start svc bound c)"
  by (simp add: known_def net_start_def)

lemma net_cause_uncalled: "net_cause m (uncalled (net_model svc) acts) = net_cause m acts"
  by (induction m acts rule: net_cause.induct) simp_all

text \<open>Nothing is under way in a lifecycle that has stopped: a thread with the lock only reads.\<close>

lemma stopped_data:
  assumes "threads_agree sa s b m" "state_of (sv_ctl m) = Stopped" "\<not> ctl_poisoned (th_ctl (tn_threads s))"
  shows "th_ctl (tn_threads s) = sv_ctl m"
proof -
  have lin: "linearized (tn_threads s) b" and ctl: "sv_ctl m = am_ctl b"
    using assms(1) by (simp_all add: threads_agree_def)
  show ?thesis
  proof (cases "th_owner (tn_threads s)")
    case None
    then show ?thesis using linearizedD(4,6) [OF lin] assms(3) by (auto simp: ctl)
  next
    case (Some t)
    then have "in_flight (am_ctl b) (th_pc (tn_threads s) t) (th_ctl (tn_threads s))"
      using linearizedD(5) [OF lin] by blast
    then show ?thesis
      using assms(2) by (cases "th_pc (tn_threads s) t") (auto simp: ctl decided_def)
  qed
qed

text \<open>
  C6. The HTTP and the WebSocket server on threads, down to each access of the mutex: when the
  runner has returned, it has returned the bind error, what serving ended with or the timeout,
  the lifecycle is stopped, and whatever the threads of the sessions that are left still do,
  none of them writes to the controller again.
\<close>

theorem network_threads_conform:
  assumes "healthy svc" "svc_valid svc = Inr ()" "svc_router svc = Inr router" "controller_new cap = Inr c"
    and "trail (threaded_step view (actions_of (net_model svc))) (threads_of (net_model svc) (net_start svc bound c)) ls s"
    and "revision_of (th_ctl (tn_threads s)) + 5 < 2 ^ 64" "tn_main s = Finished (Ended r)"
  shows "(case bound of
       Inl error \<Rightarrow> r = Inl error | Inr _ \<Rightarrow> net_cause (svc_timeout svc) (observed ls) = Some r) \<and>
    state_of (th_ctl (tn_threads s)) = Stopped \<and>
    (\<forall>more t. trail (threaded_step view (actions_of (net_model svc))) s more t \<longrightarrow>
       th_ctl (tn_threads t) = th_ctl (tn_threads s))"
proof -
  let ?md = "net_model svc"
  obtain acts b m where m: "net_run svc (net_start svc bound c) acts = Some (assemble ?md m)"
      "threads_agree (actions_of ?md) s b m" "uncalled ?md acts = observed ls"
    using net_threads.threads_run_start [OF assms(5) net_start_known] by (metis net_model_run)
  have parts: "nts_ctl (assemble ?md n) = sv_ctl n" "nts_main (assemble ?md n) = sv_main n" for n
    using net_threads.assemble_simps(1,2) [of svc n] by simp_all
  have fresh: "\<not> ctl_poisoned (md_ctl ?md (net_start svc bound c))"
    using new_controller [OF assms(4)] by (simp add: net_start_def)
  have sound: "\<not> ctl_poisoned (th_ctl (tn_threads s))"
    using net_threads.never_poisoned [OF _ m(2) fresh] m(1) by (simp add: net_model_run)
  have main: "nts_main (assemble ?md m) = Finished (Ended r)"
    using net_threads.main_agrees [OF m(2)] assms(7) by (simp add: parts)
  have "revision_of (nts_ctl (assemble ?md m)) + 5 < 2 ^ 64" using data_ahead [OF m(2) sound] assms(6) by (simp add: parts)
  note ends = net_phase_holds [OF assms(1-4) m(1) this main]
  then have stopped: "state_of (sv_ctl m) = Stopped" by (simp add: net_ok_def parts)
  have data: "th_ctl (tn_threads s) = sv_ctl m" by (rule stopped_data [OF m(2) stopped sound])
  have "th_ctl (tn_threads t) = th_ctl (tn_threads s)"
    if more: "trail (threaded_step view (actions_of ?md)) s more t" for more t
  proof -
    obtain acts' b' n where n: "net_run svc (assemble ?md m) acts' = Some (assemble ?md n)"
        "threads_agree (actions_of ?md) t b' n"
      using net_threads.threads_run [OF more m(2)] by (metis net_model_run)
    from ended_freezes [OF assms(1) main _ _ n(1)] stopped ends
    have same: "sv_ctl n = sv_ctl m" by (simp add: parts)
    have "model_run ?md (net_start svc bound c) (acts @ acts') = Some (assemble ?md n)"
      using m(1) n(1) by (simp add: net_model_run net_run_append)
    from net_threads.never_poisoned [OF this n(2) fresh] stopped_data [OF n(2)] stopped
    show ?thesis by (simp add: same data)
  qed
  with ends data stopped show ?thesis
    using net_cause_uncalled [of "svc_timeout svc" svc acts] m(3)
    by (auto simp: net_ok_def is_ok_def split: sum.splits)
qed

section \<open>A run on threads\<close>

text \<open>The handler of \<open>example_http_requests\<close> has not reported when the runner has returned.\<close>

theorem network_threads_conform_witness:
  "\<exists>ls s. trail (threaded_step last (actions_of (net_model (http_service example_types example_rmcp listed_http))))
      (threads_of (net_model (http_service example_types example_rmcp listed_http))
        (net_start (http_service example_types example_rmcp listed_http) (Inr ()) (fresh_controller 8))) ls s \<and>
    srv_live (tn_rest s) = [0] \<and> state_of (th_ctl (tn_threads s)) = Stopped"
proof -
  let ?svc = "http_service example_types example_rmcp listed_http"
  let ?md = "net_model ?svc" and ?s = "net_start ?svc (Inr ()) (fresh_controller 8)"
  obtain s where s: "net_run ?svc ?s example_http_requests = Some s" "nts_main s = Finished (Ended (Inr ()))"
      "nts_live s = [0]"
    using example_http_run by blast
  have "\<not> ctl_poisoned (md_ctl ?md ?s)" by (simp add: net_start_def fresh_controller_def)
  with net_threads.run_on_threads [OF net_start_known this, of example_http_requests s last] s(1)
  obtain ls where ls: "trail (threaded_step last (actions_of ?md)) (threads_of ?md ?s) ls (threads_of ?md s)"
    by (auto simp: net_model_run)
  obtain router where router: "build_http_router example_types listed_http = Inr router"
    using listed_http_validates by (auto simp: build_http_router_def http_validate_Inr is_ok_iff)
  have "svc_valid ?svc = Inr ()" "svc_router ?svc = Inr router"
    by (simp_all add: http_service_def listed_http_validates router)
  moreover have "controller_new 8 = Inr (fresh_controller 8)" by (simp add: controller_new_eq)
  moreover have "revision_of (nts_ctl s) + 5 < 2 ^ 64"
    using net_run_room [OF s(1)] by (simp add: net_start_def fresh_controller_def INITIAL_def example_http_requests_def)
  then have "revision_of (th_ctl (tn_threads (threads_of ?md s))) + 5 < 2 ^ 64" by (simp add: threads_new_def)
  moreover have "tn_main (threads_of ?md s) = Finished (Ended (Inr ()))" by (simp add: s(2))
  ultimately have "state_of (th_ctl (tn_threads (threads_of ?md s))) = Stopped"
    using network_threads_conform [OF services_healthy(1) _ _ _ ls] by blast
  with ls s(3) show ?thesis by (intro exI [of _ ls] exI [of _ "threads_of ?md s"]) simp
qed

end
