(* ===== verification/Watched_Servers.thy ===== *)
theory Watched_Servers
  imports Tcp_Threads Network_Threads Lifecycle_Wait
begin

text \<open>
  A server together with a task that waits for a state of its lifecycle, as the owner of a server
  does with \<open>wait_for\<close>. The two share the controller: what a call of the server does to it the
  waiter sees, and nobody else touches it.
\<close>

section \<open>A server and a waiter\<close>

text \<open>Left items are actions of the server, right ones are what happens to the waiter.\<close>

fun watched_step ::
  "('s, 'p, 'x, 'l) server_model \<Rightarrow> watch_lib \<Rightarrow> lifecycle_state \<Rightarrow> 's \<times> waiter \<Rightarrow> 'l + wait_item \<Rightarrow>
     ('s \<times> waiter) option" where
  "watched_step md wl target (s, w) (Inl act) =
     (case md_act md s act of None \<Rightarrow> None | Some t \<Rightarrow> Some (t, w\<lparr>wt_ctl := md_ctl md t\<rparr>))"
| "watched_step md wl target (s, w) (Inr (Elsewhere ev)) = None"
| "watched_step md wl target (s, w) (Inr item) = Some (s, wait_step wl target w item)"

primrec watched_run ::
  "('s, 'p, 'x, 'l) server_model \<Rightarrow> watch_lib \<Rightarrow> lifecycle_state \<Rightarrow> 's \<times> waiter \<Rightarrow> ('l + wait_item) list \<Rightarrow>
     ('s \<times> waiter) option" where
  "watched_run md wl target sw [] = Some sw"
| "watched_run md wl target sw (x # xs) =
     (case watched_step md wl target sw x of None \<Rightarrow> None | Some tv \<Rightarrow> watched_run md wl target tv xs)"

definition server_part :: "('l + wait_item) list \<Rightarrow> 'l list" where
  "server_part xs = List.map_filter (\<lambda>x. case x of Inl act \<Rightarrow> Some act | Inr _ \<Rightarrow> None) xs"

definition waiter_part :: "('l + wait_item) list \<Rightarrow> wait_item list" where
  "waiter_part xs = List.map_filter (\<lambda>x. case x of Inl _ \<Rightarrow> None | Inr item \<Rightarrow> Some item) xs"

lemma part_simps [simp]:
  "server_part [] = []" "server_part (Inl act # xs) = act # server_part xs" "server_part (Inr item # xs) = server_part xs"
  "waiter_part [] = []" "waiter_part (Inl act # xs) = waiter_part xs" "waiter_part (Inr item # xs) = item # waiter_part xs"
  by (simp_all add: server_part_def waiter_part_def map_filter_simps)

lemma watched_run_append:
  "watched_run md wl target sw (xs @ ys) =
     Option.bind (watched_run md wl target sw xs) (\<lambda>tv. watched_run md wl target tv ys)"
  by (induction xs arbitrary: sw) (auto split: option.splits)

text \<open>The waiter's own items do not touch the controller.\<close>

lemma own_item_ctl: "(\<And>ev. item \<noteq> Elsewhere ev) \<Longrightarrow> wt_ctl (wait_step wl target w item) = wt_ctl w"
  by (cases item) (auto simp: wait_turn_def Let_def split: wait_pc.splits)

lemma watched_own:
  "watched_step md wl target (s, w) (Inr item) = Some (t, v) \<longleftrightarrow>
     (\<forall>ev. item \<noteq> Elsewhere ev) \<and> t = s \<and> v = wait_step wl target w item"
  by (cases item) auto

definition own_items :: "wait_item list \<Rightarrow> wait_item list" where
  "own_items items = filter (\<lambda>item. \<forall>ev. item \<noteq> Elsewhere ev) items"

lemma own_items_simps [simp]:
  "own_items [] = []" "own_items (Elsewhere ev # items) = own_items items"
  "(\<And>ev. item \<noteq> Elsewhere ev) \<Longrightarrow> own_items (item # items) = item # own_items items"
  by (simp_all add: own_items_def)

context served
begin

text \<open>A run of the two is a run of each: the calls of the server are what happens elsewhere.\<close>

lemma watched_decomposes:
  "watched_run md wl target (s, w) xs = Some (t, v) \<Longrightarrow> wt_ctl w = md_ctl md s \<Longrightarrow>
     model_run md s (server_part xs) = Some t \<and> wt_ctl v = md_ctl md t \<and>
     (\<exists>items. v = wait_run wl target w items \<and> own_items items = waiter_part xs)"
proof (induction xs arbitrary: s w)
  case Nil
  then show ?case by (auto intro!: exI [of _ "[]"])
next
  case (Cons x xs)
  then obtain u w' where u: "watched_step md wl target (s, w) x = Some (u, w')"
      "watched_run md wl target (u, w') xs = Some (t, v)"
    by (auto split: option.splits)
  show ?case
  proof (cases x)
    case (Inl act)
    with u(1) have act: "md_act md s act = Some u" "w' = w\<lparr>wt_ctl := md_ctl md u\<rparr>"
      by (auto split: option.splits)
    then obtain items where ih: "model_run md u (server_part xs) = Some t" "wt_ctl v = md_ctl md t"
        "v = wait_run wl target w' items" "own_items items = waiter_part xs"
      using Cons.IH [OF u(2)] by auto
    from act_ctl [OF act(1)] show ?thesis
    proof (elim disjE exE)
      assume "md_ctl md u = md_ctl md s"
      with act(2) Cons.prems(2) have "w' = w" by simp
      with ih act(1) Inl show ?thesis by auto
    next
      fix ev assume "md_ctl md u = controller_step (md_ctl md s) ev"
      with act(2) Cons.prems(2) have "wait_step wl target w (Elsewhere ev) = w'" by simp
      with ih have "v = wait_run wl target w (Elsewhere ev # items)" by simp
      with ih act(1) Inl show ?thesis by (intro conjI exI [of _ "Elsewhere ev # items"]) simp_all
    qed
  next
    case (Inr item)
    with u(1) have own: "\<And>ev. item \<noteq> Elsewhere ev" "u = s" "w' = wait_step wl target w item"
      by (simp_all add: watched_own)
    with Cons.IH [OF u(2)] Cons.prems(2) obtain items where ih: "model_run md s (server_part xs) = Some t"
        "wt_ctl v = md_ctl md t" "v = wait_run wl target w' items" "own_items items = waiter_part xs"
      by (auto simp: own_item_ctl)
    with own(3) have "v = wait_run wl target w (item # items)" by simp
    with ih Inr own(1) show ?thesis by (intro conjI exI [of _ "item # items"]) simp_all
  qed
qed

end

section \<open>Waiting for the end\<close>

lemma own_items_undisturbed: "list_all undisturbed (own_items items) \<Longrightarrow> list_all undisturbed items"
  by (induction items) (auto simp: own_items_def undisturbed_def split: if_splits)

lemma own_items_turns: "count_list (own_items items) Turn = count_list items Turn"
  by (induction items) (auto simp: own_items_def)

lemma succeeding_start:
  assumes "traced c L"
  shows "succeeding wl target (waiter_new c others)"
proof -
  have "waiting_on target [] (waiter_new c others)" using assms by (rule waiting_new)
  then show ?thesis unfolding succeeding_def by (auto simp: waiter_new_def)
qed

lemma succeeding_step:
  assumes "documented_watch wl" "succeeding wl target w" "undisturbed item"
  shows "succeeding wl target (wait_step wl target w item)"
proof (cases "item = Turn")
  case True
  obtain xs where w: "waiting_on target xs w" using assms(2) by (auto simp: succeeding_def)
  have "\<exists>ys. waiting_on target ys (wait_turn wl target w)" using waiting_turn [OF assms(1) w] by blast
  moreover have "0 < wt_handles w" using w by (simp add: waiting_on_def)
  then have "\<not> wt_cancelled (wait_turn wl target w) \<and>
      (\<forall>r. wt_pc (wait_turn wl target w) = Returned r \<longrightarrow> (\<exists>snap. r = Inr snap))"
    using assms(2) by (cases "wt_pc w") (auto simp: succeeding_def wait_turn_def Let_def)
  ultimately show ?thesis using True by (simp add: succeeding_def)
qed (use succeeding_other [OF assms(1,2,3)] in blast)

lemma succeeding_run:
  assumes "documented_watch wl"
  shows "succeeding wl target w \<Longrightarrow> list_all undisturbed items \<Longrightarrow> succeeding wl target (wait_run wl target w items)"
  by (induction items arbitrary: w) (simp_all add: succeeding_step [OF assms])

text \<open>Once stopped, stopped in every state that a waiter goes through.\<close>

lemma stopped_run: "state_of (wt_ctl w) = Stopped \<Longrightarrow> state_of (wt_ctl (wait_run wl target w items)) = Stopped"
proof (induction items arbitrary: w)
  case (Cons item items)
  have "state_of (wt_ctl (wait_step wl target w item)) = Stopped"
    using Cons.prems own_item_ctl [of item wl target w]
    by (cases "\<exists>ev. item = Elsewhere ev") (auto simp: accepts_def)
  then show ?case using Cons.IH by simp
qed simp

text \<open>What a wait for the end returns is the end.\<close>

lemma returned_stopped:
  assumes "documented_watch wl" "waiting_on Stopped xs w"
    and "\<And>snap. wt_pc w = Returned (Inr snap) \<Longrightarrow> state_of (wt_ctl w) = Stopped"
    and "wt_pc (wait_run wl Stopped w items) = Returned (Inr snap)"
  shows "state_of (wt_ctl (wait_run wl Stopped w items)) = Stopped"
  using assms(2-4)
proof (induction items arbitrary: w xs)
  case (Cons item items)
  let ?v = "wait_step wl Stopped w item"
  have next_ok: "state_of (wt_ctl ?v) = Stopped" if "wt_pc ?v = Returned (Inr snap)" for snap
  proof (cases "state_of (wt_ctl w) = Stopped")
    case True
    then show ?thesis using stopped_run [of w wl Stopped "[item]"] by simp
  next
    case False
    obtain L where t: "traced (wt_ctl w) L" using Cons.prems(1) by (auto simp: waiting_on_def)
    then have "wl_view wl (ctl_published (wt_ctl w)) = ctl_snapshot (wt_ctl w)"
      using assms(1) traced_published traced_published_last by (simp add: documented_watch_def)
    then show ?thesis
      using that False Cons.prems(2)
      by (cases item; cases "wt_pc w") (auto simp: wait_turn_def Let_def split: if_splits)
  qed
  from Cons.IH [OF waiting_step [OF assms(1) Cons.prems(1)] next_ok] Cons.prems(3) show ?case by simp
qed simp

context served
begin

text \<open>
  A wait for \<open>Stopped\<close> beside a server that nobody disturbs: what it returns is the end, and two
  turns after the lifecycle has stopped it has returned.
\<close>

lemma end_is_seen:
  assumes "documented_watch wl" "traced (md_ctl md s0) L"
    and "watched_run md wl Stopped (s0, waiter_new (md_ctl md s0) others) xs = Some (s, w)"
  shows "wt_pc w = Returned (Inr snap) \<Longrightarrow> snap_state snap = Stopped \<and> state_of (md_ctl md s) = Stopped"
    and "state_of (md_ctl md s) = Stopped \<Longrightarrow> watched_run md wl Stopped (s, w) ys = Some (t, v) \<Longrightarrow>
      list_all undisturbed (waiter_part (xs @ ys)) \<Longrightarrow> 2 \<le> count_list (waiter_part ys) Turn \<Longrightarrow>
      \<exists>snap. wt_pc v = Returned (Inr snap) \<and> snap_state snap = Stopped"
proof -
  let ?w0 = "waiter_new (md_ctl md s0) others"
  have start: "wt_ctl ?w0 = md_ctl md s0" by (simp add: waiter_new_def)
  obtain items where w: "w = wait_run wl Stopped ?w0 items" "wt_ctl w = md_ctl md s" "own_items items = waiter_part xs"
    using watched_decomposes [OF assms(3) start] by blast
  note new = waiting_new [OF assms(2), of Stopped others]
  have inv: "waiting_on Stopped (wait_obs wl Stopped ?w0 items) w"
    using waiting_run [OF assms(1) new, of items] by (simp add: w(1))
  show "snap_state snap = Stopped \<and> state_of (md_ctl md s) = Stopped" if "wt_pc w = Returned (Inr snap)"
    using returned_stopped [OF assms(1) new _ that [unfolded w(1)]] inv that
    by (simp add: w(1) [symmetric] w(2)) (simp add: waiter_new_def waiting_on_def)
  assume st: "state_of (md_ctl md s) = Stopped" "watched_run md wl Stopped (s, w) ys = Some (t, v)"
    "list_all undisturbed (waiter_part (xs @ ys))" "2 \<le> count_list (waiter_part ys) Turn"
  obtain later where v: "v = wait_run wl Stopped w later" "own_items later = waiter_part ys"
    using watched_decomposes [OF st(2) w(2)] by blast
  have part: "waiter_part (xs @ ys) = waiter_part xs @ waiter_part ys"
    by (induction xs) (auto simp: waiter_part_def map_filter_simps split: sum.splits)
  have und: "list_all undisturbed items" "list_all undisturbed later"
    using st(3) by (auto simp: part w(3) [symmetric] v(2) [symmetric] intro: own_items_undisturbed)
  have succ: "succeeding wl Stopped w"
    unfolding w(1) by (rule succeeding_run [OF assms(1) succeeding_start [OF assms(2)] und(1)])
  have "\<exists>snap. wt_pc (wait_run wl Stopped w later) = Returned (Inr snap)"
  proof (rule wait_succeeds [OF assms(1) succ und(2)])
    show "turns_needed (wt_pc w) \<le> count_list later Turn"
      using st(4) own_items_turns [of later] v(2) by (cases "wt_pc w") auto
    show "state_of (wt_ctl (wait_run wl Stopped w us)) = Stopped" for us
      using st(1) w(2) by (intro stopped_run) simp
  qed
  moreover have "waiting_on Stopped (wait_obs wl Stopped ?w0 items @ wait_obs wl Stopped w later) v"
    unfolding v(1) by (rule waiting_run [OF assms(1) inv])
  ultimately show "\<exists>snap. wt_pc v = Returned (Inr snap) \<and> snap_state snap = Stopped"
    unfolding v(1) by (auto simp: waiting_on_def)
qed

end

section \<open>The servers\<close>

text \<open>
  C24. The owner of a TCP server can wait for its end. Beside the server, with its tasks and however
  their calls fall between the turns of the waiter, a \<open>wait_for\<close> of \<open>Stopped\<close> returns a snapshot
  only when the lifecycle is stopped; and when the runner has returned, two turns are enough for
  it to return one, unless it is cancelled or timed out, and nothing else is left to happen.
\<close>

theorem tcp_end_is_awaited:
  assumes "documented_watch wl" "documented_semaphore lib available" "controller_new cap = Inr c"
    "tcp_validate config = Inr ()"
    and "watched_run (tcp_model lib) wl Stopped (tcp_start lib config bound c, waiter_new c others) xs = Some (s, w)"
    and "revision_of (tcs_ctl s) + 5 < 2 ^ 64"
  shows "(\<forall>snap. wt_pc w = wait_pc.Returned (Inr snap) \<longrightarrow>
       snap_state snap = Stopped \<and> state_of (tcs_ctl s) = Stopped) \<and>
    (\<forall>r ys t v. tcs_main s = Finished (tcp_phase.Returned r) \<longrightarrow>
       watched_run (tcp_model lib) wl Stopped (s, w) ys = Some (t, v) \<longrightarrow>
       list_all undisturbed (waiter_part (xs @ ys)) \<longrightarrow> 2 \<le> count_list (waiter_part ys) Turn \<longrightarrow>
       t = s \<and> (\<exists>snap. wt_pc v = wait_pc.Returned (Inr snap) \<and> snap_state snap = Stopped))"
proof -
  let ?s0 = "tcp_start lib config bound c"
  have ctl: "md_ctl (tcp_model lib) ?s0 = c" by (simp add: tcp_start_def)
  then have traced: "traced (md_ctl (tcp_model lib) ?s0) []" using traced_new [OF assms(3)] by simp
  have run: "watched_run (tcp_model lib) wl Stopped (?s0, waiter_new (md_ctl (tcp_model lib) ?s0) others) xs = Some (s, w)"
    using assms(5) by (simp only: ctl)
  note ends = tcp_threads.end_is_seen [OF assms(1) traced run]
  have start: "wt_ctl (waiter_new c others) = md_ctl (tcp_model lib) ?s0"
    by (simp add: waiter_new_def tcp_start_def)
  have here: "tcp_run lib ?s0 (server_part xs) = Some s" "wt_ctl w = md_ctl (tcp_model lib) s"
    using tcp_threads.watched_decomposes [OF assms(5) start] by (simp_all add: tcp_model_run)
  have "t = s \<and> (\<exists>snap. wt_pc v = wait_pc.Returned (Inr snap) \<and> snap_state snap = Stopped)"
    if main: "tcs_main s = Finished (tcp_phase.Returned r)"
      and more: "watched_run (tcp_model lib) wl Stopped (s, w) ys = Some (t, v)"
      and calm: "list_all undisturbed (waiter_part (xs @ ys))" "2 \<le> count_list (waiter_part ys) Turn" for r ys t v
  proof -
    note ok = tcp_phase_holds [OF assms(2-4) here(1) assms(6) main]
    then have "state_of (md_ctl (tcp_model lib) s) = Stopped" "idle s" by (simp_all add: phase_ok_def)
    moreover have "tcp_run lib s (server_part ys) = Some t"
      using tcp_threads.watched_decomposes [OF more here(2)] by (simp add: tcp_model_run)
    with returned_is_final [OF main \<open>idle s\<close>] have "t = s" by (cases "server_part ys") simp_all
    ultimately show ?thesis using ends(2) [OF _ more calm] by blast
  qed
  with ends(1) show ?thesis by simp
qed

text \<open>The same of the HTTP and the WebSocket server, whose sessions may still be running.\<close>

theorem network_end_is_awaited:
  assumes "documented_watch wl" "healthy svc" "svc_valid svc = Inr ()" "svc_router svc = Inr router"
    "controller_new cap = Inr c"
    and "watched_run (net_model svc) wl Stopped (net_start svc bound c, waiter_new c others) xs = Some (s, w)"
    and "revision_of (nts_ctl s) + 5 < 2 ^ 64"
  shows "(\<forall>snap. wt_pc w = wait_pc.Returned (Inr snap) \<longrightarrow>
       snap_state snap = Stopped \<and> state_of (nts_ctl s) = Stopped) \<and>
    (\<forall>r ys t v. nts_main s = Finished (Ended r) \<longrightarrow>
       watched_run (net_model svc) wl Stopped (s, w) ys = Some (t, v) \<longrightarrow>
       list_all undisturbed (waiter_part (xs @ ys)) \<longrightarrow> 2 \<le> count_list (waiter_part ys) Turn \<longrightarrow>
       (\<exists>snap. wt_pc v = wait_pc.Returned (Inr snap) \<and> snap_state snap = Stopped))"
proof -
  let ?s0 = "net_start svc bound c"
  have ctl: "md_ctl (net_model svc) ?s0 = c" by (simp add: net_start_def)
  then have traced: "traced (md_ctl (net_model svc) ?s0) []" using traced_new [OF assms(5)] by simp
  have run: "watched_run (net_model svc) wl Stopped (?s0, waiter_new (md_ctl (net_model svc) ?s0) others) xs = Some (s, w)"
    using assms(6) by (simp only: ctl)
  note ends = net_threads.end_is_seen [OF assms(1) traced run]
  have start: "wt_ctl (waiter_new c others) = md_ctl (net_model svc) ?s0"
    by (simp add: waiter_new_def net_start_def)
  have here: "net_run svc ?s0 (server_part xs) = Some s"
    using net_threads.watched_decomposes [OF assms(6) start] by (simp add: net_model_run)
  have "\<exists>snap. wt_pc v = wait_pc.Returned (Inr snap) \<and> snap_state snap = Stopped"
    if main: "nts_main s = Finished (Ended r)"
      and more: "watched_run (net_model svc) wl Stopped (s, w) ys = Some (t, v)"
      and calm: "list_all undisturbed (waiter_part (xs @ ys))" "2 \<le> count_list (waiter_part ys) Turn" for r ys t v
  proof -
    have "state_of (md_ctl (net_model svc) s) = Stopped"
      using net_phase_holds [OF assms(2-5) here assms(7) main] by (simp add: net_ok_def)
    from ends(2) [OF this more calm] show ?thesis .
  qed
  with ends(1) show ?thesis by simp
qed

section \<open>A server and its owner\<close>

text \<open>
  The owner begins to wait before the server is up, sleeps, reads a state that is not the end,
  and is woken when the runner of \<open>example_actions\<close> has finished.
\<close>

definition example_items :: "(tcp_action + wait_item) list" where
  "example_items =
     [Inr Turn] @ map Inl (take 5 example_actions) @ [Inr Turn, Inr Turn] @ map Inl (drop 5 example_actions)"

abbreviation example_pair where
  "example_pair \<equiv> (tcp_start counting_semaphore tcp_default (Inr ()) (fresh_controller 8),
     waiter_new (fresh_controller 8) 1)"

lemma example_watched:
  "\<exists>s w r. watched_run (tcp_model counting_semaphore) tokio_watch Stopped example_pair example_items = Some (s, w) \<and>
    tcs_main s = Finished (tcp_phase.Returned r) \<and> wt_pc w = Sleeping \<and> revision_of (tcs_ctl s) < 100"
  by (simp add: example_items_def example_actions_def tcp_eval waiter_new_def wait_turn_def tokio_watch_def)

theorem tcp_end_is_awaited_witness:
  "\<exists>s w v snap. watched_run (tcp_model counting_semaphore) tokio_watch Stopped example_pair example_items = Some (s, w) \<and>
    wt_pc w = Sleeping \<and>
    watched_run (tcp_model counting_semaphore) tokio_watch Stopped (s, w) [Inr Turn, Inr DropIt, Inr Turn] = Some (s, v) \<and>
    wt_pc v = wait_pc.Returned (Inr snap) \<and> snap_state snap = Stopped"
proof -
  obtain s w r where s: "watched_run (tcp_model counting_semaphore) tokio_watch Stopped example_pair example_items = Some (s, w)"
      "tcs_main s = Finished (tcp_phase.Returned r)" "wt_pc w = Sleeping" "revision_of (tcs_ctl s) < 100"
    using example_watched by blast
  obtain v where v: "watched_run (tcp_model counting_semaphore) tokio_watch Stopped (s, w) [Inr Turn, Inr DropIt, Inr Turn] = Some (s, v)"
    by simp
  have "controller_new 8 = Inr (fresh_controller 8)" by (simp add: controller_new_eq)
  moreover have "revision_of (tcs_ctl s) + 5 < 2 ^ 64" using s(4) by simp
  moreover have "list_all undisturbed (waiter_part (example_items @ [Inr Turn, Inr DropIt, Inr Turn]))"
    by (simp add: example_items_def example_actions_def undisturbed_def)
  moreover have "2 \<le> count_list (waiter_part [Inr Turn, Inr DropIt, Inr Turn :: tcp_action + wait_item]) Turn" by simp
  ultimately have "\<exists>snap. wt_pc v = wait_pc.Returned (Inr snap) \<and> snap_state snap = Stopped"
    using tcp_end_is_awaited [OF tokio_watch_documented counting_documented _ example_defaults_valid(3) s(1)] s(2) v
    by blast
  with s(1,3) v show ?thesis by blast
qed

end
