(* ===== verification/External_Drain.thy ===== *)
theory External_Drain
  imports Tcp_Server_Laws Network_Server_Laws
begin

text \<open>
  A clone of the controller that drains the lifecycle while a server is running. The runners
  leave their loops by a \<open>Drain\<close> of their own, which is then refused. The network runners pass
  this over and finish the lifecycle all the same; the TCP runner returns at once, by the \<open>?\<close>
  of its \<open>Drain\<close>. Elsewhere the other holders are known to report health only; here the
  difference is proved from any point of any run.
\<close>

section \<open>A program alone\<close>

text \<open>
  \<open>comes_to n p c a d\<close>: program \<open>p\<close>, alone on controller \<open>c\<close>, makes exactly \<open>n\<close> calls and comes to
  result \<open>a\<close> and controller \<open>d\<close>.
\<close>

fun comes_to :: "nat \<Rightarrow> 'a program \<Rightarrow> controller \<Rightarrow> 'a \<Rightarrow> controller \<Rightarrow> bool" where
  "comes_to 0 p c a d = (p = Finished a \<and> c = d)"
| "comes_to (Suc n) p c a d =
     (\<not> finished p \<and> comes_to n (fst (advance p c)) (snd (advance p c)) a d)"

lemma comes_to_finished: "comes_to n (Finished b) c a d \<longleftrightarrow> n = 0 \<and> a = b \<and> c = d"
  by (cases n) auto

lemma comes_to_call:
  "comes_to n p c a d \<Longrightarrow> \<not> finished p \<Longrightarrow>
     \<exists>m. n = Suc m \<and> comes_to m (fst (advance p c)) (snd (advance p c)) a d"
  by (cases n) auto

text \<open>From a draining lifecycle only \<open>Stop\<close> leads anywhere, and reports of health do not count.\<close>

definition going_down :: "controller \<Rightarrow> bool" where
  "going_down c \<longleftrightarrow> state_of c \<in> {Draining, Stopped}"

lemma going_down_step: "going_down c \<Longrightarrow> going_down (controller_step c ev)"
  by (cases ev) (auto simp: going_down_def state_step accepts_def)

lemma going_down_advance: "going_down c \<Longrightarrow> going_down (snd (advance p c))"
  using advance_controller [of p c] going_down_step by metis

lemma drained: "accepts c Drain \<Longrightarrow> state_of (controller_step c Drain) = Draining"
  by (cases "state_of c") (simp_all add: state_step accepts_def)

lemma stopped_comes_to: "comes_to n p c a d \<Longrightarrow> state_of c = Stopped \<Longrightarrow> state_of d = Stopped"
proof (induction n arbitrary: p c)
  case (Suc n)
  have "state_of (snd (advance p c)) = Stopped"
    using advance_controller [of p c] Suc.prems(2) by (auto simp: state_step accepts_def)
  with Suc show ?case by auto
qed simp

lemma reports_pass: "emits {Degrade, Recover} p \<Longrightarrow> going_down c \<Longrightarrow> snd (advance p c) = c"
  using emits_advance [of "{Degrade, Recover}" p c] by (auto simp: going_down_def accepts_def)

text \<open>The calls of the ways out, on a draining controller.\<close>

definition refused :: io_error where
  "refused = lifecycle_error ''invalid transport lifecycle transition''"

lemma draining_calls:
  assumes "state_of d = Draining" "\<not> ctl_poisoned d"
  shows "controller_transition Drain d = (d, Inl (rejection d Drain))"
    "controller_snapshot d = Inr (ctl_snapshot d)"
proof -
  have "\<not> accepts d Drain" using assms(1) by (simp add: accepts_def)
  then show "controller_transition Drain d = (d, Inl (rejection d Drain))"
    by (rule controller_transition_rejected)
  show "controller_snapshot d = Inr (ctl_snapshot d)"
    using assms(2) by (simp add: controller_snapshot_def lock_data_def)
qed

lemma stop_call:
  "accepts d Stop \<Longrightarrow>
     controller_transition Stop d = (controller_step d Stop, Inr (snapshot_after (record_for d Stop)))"
  by (simp add: controller_transition_accepted controller_step_accepted)

lemmas program_parts = program_eval comes_to.simps numeral_2_eq_2 numeral_3_eq_3 split_beta

lemma tcp_leaves_draining:
  assumes "state_of d = Draining" "\<not> ctl_poisoned d"
  shows "comes_to 1 (tcp_leave live) d (Returned (Inl refused)) d"
    "comes_to 2 (and_also mark_degraded_program (\<lambda>_. tcp_leave live)) d (Returned (Inl refused)) d"
  using assms(1) by (simp_all add: draining_calls [OF assms] tcp_leave_def program_parts refused_def)

lemma net_leaves_draining:
  assumes "state_of d = Draining" "accepts d Stop"
  shows "comes_to 3 net_drain d (Ended (Inl refused)) (controller_step d Stop)"
    "\<exists>n \<le> 3. comes_to n (net_serving_ended r) d (Ended r) (controller_step d Stop)"
proof -
  have "\<not> ctl_poisoned d" using assms(2) by (simp add: accepts_def)
  note calls = draining_calls [OF assms(1) this] stop_call [OF assms(2)] assms(1)
  show "comes_to 3 net_drain d (Ended (Inl refused)) (controller_step d Stop)"
    by (simp add: calls net_drain_def net_finish_def program_parts refused_def)
  show "\<exists>n \<le> 3. comes_to n (net_serving_ended r) d (Ended r) (controller_step d Stop)"
  proof (cases "is_ok r")
    case True
    then show ?thesis
      by (intro exI [of _ 2]) (simp add: calls net_serving_ended_def net_finish_def program_parts)
  next
    case False
    then show ?thesis
      by (intro exI [of _ 3]) (simp add: calls net_serving_ended_def net_finish_def program_parts)
  qed
qed

section \<open>The TCP server\<close>

text \<open>
  The server after the other clone's drain: still selecting, where it may be looking whether to
  report a failed task, or on its way out. Its tasks only report health, which changes nothing.
\<close>

definition tcp_loops :: "('s \<Rightarrow> nat) \<Rightarrow> nat \<Rightarrow> controller \<Rightarrow> 's tcp_server \<Rightarrow> bool" where
  "tcp_loops available n d s \<longleftrightarrow> tasks_ok available n s \<and> tcs_ctl s = d \<and>
     (tcs_main s = Finished Selecting \<or>
      tcs_main s = and_also mark_degraded_program (\<lambda>_. Finished Selecting))"

definition tcp_exits :: "('s \<Rightarrow> nat) \<Rightarrow> nat \<Rightarrow> controller \<Rightarrow> nat \<Rightarrow> 's tcp_server \<Rightarrow> bool" where
  "tcp_exits available n d k s \<longleftrightarrow> tasks_ok available n s \<and> going_down (tcs_ctl s) \<and>
     comes_to k (tcs_main s) (tcs_ctl s) (Returned (Inl refused)) d"

lemma handler_reports: "tasks_ok available n s \<Longrightarrow> i \<in> set (tcs_running s) \<Longrightarrow> emits {Degrade, Recover} (tcs_handlers s ! i)"
  by (simp add: tasks_ok_def handlers_ok_def list_all_length)

lemma tcp_loops_leave:
  assumes sem: "documented_semaphore lib available" and d: "state_of d = Draining" "\<not> ctl_poisoned d"
    and s: "tcp_loops available n d s" and act: "tcp_act lib s act = Some t"
    and leave: "act = SeesCancellation \<or> act = AcceptFails e"
  shows "\<exists>k \<le> 2. tcp_exits available n d k t"
proof -
  have tasks: "tasks_ok available n t" using tasks_ok_act [OF sem _ act] s by (simp add: tcp_loops_def)
  have down: "going_down d" using d by (simp add: going_down_def)
  from leave have "tcp_exits available n d 1 t \<or> tcp_exits available n d 2 t"
  proof
    assume "act = SeesCancellation"
    with act s d tasks down tcp_leaves_draining(1) [OF d, of None] show ?thesis
      by (auto simp: tcp_loops_def tcp_exits_def split: program.splits tcp_phase.splits)
  next
    assume "act = AcceptFails e"
    with act s d tasks down tcp_leaves_draining(2) [OF d, of "Some e"] show ?thesis
      by (auto simp: tcp_loops_def tcp_exits_def split: program.splits tcp_phase.splits)
  qed
  then show ?thesis by (meson one_le_numeral order_refl)
qed

lemma tcp_loops_act:
  assumes sem: "documented_semaphore lib available" and d: "state_of d = Draining" "\<not> ctl_poisoned d"
    and s: "tcp_loops available n d s" and act: "tcp_act lib s act = Some t"
  shows "tcp_loops available n d t \<or> (\<exists>k. tcp_exits available n d k t)"
proof -
  have tasks: "tasks_ok available n t" using tasks_ok_act [OF sem _ act] s by (simp add: tcp_loops_def)
  have down: "going_down d" using d by (simp add: going_down_def)
  show ?thesis
  proof (cases act)
    case RunnerCalls
    with s act have "tcs_main s = and_also mark_degraded_program (\<lambda>_. Finished Selecting)" "tcs_ctl s = d"
      by (auto simp: tcp_loops_def split: if_splits)
    with act RunnerCalls d tasks show ?thesis
      by (auto simp: tcp_loops_def draining_calls program_parts)
  next
    case (HandlerCalls i)
    with act s handler_reports [of available n s i] reports_pass [of "tcs_handlers s ! i" d] down tasks
    show ?thesis by (auto simp: tcp_loops_def split_beta split: if_splits)
  next
    case (AcceptFails e)
    with tcp_loops_leave [OF sem d s act, of e] show ?thesis by blast
  next
    case SeesCancellation
    with tcp_loops_leave [OF sem d s act] show ?thesis by blast
  next
    case JoinsTask
    with act s tasks show ?thesis
      by (auto simp: tcp_loops_def mark_degraded_program_def split: program.splits tcp_phase.splits list.splits)
  qed (use act s tasks in \<open>auto simp: tcp_loops_def mark_degraded_program_def task_ended_def
      split: program.splits tcp_phase.splits if_splits option.splits\<close>)
qed

lemma tcp_exits_act:
  assumes sem: "documented_semaphore lib available" and s: "tcp_exits available n d k s"
    and act: "tcp_act lib s act = Some t"
  shows "act \<notin> {SeesCancellation, JoinsTask, TasksGone} \<and> (\<forall>e. act \<noteq> AcceptFails e) \<and>
    (if act = RunnerCalls then 0 < k \<and> tcp_exits available n d (k - 1) t else tcp_exits available n d k t)"
proof -
  have tasks: "tasks_ok available n t" using tasks_ok_act [OF sem _ act] s by (simp add: tcp_exits_def)
  have down: "going_down (tcs_ctl s)" and comes: "comes_to k (tcs_main s) (tcs_ctl s) (Returned (Inl refused)) d"
    using s by (simp_all add: tcp_exits_def)
  have main: "tcs_main s = Finished a \<Longrightarrow> a = Returned (Inl refused)" for a
    using comes by (auto simp: comes_to_finished)
  show ?thesis
  proof (cases act)
    case RunnerCalls
    with act comes_to_call [OF comes] going_down_advance [OF down] tasks show ?thesis
      by (auto simp: tcp_exits_def split_beta split: if_splits)
  next
    case (HandlerCalls i)
    with act s handler_reports [of available n s i] reports_pass [OF _ down, of "tcs_handlers s ! i"] tasks
    show ?thesis by (auto simp: tcp_exits_def split_beta split: if_splits)
  qed (use act s tasks main in \<open>auto simp: tcp_exits_def task_ended_def
      split: program.splits tcp_phase.splits if_splits option.splits list.splits\<close>)
qed

lemma tcp_exits_run:
  assumes "documented_semaphore lib available"
  shows "tcp_exits available n d k s \<Longrightarrow> tcp_run lib s acts = Some t \<Longrightarrow>
    count_list acts RunnerCalls \<le> k \<and> tcp_exits available n d (k - count_list acts RunnerCalls) t \<and>
    set acts \<inter> {SeesCancellation, JoinsTask, TasksGone} = {}"
proof (induction acts arbitrary: s k)
  case (Cons act acts)
  then obtain u where u: "tcp_act lib s act = Some u" "tcp_run lib u acts = Some t"
    by (auto split: option.splits)
  with tcp_exits_act [OF assms Cons.prems(1) u(1)] Cons.IH [of "k - 1" u] Cons.IH [of k u]
  show ?case by (cases "act = RunnerCalls") auto
qed simp

lemma tcp_still_loops:
  assumes "documented_semaphore lib available" "state_of d = Draining" "\<not> ctl_poisoned d"
  shows "tcp_loops available n d s \<Longrightarrow> tcp_run lib s acts = Some t \<Longrightarrow>
    tcp_loops available n d t \<or> (\<exists>k. tcp_exits available n d k t)"
proof (induction acts arbitrary: s)
  case (Cons act acts)
  then obtain u where u: "tcp_act lib s act = Some u" "tcp_run lib u acts = Some t"
    by (auto split: option.splits)
  with tcp_loops_act [OF assms Cons.prems(1) u(1)] Cons.IH [of u] tcp_exits_run [OF assms(1) _ u(2)]
  show ?case by blast
qed simp

lemma tcp_leaves_unfinished:
  assumes sem: "documented_semaphore lib available" and d: "state_of d = Draining" "\<not> ctl_poisoned d"
    and s: "tcp_loops available n d s"
    and run: "tcp_run lib s (between @ leave # after) = Some t"
    and leave: "leave = SeesCancellation \<or> leave = AcceptFails e"
  shows "\<exists>k \<le> 2. count_list after RunnerCalls \<le> k \<and>
    tcp_exits available n d (k - count_list after RunnerCalls) t \<and>
    set after \<inter> {SeesCancellation, JoinsTask, TasksGone} = {}"
proof -
  obtain u v where u: "tcp_run lib s between = Some u" "tcp_act lib u leave = Some v" "tcp_run lib v after = Some t"
    using run by (auto simp: tcp_run_append bind_eq_Some_conv split: option.splits)
  have "tcp_loops available n d u"
    using tcp_still_loops [OF sem d s u(1)] tcp_exits_act [OF sem _ u(2)] leave by blast
  then obtain k where "k \<le> 2" "tcp_exits available n d k v"
    using tcp_loops_leave [OF sem d _ u(2) leave] by blast
  with tcp_exits_run [OF sem _ u(3)] show ?thesis by blast
qed

section \<open>The network servers\<close>

definition net_exits :: "controller \<Rightarrow> net_phase \<Rightarrow> nat \<Rightarrow> 'st net_server \<Rightarrow> bool" where
  "net_exits d phase k s \<longleftrightarrow> sessions_ok s \<and> going_down (nts_ctl s) \<and>
     comes_to k (nts_main s) (nts_ctl s) phase d \<and> (\<exists>r. phase = Ended r)"

lemma session_reports: "sessions_ok s \<Longrightarrow> i \<in> set (nts_live s) \<Longrightarrow> emits {Degrade, Recover} (nts_sessions s ! i)"
  by (simp add: sessions_ok_def list_all_length)

lemma net_exits_act:
  assumes healthy: "healthy svc" and s: "net_exits d phase k s" and act: "net_act svc s act = Some t"
  shows "if act = NetCalls then 0 < k \<and> net_exits d phase (k - 1) t else net_exits d phase k t"
proof -
  have sessions: "sessions_ok t" using sessions_ok_act [OF healthy _ act] s by (simp add: net_exits_def)
  have down: "going_down (nts_ctl s)" and comes: "comes_to k (nts_main s) (nts_ctl s) phase d"
    using s by (simp_all add: net_exits_def)
  have main: "nts_main s = Finished a \<Longrightarrow> \<exists>r. a = Ended r" for a
    using s comes by (auto simp: net_exits_def comes_to_finished)
  show ?thesis
  proof (cases act)
    case NetCalls
    with act comes_to_call [OF comes] going_down_advance [OF down] sessions s show ?thesis
      by (auto simp: net_exits_def split_beta split: if_splits)
  next
    case (SessionCalls i)
    with act s session_reports [of s i] reports_pass [OF _ down, of "nts_sessions s ! i"] sessions
    show ?thesis by (auto simp: net_exits_def split_beta split: if_splits)
  qed (use act s sessions main in \<open>auto simp: net_exits_def
      split: program.splits net_phase.splits if_splits option.splits sum.splits\<close>)
qed

lemma net_exits_run:
  assumes "healthy svc"
  shows "net_exits d phase k s \<Longrightarrow> net_run svc s acts = Some t \<Longrightarrow>
    count_list acts NetCalls \<le> k \<and> net_exits d phase (k - count_list acts NetCalls) t"
proof (induction acts arbitrary: s k)
  case (Cons act acts)
  then obtain u where u: "net_act svc s act = Some u" "net_run svc u acts = Some t"
    by (auto split: option.splits)
  with net_exits_act [OF assms Cons.prems(1) u(1)] Cons.IH [of "k - 1" u] Cons.IH [of k u]
  show ?case by (cases "act = NetCalls") auto
qed simp

text \<open>The server still serving after the other clone's drain.\<close>

definition net_serves :: "controller \<Rightarrow> 'st net_server \<Rightarrow> bool" where
  "net_serves d s \<longleftrightarrow> sessions_ok s \<and> nts_ctl s = d \<and> nts_main s = Finished Serving"

fun net_leave :: "'req net_action \<Rightarrow> (io_error + unit) option" where
  "net_leave SelectsCancellation = Some (Inl refused)"
| "net_leave (ServingStops r) = Some r"
| "net_leave _ = None"

lemma net_serves_act:
  assumes healthy: "healthy svc" and d: "state_of d = Draining" "accepts d Stop"
    and s: "net_serves d s" and act: "net_act svc s act = Some t"
  shows "case net_leave act of None \<Rightarrow> net_serves d t
    | Some r \<Rightarrow> \<exists>k \<le> 3. net_exits (controller_step d Stop) (Ended r) k t"
proof -
  have sessions: "sessions_ok t" using sessions_ok_act [OF healthy _ act] s by (simp add: net_serves_def)
  have down: "going_down d" using d by (simp add: going_down_def)
  show ?thesis
  proof (cases act)
    case (SessionCalls i)
    with act s session_reports [of s i] reports_pass [of "nts_sessions s ! i" d] down sessions
    show ?thesis by (auto simp: net_serves_def split_beta split: if_splits)
  next
    case SelectsCancellation
    with act s sessions down net_leaves_draining(1) [OF d] show ?thesis
      by (auto simp: net_serves_def net_exits_def split: if_splits intro: exI [of _ 3])
  next
    case (ServingStops r)
    with act s sessions down net_leaves_draining(2) [OF d, of r] show ?thesis
      by (auto simp: net_serves_def net_exits_def)
  qed (use act s sessions in \<open>auto simp: net_serves_def split: if_splits option.splits sum.splits\<close>)
qed

lemma net_serves_run:
  assumes healthy: "healthy svc" and d: "state_of d = Draining" "accepts d Stop"
  shows "net_serves d s \<Longrightarrow> net_run svc s acts = Some t \<Longrightarrow>
    net_serves d t \<or> (\<exists>r k. net_exits (controller_step d Stop) (Ended r) k t)"
proof (induction acts arbitrary: s)
  case (Cons act acts)
  then obtain u where u: "net_act svc s act = Some u" "net_run svc u acts = Some t"
    by (auto split: option.splits)
  show ?case
  proof (cases "net_leave act")
    case None
    with net_serves_act [OF healthy d Cons.prems(1) u(1)] Cons.IH [OF _ u(2)] show ?thesis by simp
  next
    case (Some r)
    with net_serves_act [OF healthy d Cons.prems(1) u(1)] net_exits_run [OF healthy _ u(2)]
    show ?thesis by fastforce
  qed
qed simp

lemma net_leaves_stopped:
  assumes healthy: "healthy svc" and d: "state_of d = Draining" "accepts d Stop"
    and s: "net_serves d s"
    and run: "net_run svc s (between @ leave # after) = Some t"
    and leave: "net_leave leave = Some r"
  shows "\<exists>k \<le> 3. count_list after NetCalls \<le> k \<and>
    net_exits (controller_step d Stop) (Ended r) (k - count_list after NetCalls) t"
proof -
  obtain u v where u: "net_run svc s between = Some u" "net_act svc u leave = Some v" "net_run svc v after = Some t"
    using run by (auto simp: net_run_append bind_eq_Some_conv split: option.splits)
  have "nts_main u = Finished Serving"
    using u(2) leave by (cases leave) (auto split: program.splits net_phase.splits)
  then have "net_serves d u"
    using net_serves_run [OF healthy d s u(1)] by (auto simp: net_exits_def comes_to_finished)
  then obtain k where "k \<le> 3" "net_exits (controller_step d Stop) (Ended r) k v"
    using net_serves_act [OF healthy d _ u(2)] leave by auto
  with net_exits_run [OF healthy _ u(3)] show ?thesis by blast
qed

lemma net_run_sessions:
  assumes "healthy svc"
  shows "sessions_ok s \<Longrightarrow> net_run svc s acts = Some t \<Longrightarrow> sessions_ok t"
proof (induction acts arbitrary: s)
  case (Cons act acts)
  then show ?case using sessions_ok_act [OF assms Cons.prems(1)] by (auto split: option.splits)
qed simp

text \<open>Where the two stand at any point of their way out.\<close>

lemma tcp_exits_now:
  assumes "tcp_exits available n d k t" "state_of d = Draining"
  shows "state_of (tcs_ctl t) = Draining \<and>
    (tcs_main t = Finished (Returned (Inl refused)) \<and> (\<forall>i \<in> set (tcs_running t). tcp_act lib t (TaskAborted i) \<noteq> None) \<or>
     tcp_act lib t RunnerCalls \<noteq> None)"
proof -
  have comes: "comes_to k (tcs_main t) (tcs_ctl t) (Returned (Inl refused)) d" and "going_down (tcs_ctl t)"
    using assms(1) by (simp_all add: tcp_exits_def)
  moreover have "state_of (tcs_ctl t) \<noteq> Stopped" using stopped_comes_to [OF comes] assms(2) by auto
  ultimately show ?thesis
    by (cases k) (auto simp: going_down_def aborts_tasks_def split: prod.splits)
qed

lemma net_exits_now:
  "net_exits d phase k t \<Longrightarrow> nts_main t = Finished phase \<and> nts_ctl t = d \<or> net_act svc t NetCalls \<noteq> None"
  by (cases k) (auto simp: net_exits_def split: prod.splits)

section \<open>The difference\<close>

text \<open>
  C40. When another clone drains the lifecycle of a running server, the TCP server is left
  unfinished and the network servers are not. Take any run of the TCP server up to a moment
  where it selects, an accepted \<open>Drain\<close> by a clone then, and any continuation in which the loop
  ends, by cancellation or a failed accept: the lifecycle is draining and is never stopped; the
  runner makes at most two more calls and has then returned the error of its own refused \<open>Drain\<close>,
  whatever ended its loop; it joins no task after its loop, and the tasks still running when it
  has returned are aborted, at whatever point they are, by the drop of its \<open>JoinSet\<close>. In the same situation a Streamable
  HTTP or WebSocket server, or any other whose sessions are connection handlers, makes at most
  three more calls and has then returned with the lifecycle stopped: the same error after
  cancellation, and what serving came to otherwise.
\<close>

theorem tcp_external_drain_left_unfinished:
  assumes sem: "documented_semaphore lib available"
    and tcp: "tcp_run lib (tcp_start lib config bound c) before = Some s" "tcs_main s = Finished Selecting"
    and tcp_drained: "accepts (tcs_ctl s) Drain"
      "tcp_run lib (s\<lparr>tcs_ctl := controller_step (tcs_ctl s) Drain\<rparr>) (between @ leave # after) = Some t"
    and leave: "leave = SeesCancellation \<or> leave = AcceptFails e"
    and healthy: "healthy svc"
    and net: "net_run svc (net_start svc bound' c') before' = Some n" "nts_main n = Finished Serving"
    and net_drained: "accepts (nts_ctl n) Drain" "revision_of (nts_ctl n) + 2 < 2 ^ 64"
      "net_run svc (n\<lparr>nts_ctl := controller_step (nts_ctl n) Drain\<rparr>) (between' @ leave' # after') = Some m"
    and leave': "leave' = SelectsCancellation \<and>
        r = Inl (lifecycle_error ''invalid transport lifecycle transition'') \<or> leave' = ServingStops r"
  shows "(state_of (tcs_ctl t) = Draining \<and> count_list after RunnerCalls \<le> 2 \<and>
     (tcs_main t = Finished (Returned (Inl (lifecycle_error ''invalid transport lifecycle transition''))) \<and>
        (\<forall>i \<in> set (tcs_running t). tcp_act lib t (TaskAborted i) \<noteq> None) \<or>
      tcp_act lib t RunnerCalls \<noteq> None) \<and>
     JoinsTask \<notin> set after \<and> TasksGone \<notin> set after) \<and>
    (count_list after' NetCalls \<le> 3 \<and>
     (nts_main m = Finished (Ended r) \<and> state_of (nts_ctl m) = Stopped \<or> net_act svc m NetCalls \<noteq> None))"
proof
  let ?d = "controller_step (tcs_ctl s) Drain" and ?e = "controller_step (nts_ctl n) Drain"
  have d: "state_of ?d = Draining" "\<not> ctl_poisoned ?d"
    using drained [OF tcp_drained(1)] tcp_drained(1) by (simp_all add: accepts_def)
  have e: "state_of ?e = Draining" "accepts ?e Stop"
    using drained [OF net_drained(1)] net_drained(1,2) by (simp_all add: accepts_def revision_step)
  have "tcp_loops available (tcp_max_connections config) ?d (s\<lparr>tcs_ctl := ?d\<rparr>)"
    using tcp_run_tasks [OF sem tcp(1)] tcp(2) by (simp add: tcp_loops_def tasks_ok_def)
  from tcp_leaves_unfinished [OF sem d this tcp_drained(2) leave]
  obtain k where k: "count_list after RunnerCalls \<le> k" "k \<le> 2" "set after \<inter> {SeesCancellation, JoinsTask, TasksGone} = {}"
      "tcp_exits available (tcp_max_connections config) ?d (k - count_list after RunnerCalls) t"
    by blast
  show "state_of (tcs_ctl t) = Draining \<and> count_list after RunnerCalls \<le> 2 \<and>
     (tcs_main t = Finished (Returned (Inl (lifecycle_error ''invalid transport lifecycle transition''))) \<and>
        (\<forall>i \<in> set (tcs_running t). tcp_act lib t (TaskAborted i) \<noteq> None) \<or>
      tcp_act lib t RunnerCalls \<noteq> None) \<and>
     JoinsTask \<notin> set after \<and> TasksGone \<notin> set after"
    using k tcp_exits_now [OF k(4) d(1), of lib] by (auto simp: refused_def)
  have "net_serves ?e (n\<lparr>nts_ctl := ?e\<rparr>)"
    using net_run_sessions [OF healthy _ net(1)] net(2)
    by (simp add: net_serves_def net_start_def sessions_ok_def)
  moreover have "net_leave leave' = Some r" using leave' by (auto simp: refused_def)
  ultimately obtain k where k: "count_list after' NetCalls \<le> k" "k \<le> 3"
      "net_exits (controller_step ?e Stop) (Ended r) (k - count_list after' NetCalls) m"
    using net_leaves_stopped [OF healthy e _ net_drained(3)] by blast
  show "count_list after' NetCalls \<le> 3 \<and>
     (nts_main m = Finished (Ended r) \<and> state_of (nts_ctl m) = Stopped \<or> net_act svc m NetCalls \<noteq> None)"
    using k net_exits_now [OF k(3), of svc] e by (auto simp: state_step)
qed

text \<open>
  A connection is being served when the clone drains and cancellation is seen; the HTTP server is
  cancelled in the same situation.
\<close>

theorem tcp_external_drain_left_unfinished_witness:
  "let svc = http_service example_types example_rmcp listed_http in
   \<exists>s t n m. tcp_run counting_semaphore (tcp_start counting_semaphore tcp_default (Inr ()) (fresh_controller 8))
       [RunnerCalls, RunnerCalls, AcceptsConnection (Inr ()) TaskFinished] = Some s \<and>
     tcp_run counting_semaphore (s\<lparr>tcs_ctl := controller_step (tcs_ctl s) Drain\<rparr>)
       ([HandlerCalls 0] @ SeesCancellation # [RunnerCalls, TaskAborted 0]) = Some t \<and>
     net_run svc (net_start svc (Inr ()) (fresh_controller 8)) [NetCalls, NetCalls, RouterOpens] = Some n \<and>
     net_run svc (n\<lparr>nts_ctl := controller_step (nts_ctl n) Drain\<rparr>)
       ([TokenCancelled] @ SelectsCancellation # [NetCalls, NetCalls, NetCalls]) = Some m \<and>
     state_of (tcs_ctl t) = Draining \<and> state_of (nts_ctl m) = Stopped"
proof -
  let ?before = "[RunnerCalls, RunnerCalls, AcceptsConnection (Inr ()) TaskFinished]"
  let ?svc = "http_service example_types example_rmcp listed_http"
  obtain s where s: "tcp_run counting_semaphore
      (tcp_start counting_semaphore tcp_default (Inr ()) (fresh_controller 8)) ?before = Some s"
      "tcs_main s = Finished Selecting" "accepts (tcs_ctl s) Drain" "tcs_running s = [0]"
      "tcs_handlers s = [connection_program (Inr ()) TaskFinished]"
    by (auto simp: tcp_eval accepts_def)
  have d: "state_of (controller_step (tcs_ctl s) Drain) = Draining"
      "\<not> ctl_poisoned (controller_step (tcs_ctl s) Drain)"
    using drained [OF s(3)] s(3) by (simp_all add: accepts_def)
  obtain t where t: "tcp_run counting_semaphore (s\<lparr>tcs_ctl := controller_step (tcs_ctl s) Drain\<rparr>)
      ([HandlerCalls 0] @ SeesCancellation # [RunnerCalls, TaskAborted 0]) = Some t"
    using s by (simp add: split_beta draining_calls [OF d] program_eval tcp_leave_def aborts_tasks_def)
  obtain policy where policy: "header_policy_new example_types [''localhost''] [''http://localhost''] False = Inr policy"
    using example_policy by blast
  obtain n where n: "net_run ?svc (net_start ?svc (Inr ()) (fresh_controller 8)) [NetCalls, NetCalls, RouterOpens] = Some n"
      "nts_main n = Finished Serving" "accepts (nts_ctl n) Drain" "revision_of (nts_ctl n) + 2 < 2 ^ 64"
    using policy listed_http_validates
    by (simp add: net_eval http_service_def build_http_router_def listed_http_def accepts_def Let_def)
  have e: "state_of (controller_step (nts_ctl n) Drain) = Draining" "accepts (controller_step (nts_ctl n) Drain) Stop"
    using drained [OF n(3)] n(3,4) by (simp_all add: accepts_def revision_step)
  then have "\<not> ctl_poisoned (controller_step (nts_ctl n) Drain)" by (simp add: accepts_def)
  note calls = draining_calls [OF e(1) this] stop_call [OF e(2)] e(1)
  obtain m where m: "net_run ?svc (n\<lparr>nts_ctl := controller_step (nts_ctl n) Drain\<rparr>)
      ([TokenCancelled] @ SelectsCancellation # [NetCalls, NetCalls, NetCalls]) = Some m"
      "net_act ?svc m NetCalls = None"
    using n by (simp add: calls split_beta net_drain_def net_finish_def program_eval)
  have "state_of (tcs_ctl t) = Draining" "state_of (nts_ctl m) = Stopped"
    using tcp_external_drain_left_unfinished [OF counting_documented s(1-3) t disjI1 [OF HOL.refl]
        services_healthy(1) n(1-4) m(1) disjI1 [OF conjI [OF HOL.refl HOL.refl]]] m(2)
    by blast+
  with s(1) t n(1) m(1) show ?thesis by (auto simp: Let_def)
qed

end
