(* ===== verification/Spec2Isabelle.thy ===== *)
theory Spec2Isabelle
  imports Lifecycle_Wait Lifecycle_Races Lifecycle_Spec Ai_Types Ai_Registry_Laws Telemetry_Laws Tool_Calls
    Config_Roundtrip Wire_Sessions Tcp_Refinement Websocket_Server Watched_Servers External_Drain
begin

text \<open>
  A verification library for \<open>ores-mcp-server-core-libs\<close>, the shared components of Rust MCP
  servers.

  \<^bold>\<open>The program.\<close> A server owns one \<open>LifecycleController\<close> (\<open>src/state_machine.rs\<close>), shared by
  clones, through which every transport runner (\<open>src/transport.rs\<close>) starts, serves, drains and
  stops. The runners validate a configuration read from the environment, check \<open>Host\<close> and
  \<open>Origin\<close> headers, and exchange bounded messages. Independently, the advisory connectors
  (\<open>src/ai/\<close>) turn a closed vocabulary of evidence into one bounded HTTPS request to a fixed
  origin and a bounded text. \<open>src/bounds.rs\<close> and \<open>src/redaction.rs\<close> give the limits and the
  secrets; \<open>crates/ores-telemetry\<close> and \<open>src/observability.rs\<close> give logging, export and metrics.

  \<^bold>\<open>Theories and code.\<close>
  \<^item> \<open>Prelude\<close>, \<open>Texts\<close>, \<open>Environment\<close>, \<open>Socket_Addr\<close>: what the components use of Rust's
    standard library. A string is the list of the bytes of its UTF-8 encoding, so that
    \<open>length\<close> is Rust's \<open>len\<close>; a result is a sum, \<open>Inl\<close> the error; \<open>u64\<close> is a 64-bit word, a
    \<open>Duration\<close> its nanoseconds, a \<open>usize\<close> that only sizes something a natural number.
    \<open>std::env\<close> is a function from names to \<open>var_result\<close>.
  \<^item> \<open>Lifecycle\<close>: states, events, \<open>transition_target\<close>, the controller as a record (snapshot,
    audit ring, poison flag, list of published snapshots) and its operations, \<open>validate_model\<close>,
    \<open>wait_for\<close> over the observations it makes. A run is a list of \<open>transition\<close> calls by any
    clones, which the mutex puts in an order. \<open>Lifecycle_Spec\<close>: \<open>formal/McpLifecycle.tla\<close>.
    \<open>Lifecycle_Threads\<close>: the same operations as sequences of reads and writes by threads that
    take the mutex, wait for it and may panic inside (\<open>thread_step\<close>). \<open>Lifecycle_Wait\<close>:
    \<open>wait_for\<close> turn by turn (\<open>wait_turn\<close>) beside clones that change the controller.
  \<^item> \<open>Bounds\<close>, \<open>Redaction\<close>: the two modules of these names.
  \<^item> \<open>Ai_Core\<close>: evidence, model identifiers, requests, \<open>collect_output\<close> of \<open>src/ai/mod.rs\<close>;
    \<open>Ai_Http\<close>: \<open>src/ai/http.rs\<close>; \<open>Ai_OpenAi\<close>, \<open>Ai_Anthropic\<close>, \<open>Ai_Gemini\<close>: the connectors;
    \<open>Ai_Registry\<close>: provider configuration, registry and the advisory operations. A call
    returns the list of requests it sent with its result.
  \<^item> \<open>Telemetry\<close>: \<open>crates/ores-telemetry/src/lib.rs\<close>, with process-wide effects as a list;
    \<open>Observability\<close>: \<open>src/observability.rs\<close>, and \<open>Tool_Calls\<close>: its timers over a server's life.
  \<^item> \<open>Transport_Config\<close>, \<open>Header_Policy\<close>, \<open>Wire\<close>, \<open>Runners\<close>: \<open>src/transport.rs\<close>, from the
    configurations over the header policy and the two framed transports to the four runners.
    \<open>Programs\<close>: the runners and their connection handlers again as programs, sequences of
    calls of the controller, equal to \<open>Runners\<close>; \<open>Interleaving\<close>: pools of such programs.
    \<open>Tcp_Server\<close>: \<open>run_tcp_ndjson\<close> with the tasks it spawns into its \<open>JoinSet\<close>, as a state that
    holds the runner's program and phase, the tasks' programs and the permits, and one action
    for each call, accept, join, end of a task, cancellation and deadline; a running task may be
    stuck for ever, and is aborted after the deadline or when the runner's \<open>JoinSet\<close> is dropped.
    \<open>Network_Server\<close>: the HTTP and the WebSocket server in the same way, over a \<open>service\<close> that is
    their router; the HTTP one asks for the path, the headers and rmcp's consent.
    \<open>Program_Threads\<close>: programs whose calls are made by threads, access by access
    (\<open>threaded_step\<close>), beside the actions of the server they belong to; \<open>Threaded_Servers\<close>: what a
    server is for it, and \<open>Tcp_Threads\<close>, \<open>Network_Threads\<close> the three servers as such.
    \<open>Watched_Servers\<close>: such a server beside its owner's \<open>wait_for\<close>, over one controller.
    \<open>Wire_Sessions\<close>: a protocol session on either framed transport.

  \<^bold>\<open>Interfaces.\<close> \<open>invariant_machine\<close> and \<open>ranked_machine\<close> (a transition function that keeps an
  invariant, or climbs a rank) are interpreted by the controller, the TCP accept loop and the
  WebSocket server;
  \<open>byte_limit\<close> by the four checks of \<open>Limits\<close>; \<open>ai_connector\<close> (what the registry relies on in
  a connector: confined requests, bounded text) by the three connectors and by their
  dispatch; \<open>wire_sender\<close> and \<open>wire_transport\<close> (two halves that do not disturb each other) by the
  line and the WebSocket transport; \<open>forward_simulation\<close>
  (\<open>Automata\<close>) by the threads and the atomic controller; \<open>spawning_server\<close> (actions that do not
  disturb the calls of programs) by every \<open>served\<close> (a server made of a controller, programs and
  a rest), which the TCP, the HTTP and the WebSocket server interpret.
\<close>

text \<open>
  \<^bold>\<open>What the lemmas show.\<close>
  \<^item> \<open>Lifecycle_Laws\<close>: the audit ring, the snapshot and the publications are those of a log kept
    by the transition table and a counter alone (\<open>event_log\<close>), rejected calls change
    nothing, the terminal state is absorbing and always within reach. \<open>Lifecycle_Graph\<close>: the
    closure computation is reachability and the exhaustive self check passes. \<open>Lifecycle_Spec\<close>:
    the controller's runs are the behaviours of the TLA+ specification, infinite and with
    stuttering, and the five invariants of its model checking hold in them. Its \<open>MaxRevision\<close> only bounds model
    checking and has no counterpart; the controller is bounded by the width of a revision,
    and exhaustion is an error that changes nothing. \<open>Lifecycle_Concurrency\<close>: threads inside
    the operations are indistinguishable from atomic calls, and no thread sees the lifecycle
    go back; \<open>Lifecycle_Races\<close>: each revision has one winner; \<open>Lifecycle_Wait\<close>: a waiter reads
    faithfully, loses no wake-up, and returns when its state lasts.
  \<^item> \<open>Ai_Laws\<close>, the connectors and \<open>Ai_Registry_Laws\<close>: requests are confined, secrets reach
    sensitive headers only, answers are accepted exactly when complete, output is bounded and
    attributed, statuses are truthful. \<open>Ai_Types\<close>: the validating constructors are exact for
    their types, and the JSON of evidence determines it.
  \<^item> \<open>Telemetry_Laws\<close>, \<open>Observability\<close>: the log filter is closed, providers are built as
    reported and shut down in order, silently where a shutdown returns an error; each tool call is measured once under closed labels. \<open>Tool_Calls\<close>: counters and
    histograms of overlapping calls are exact.
  \<^item> \<open>Header_Policy\<close>, \<open>Transport_Config_Laws\<close>, \<open>Wire\<close>: admission by the allow-lists, safe
    configurations, bounded input and output. \<open>Socket_Roundtrip\<close>, \<open>Config_Roundtrip\<close>: addresses
    of both families are read back from their display, all but the flow information, and
    configurations from their variables, which carry whole seconds.
    \<open>Wire_Sessions\<close>: what a session receives and what it sends do not depend on each other.
  \<^item> \<open>Runners_Laws\<close>: success means stopped; every path stops and reports its cause; the TCP
    runner ends; the connection cap and the handshake gate are exact. \<open>Composition\<close>: among any
    fixed handlers, in every interleaving, each runner returns with the lifecycle stopped.
    \<open>Websocket_Sessions\<close>: permits over any sequence of handshakes and sessions.
  \<^item> \<open>Rely_Guarantee\<close>: what a program promises while others report health is kept by every call
    and every report, whoever is started when. \<open>Tcp_Server_Laws\<close>, \<open>Network_Server_Laws\<close>,
    \<open>Websocket_Server\<close>: with it, the servers that spawn their handlers are where their lifecycle
    says, return their cause, respect cap and gate, and do return; the TCP server leaves no task
    behind, and what HTTP and WebSocket sessions do later changes nothing. \<open>Tcp_Refinement\<close>: the
    TCP server implements the sequential \<open>run_tcp_ndjson\<close>.
  \<^item> \<open>Program_Threads\<close>: a server whose programs call on threads is simulated by the one with
    atomic calls, and each call takes nine steps at most; \<open>Program_Schedules\<close>: some thread can
    always go on, and atomic calls are a schedule of the threads; \<open>Threaded_Servers\<close>: both
    reach the same states. \<open>Tcp_Threads\<close>, \<open>Network_Threads\<close>: so the guarantees of the servers hold
    down to the single access, and the TCP server's threads come to rest, by steps that need no
    task alone. \<open>Watched_Servers\<close>: a
    run of server and waiter is a run of each, and a wait for \<open>Stopped\<close> returns when the runner has.
  \<^item> \<open>External_Drain\<close>: what becomes of each server when another clone drains the lifecycle under
    it: the TCP server is left draining, its tasks unjoined, where the network servers stop.

  \<^bold>\<open>Concurrency.\<close> Three levels, each justified by the one below. Threads interleave single
  accesses in \<open>Lifecycle_Threads\<close>, where the simulation shows that whole operations are atomic,
  and in \<open>Program_Threads\<close>, where it shows so of whole servers.
  Programs interleave whole operations in \<open>Interleaving\<close>. In \<open>Runners\<close> a runner's \<open>world\<close> holds the
  controller and, for each of the runner's own lock acquisitions in turn, the events that
  other clones apply just before it; the batches are arbitrary, and \<open>pool_is_world\<close> shows that
  every interleaving is one such world. Where a property needs other clones to be well
  behaved it says so (\<open>calm\<close>: they only report health, the lock is not poisoned, revisions
  suffice); \<open>Composition\<close> discharges it for the program's own connection handlers. The order
  in which the branches of a \<open>select!\<close> become ready is an argument; a loop whose events end
  too early returns \<open>None\<close>, and \<open>Composition\<close> shows that cancellation and the
  deadline are enough for it to end. The servers need no such list: an action happens or not,
  and how a service ends is fixed, but not looked at, when its connection is accepted. What is
  left to do once a loop has ended is bounded by a weight (\<open>winds\<close>, \<open>net_weight\<close>). There is no fuel: each recursion is structural, but for
  \<open>reachable_closure\<close>, \<open>utf8_chunks\<close> and the printing of numbers, which end by a measure.

  \<^bold>\<open>Parameters.\<close> Code outside the repository is an argument of the definitions that use it:
  the URL parser, JSON and the header syntax, the response and its chunks (\<open>http_lib\<close>), the
  authority and URI parsers (\<open>http_types\<close>), tokio's semaphore (\<open>semaphore_lib\<close>) and watch
  receiver (\<open>watch_lib\<close>, \<open>watch_view\<close>), the
  OpenTelemetry SDK (\<open>otel_lib\<close>), the line codec (\<open>lines_codec\<close>), the socket (the events it
  yields) and rmcp's HTTP service (\<open>rmcp_lib\<close>, which requests it takes under its configuration). Few
  properties need more than that; those name documented behaviour (\<open>documented_semaphore\<close>,
  \<open>documented_types\<close>, \<open>documented_watch\<close>, \<open>documented_lines\<close>, \<open>documented_rmcp\<close>) and have a witness
  over an instance.

  \<^bold>\<open>Not modelled.\<close> Tracing spans and the rendering of log events, JSON as text, the conversion of a
  duration to floating-point milliseconds, the scheduling of tasks beyond the order of events,
  the protocol handling inside rmcp and axum, and code outside the two crates (tests,
  scripts, deployment).
\<close>

end
